(* ===== verification/Prelude.thy ===== *)
theory Prelude
  imports Main "HOL-Library.Word" "HOL-Library.AList"
begin

section \<open>Prelude: results, exceptions, rows and dictionaries\<close>

text \<open>
  The vocabulary every component shares. A Python function that may raise is a function into
  \<open>'a result\<close>, with \<open>Inl\<close> for the exception; sequencing is \<open>rbind\<close>. A table of the
  database is a list of rows in insertion order, read by \<open>row_get\<close> and \<open>scalar_one_or_none\<close>
  and written by \<open>row_modify\<close>. A Python dictionary is an association list in insertion order,
  read by \<^const>\<open>map_of\<close> and written by \<^const>\<open>AList.update\<close>. The collections below carry
  the component proofs: \<open>result_simps\<close> opens sequencing, \<open>row_simps\<close> opens table access,
  \<open>tx_defs\<close> holds the definitions of the small session operations.
\<close>

named_theorems result_simps \<open>inversion of sequenced results\<close>
named_theorems row_simps \<open>reading a table after writing it\<close>
named_theorems tx_defs \<open>definitions of the elementary session operations\<close>

subsection \<open>Exceptions and results\<close>

text \<open>
  The exceptions the modelled code raises or lets through: the application's own
  \<open>AppError\<close> (core/errors.py) and the Python and SQLAlchemy exceptions its statements can
  raise on the modelled paths.
\<close>

datatype exn =
    AppError (message: string) (code: string) (status_code: nat)
  | ValueError string
  | KeyError string
  | TypeError string
  | AttributeError string
  | RuntimeError string
  | ResponseError string
  | MultipleResultsFound
  | NotImplementedError string
  | IntegrityError string
  | RpcError string string
  | RequestValidationError string
  | OtherError string

type_synonym uuid = "128 word"
type_synonym time = int
type_synonym 'a result = "exn + 'a"

text \<open>\<open>AppError(message, code=...)\<close> has the default status 400.\<close>

definition app_error :: "string \<Rightarrow> string \<Rightarrow> exn" where
  "app_error msg c = AppError msg c 400"

definition rbind :: "'a result \<Rightarrow> ('a \<Rightarrow> 'b result) \<Rightarrow> 'b result" where
  "rbind m f = (case m of Inl e \<Rightarrow> Inl e | Inr x \<Rightarrow> f x)"

lemma rbind_Inl [simp]: "rbind (Inl e) f = Inl e"
  by (simp add: rbind_def)

lemma rbind_Inr [simp]: "rbind (Inr x) f = f x"
  by (simp add: rbind_def)

lemma rbind_eq_Inr [result_simps]:
  "rbind m f = Inr y \<longleftrightarrow> (\<exists>x. m = Inr x \<and> f x = Inr y)"
  by (cases m) auto

lemma rbind_eq_Inl [result_simps]:
  "rbind m f = Inl e \<longleftrightarrow> m = Inl e \<or> (\<exists>x. m = Inr x \<and> f x = Inl e)"
  by (cases m) auto

lemma rbind_cong [fundef_cong]:
  "m = m' \<Longrightarrow> (\<And>x. m' = Inr x \<Longrightarrow> f x = g x) \<Longrightarrow> rbind m f = rbind m' g"
  by (cases m') auto

text \<open>A \<open>for\<close> loop whose body may raise: the first exception ends it.\<close>

fun rfold :: "('a \<Rightarrow> 's \<Rightarrow> 's result) \<Rightarrow> 'a list \<Rightarrow> 's \<Rightarrow> 's result" where
  "rfold f [] s = Inr s"
| "rfold f (x # xs) s = rbind (f x s) (rfold f xs)"

lemma rfold_append: "rfold f (xs @ ys) s = rbind (rfold f xs s) (rfold f ys)"
  by (induction xs arbitrary: s) (auto simp: rbind_def split: sum.splits)

text \<open>The invariant rule of that loop.\<close>

lemma rfold_invariant:
  assumes "rfold f xs s = Inr t" and "P s"
    and "\<And>x a b. x \<in> set xs \<Longrightarrow> P a \<Longrightarrow> f x a = Inr b \<Longrightarrow> P b"
  shows "P t"
  using assms
proof (induction xs arbitrary: s)
  case Nil
  then show ?case by simp
next
  case (Cons x xs)
  from Cons.prems(1) obtain u where u: "f x s = Inr u" "rfold f xs u = Inr t"
    by (auto simp: rbind_eq_Inr)
  have "P u" using Cons.prems(2,3) u(1) by auto
  with u(2) Cons.prems(3) show ?case by (intro Cons.IH [of u]) auto
qed

text \<open>\<open>s.split(sep)\<close> for one separating character.\<close>

fun split_char :: "char \<Rightarrow> string \<Rightarrow> string list" where
  "split_char sep [] = [[]]"
| "split_char sep (c # cs) =
     (if c = sep then [] # split_char sep cs
      else case split_char sep cs of [] \<Rightarrow> [[c]] | p # ps \<Rightarrow> (c # p) # ps)"

subsection \<open>Rows and queries\<close>

definition row_get :: "('r \<Rightarrow> 'k) \<Rightarrow> 'k \<Rightarrow> 'r list \<Rightarrow> 'r option" where
  "row_get key k rs = find (\<lambda>r. key r = k) rs"

definition row_modify :: "('r \<Rightarrow> 'k) \<Rightarrow> 'k \<Rightarrow> ('r \<Rightarrow> 'r) \<Rightarrow> 'r list \<Rightarrow> 'r list" where
  "row_modify key k f rs = map (\<lambda>r. if key r = k then f r else r) rs"

text \<open>SQLAlchemy's \<open>Result.scalar_one_or_none()\<close>: two or more rows are an error.\<close>

fun scalar_one_or_none :: "'r list \<Rightarrow> 'r option result" where
  "scalar_one_or_none [] = Inr None"
| "scalar_one_or_none [r] = Inr (Some r)"
| "scalar_one_or_none (r # r' # rs) = Inl MultipleResultsFound"

text \<open>\<open>Result.first()\<close>: the first row, if any.\<close>

definition first_row :: "'r list \<Rightarrow> 'r option" where
  "first_row rs = (case rs of [] \<Rightarrow> None | r # _ \<Rightarrow> Some r)"

text \<open>\<open>ORDER BY column DESC NULLS LAST\<close>, rows with equal keys in their stored order; a page of it.\<close>

definition order_desc_nullslast :: "('r \<Rightarrow> time option) \<Rightarrow> 'r list \<Rightarrow> 'r list" where
  "order_desc_nullslast column rs =
     sort_key (\<lambda>r. - the (column r)) (filter (\<lambda>r. column r \<noteq> None) rs) @
     filter (\<lambda>r. column r = None) rs"

definition page :: "nat \<Rightarrow> nat \<Rightarrow> 'r list \<Rightarrow> 'r list" where
  "page limit offset rs = take limit (drop offset rs)"

lemma set_order_desc_nullslast [simp]: "set (order_desc_nullslast column rs) = set rs"
  by (auto simp: order_desc_nullslast_def)

lemma set_page_subset: "set (page limit offset rs) \<subseteq> set rs"
  unfolding page_def by (meson dual_order.trans set_drop_subset set_take_subset)

lemma length_page: "length (page limit offset rs) \<le> limit"
  by (simp add: page_def)

lemma row_get_Some [row_simps]: "row_get key k rs = Some r \<Longrightarrow> r \<in> set rs \<and> key r = k"
  unfolding row_get_def by (induction rs) (auto split: if_splits)

lemma row_get_None_iff: "row_get key k rs = None \<longleftrightarrow> k \<notin> key ` set rs"
  unfolding row_get_def by (auto simp: find_None_iff)

lemma row_get_distinct:
  "distinct (map key rs) \<Longrightarrow> r \<in> set rs \<Longrightarrow> row_get key (key r) rs = Some r"
  unfolding row_get_def by (induction rs) auto

lemma row_get_append:
  "row_get key k (rs @ ss) = (case row_get key k rs of None \<Rightarrow> row_get key k ss | Some r \<Rightarrow> Some r)"
  unfolding row_get_def by (induction rs) auto

lemma row_get_modify [row_simps]:
  assumes "\<And>r. key (f r) = key r"
  shows "row_get key j (row_modify key k f rs) =
    (if j = k then map_option f (row_get key j rs) else row_get key j rs)"
  using assms unfolding row_get_def row_modify_def by (induction rs) auto

lemma map_row_modify:
  assumes "\<And>r. g (f r) = g r"
  shows "map g (row_modify key k f rs) = map g rs"
  using assms by (simp add: row_modify_def)

lemma length_row_modify [simp]: "length (row_modify key k f rs) = length rs"
  by (simp add: row_modify_def)

lemma in_set_row_modify:
  "r \<in> set (row_modify key k f rs) \<longleftrightarrow>
     (\<exists>q \<in> set rs. r = (if key q = k then f q else q))"
  unfolding row_modify_def by (simp only: set_map image_iff)

lemma row_modify_Nil [simp]: "row_modify key k f [] = []"
  by (simp add: row_modify_def)

lemma row_modify_Cons [simp]:
  "row_modify key k f (r # rs) = (if key r = k then f r else r) # row_modify key k f rs"
  by (simp add: row_modify_def)

lemma row_modify_append [simp]:
  "row_modify key k f (rs @ ss) = row_modify key k f rs @ row_modify key k f ss"
  by (simp add: row_modify_def)

lemma filter_row_modify:
  "(\<And>r. P (f r) = P r) \<Longrightarrow> filter P (row_modify key k f rs) = row_modify key k f (filter P rs)"
  by (induction rs) auto

lemma row_modify_none: "k \<notin> key ` set rs \<Longrightarrow> row_modify key k f rs = rs"
  by (induction rs) auto

lemma row_get_Nil [simp]: "row_get key k [] = None"
  by (simp add: row_get_def)

lemma row_get_Cons [simp]:
  "row_get key k (r # rs) = (if key r = k then Some r else row_get key k rs)"
  by (simp add: row_get_def)

text \<open>On a table with unique keys, selecting by key is looking the key up.\<close>

lemma filter_key_distinct:
  "distinct (map key rs) \<Longrightarrow>
   filter (\<lambda>r. key r = k) rs = (case row_get key k rs of None \<Rightarrow> [] | Some r \<Rightarrow> [r])"
proof (induction rs)
  case (Cons r rs)
  have "key r = k \<Longrightarrow> filter (\<lambda>r. key r = k) rs = []"
    using Cons.prems by (auto simp: filter_empty_conv image_iff)
  with Cons show ?case by auto
qed simp

lemma scalar_one_or_none_key:
  "distinct (map key rs) \<Longrightarrow>
   scalar_one_or_none (filter (\<lambda>r. key r = k) rs) = Inr (row_get key k rs)"
  by (simp add: filter_key_distinct split: option.split)

lemma scalar_one_or_none_Inr:
  "scalar_one_or_none rs = Inr (Some r) \<longleftrightarrow> rs = [r]"
  by (cases rs rule: scalar_one_or_none.cases) auto

lemma first_row_in: "first_row rs = Some r \<Longrightarrow> r \<in> set rs"
  by (auto simp: first_row_def split: list.splits)

lemma filter_singletonD: "filter P xs = [x] \<Longrightarrow> x \<in> set xs \<and> P x"
  by (metis filter_set list.set_intros(1) mem_Collect_eq set_filter)

lemma scalar_one_or_none_None [simp]:
  "scalar_one_or_none rs = Inr None \<longleftrightarrow> rs = []"
  by (cases rs rule: scalar_one_or_none.cases) auto

subsection \<open>Dictionaries\<close>

lemma dict_update_new: "k \<notin> fst ` set d \<Longrightarrow> AList.update k v d = d @ [(k, v)]"
  by (induction d) auto

lemma dict_update_keys: "k \<in> fst ` set d \<Longrightarrow> map fst (AList.update k v d) = map fst d"
  by (simp add: update_keys)

lemma dict_key_Some: "k \<in> fst ` set d \<Longrightarrow> \<exists>v. map_of d k = Some v"
  by (metis map_of_eq_None_iff not_None_eq)

lemma dict_Some_key: "map_of d k = Some v \<Longrightarrow> k \<in> fst ` set d"
  by (metis map_of_eq_None_iff option.distinct(1))

text \<open>A dictionary is determined by its keys in order and the value of each.\<close>

lemma dict_determined:
  assumes "distinct (map fst d)" and "\<And>k. k \<in> fst ` set d \<Longrightarrow> map_of d k = Some (f k)"
  shows "d = map (\<lambda>k. (k, f k)) (map fst d)"
  using assms
proof (induction d)
  case (Cons kv d)
  have "snd kv = f (fst kv)" using Cons.prems(2) [of "fst kv"] by simp
  moreover have "d = map (\<lambda>k. (k, f k)) (map fst d)"
  proof (rule Cons.IH)
    show "distinct (map fst d)" using Cons.prems(1) by simp
    show "map_of d k = Some (f k)" if "k \<in> fst ` set d" for k
      using Cons.prems(1) Cons.prems(2) [of k] that by (auto split: if_splits)
  qed
  ultimately show ?case by (simp add: prod_eq_iff)
qed simp

subsection \<open>Strings\<close>

text \<open>
  Python's \<open>str\<close> as a list of characters. \<open>quoted s\<close> is the \<open>'{s}'\<close> of the f-strings.
\<close>

definition quoted :: "string \<Rightarrow> string" where
  "quoted s = [CHR 0x27] @ s @ [CHR 0x27]"

text \<open>\<open>str(exc)\<close> of an exception.\<close>

fun exn_str :: "exn \<Rightarrow> string" where
  "exn_str (AppError m c st) = m"
| "exn_str (ValueError m) = m"
| "exn_str (KeyError k) = quoted k"
| "exn_str (TypeError m) = m"
| "exn_str (AttributeError m) = m"
| "exn_str (RuntimeError m) = m"
| "exn_str (ResponseError m) = m"
| "exn_str MultipleResultsFound = ''Multiple rows were found when one or none was required''"
| "exn_str (NotImplementedError m) = m"
| "exn_str (IntegrityError m) = m"
| "exn_str (RpcError c m) = m"
| "exn_str (RequestValidationError m) = m"
| "exn_str (OtherError m) = m"

definition starts_with :: "string \<Rightarrow> string \<Rightarrow> bool" where
  "starts_with p s \<longleftrightarrow> take (length p) s = p"

text \<open>\<open>p in s\<close>: \<open>p\<close> occurs in \<open>s\<close> as a substring.\<close>

fun occurs :: "string \<Rightarrow> string \<Rightarrow> bool" where
  "occurs p [] = (p = [])"
| "occurs p (c # cs) = (starts_with p (c # cs) \<or> occurs p cs)"

lemma occurs_iff: "occurs p s \<longleftrightarrow> (\<exists>a b. s = a @ p @ b)"
proof (induction s)
  case (Cons c cs)
  have "starts_with p (c # cs) \<longleftrightarrow> (\<exists>b. c # cs = p @ b)"
    unfolding starts_with_def by (metis append_eq_conv_conj append_take_drop_id)
  then show ?case
    using Cons.IH by (auto simp: Cons_eq_append_conv)
qed simp

end
