(* ===== verification/Json.thy ===== *)
theory Json
  imports Prelude Complex_Main
begin

section \<open>JSON values and Python's comparisons on them\<close>

text \<open>
  The values of JSONB columns and of \<open>dict[str, Any]\<close> fields. A finite float is the rational
  it denotes; the other floats are kept apart because Python's \<open>json\<close> reads and writes them.
  \<open>py_eq\<close> and \<open>py_less\<close> are Python's \<open>==\<close> and \<open><\<close> on these values: booleans, integers
  and floats compare by their exact numeric value, and an order between other kinds raises
  \<open>TypeError\<close>.
\<close>

datatype pyfloat = Finite rat | PosInf | NegInf | NaN

datatype json =
    JNull
  | JBool bool
  | JInt int
  | JFloat pyfloat
  | JStr string
  | JArr "json list"
  | JObj "(string \<times> json) list"

type_synonym jdict = "(string \<times> json) list"

text \<open>\<open>bool(value)\<close>: the truth value Python gives a JSON value.\<close>

fun truthy :: "json \<Rightarrow> bool" where
  "truthy JNull = False"
| "truthy (JBool b) = b"
| "truthy (JInt i) = (i \<noteq> 0)"
| "truthy (JFloat f) = (f \<noteq> Finite 0)"
| "truthy (JStr s) = (s \<noteq> [])"
| "truthy (JArr xs) = (xs \<noteq> [])"
| "truthy (JObj kvs) = (kvs \<noteq> [])"

text \<open>\<open>d.get(k)\<close>: \<open>None\<close> (here \<open>JNull\<close>) when the key is missing.\<close>

definition dict_get :: "jdict \<Rightarrow> string \<Rightarrow> json" where
  "dict_get d k = (case map_of d k of None \<Rightarrow> JNull | Some v \<Rightarrow> v)"

definition jopt_str :: "string option \<Rightarrow> json" where
  "jopt_str v = (case v of None \<Rightarrow> JNull | Some s \<Rightarrow> JStr s)"

text \<open>The number a JSON value is in arithmetic comparisons (\<open>bool\<close> is a subclass of \<open>int\<close>).\<close>

fun num_val :: "json \<Rightarrow> pyfloat option" where
  "num_val (JBool b) = Some (Finite (if b then 1 else 0))"
| "num_val (JInt i) = Some (Finite (of_int i))"
| "num_val (JFloat f) = Some f"
| "num_val _ = None"

fun float_eq :: "pyfloat \<Rightarrow> pyfloat \<Rightarrow> bool" where
  "float_eq NaN _ = False"
| "float_eq _ NaN = False"
| "float_eq x y = (x = y)"

fun float_less :: "pyfloat \<Rightarrow> pyfloat \<Rightarrow> bool" where
  "float_less NaN _ = False"
| "float_less _ NaN = False"
| "float_less (Finite x) (Finite y) = (x < y)"
| "float_less NegInf y = (y \<noteq> NegInf)"
| "float_less _ PosInf = True"
| "float_less _ _ = False"

fun py_eq :: "json \<Rightarrow> json \<Rightarrow> bool"
and py_eq_list :: "json list \<Rightarrow> json list \<Rightarrow> bool"
and py_eq_items :: "(string \<times> json) list \<Rightarrow> (string \<times> json) list \<Rightarrow> bool" where
  "py_eq JNull v = (v = JNull)"
| "py_eq (JStr s) v = (v = JStr s)"
| "py_eq (JArr xs) v = (case v of JArr ys \<Rightarrow> py_eq_list xs ys | _ \<Rightarrow> False)"
| "py_eq (JObj d) v = (case v of JObj e \<Rightarrow> length d = length e \<and> py_eq_items d e | _ \<Rightarrow> False)"
| "py_eq (JBool b) v = (case num_val v of None \<Rightarrow> False | Some y \<Rightarrow> float_eq (Finite (if b then 1 else 0)) y)"
| "py_eq (JInt i) v = (case num_val v of None \<Rightarrow> False | Some y \<Rightarrow> float_eq (Finite (of_int i)) y)"
| "py_eq (JFloat f) v = (case num_val v of None \<Rightarrow> False | Some y \<Rightarrow> float_eq f y)"
| "py_eq_list [] ys = (ys = [])"
| "py_eq_list (x # xs) ys = (case ys of [] \<Rightarrow> False | y # ys' \<Rightarrow> py_eq x y \<and> py_eq_list xs ys')"
| "py_eq_items [] e = True"
| "py_eq_items (kv # d) e =
     ((case map_of e (fst kv) of None \<Rightarrow> False | Some w \<Rightarrow> py_eq (snd kv) w) \<and> py_eq_items d e)"

text \<open>Strings compare by code points, lists lexicographically at their first difference.\<close>

fun str_less :: "string \<Rightarrow> string \<Rightarrow> bool" where
  "str_less _ [] = False"
| "str_less [] (_ # _) = True"
| "str_less (a # as) (b # bs) =
     (if of_char a < (of_char b :: nat) then True
      else if a = b then str_less as bs else False)"

fun py_less :: "json \<Rightarrow> json \<Rightarrow> bool result"
and py_less_list :: "json list \<Rightarrow> json list \<Rightarrow> bool result" where
  "py_less (JArr xs) v = (case v of JArr ys \<Rightarrow> py_less_list xs ys
     | _ \<Rightarrow> Inl (TypeError ''unorderable''))"
| "py_less (JStr s) v = (case v of JStr t \<Rightarrow> Inr (str_less s t)
     | _ \<Rightarrow> Inl (TypeError ''unorderable''))"
| "py_less u v = (case (num_val u, num_val v) of
       (Some x, Some y) \<Rightarrow> Inr (float_less x y)
     | _ \<Rightarrow> Inl (TypeError ''unorderable''))"
| "py_less_list xs [] = Inr False"
| "py_less_list [] (_ # _) = Inr True"
| "py_less_list (x # xs) (y # ys) =
     (if py_eq x y then py_less_list xs ys else py_less x y)"

text \<open>A value that can be an element of a Python set: lists and dictionaries cannot.\<close>

fun hashable :: "json \<Rightarrow> bool" where
  "hashable (JArr _) = False"
| "hashable (JObj _) = False"
| "hashable _ = True"

lemma py_eq_str [simp]: "py_eq (JStr s) v \<longleftrightarrow> v = JStr s"
  by simp

lemma dict_get_simps [simp]:
  "dict_get [] k = JNull"
  "dict_get ((k', v) # d) k = (if k' = k then v else dict_get d k)"
  by (simp_all add: dict_get_def)

lemma str_less_irrefl: "\<not> str_less s s"
  by (induction s) auto

lemma str_less_trans: "str_less s t \<Longrightarrow> str_less t u \<Longrightarrow> str_less s u"
proof (induction s t arbitrary: u rule: str_less.induct)
  case (3 a as b bs)
  then show ?case by (cases u) (auto split: if_splits)
qed (auto elim: str_less.elims)

lemma str_less_total: "s \<noteq> t \<Longrightarrow> str_less s t \<or> str_less t s"
proof (induction s t rule: str_less.induct)
  case (1 s)
  then show ?case by (cases s) auto
next
  case (3 a as b bs)
  have "a \<noteq> b \<Longrightarrow> of_char a < (of_char b :: nat) \<or> of_char b < (of_char a :: nat)"
    by (metis linorder_neqE_nat of_char_eq_iff)
  with 3 show ?case by auto
qed auto

end
