(* ===== verification/Schemas.thy ===== *)
theory Schemas
  imports Json
begin

section \<open>Schemas: workflow definitions and retry policies\<close>

text \<open>
  The pydantic models of \<open>app/schemas/workflow.py\<close> that the engine works on, with the field
  constraints as the boolean predicates \<open>valid_RetryPolicy\<close>, \<open>valid_Node\<close> and
  \<open>valid_WorkflowDefinition\<close> (what \<open>model_validate\<close> accepts), and the resolution of a node's
  retry policy (\<open>app/services/retry_policy.py\<close>).
\<close>

record RetryPolicy =
  max_attempts :: int
  initial_interval :: int
  max_interval :: int
  backoff_multiplier :: rat

record Node =
  n_id :: string
  n_type :: string
  n_name :: string
  n_config :: jdict
  n_retry_policy :: "RetryPolicy option"

record Edge =
  from_node :: string
  to_node :: string
  e_condition :: "string option"

record WorkflowDefinition =
  d_name :: string
  d_description :: string
  nodes :: "Node list"
  edges :: "Edge list"
  default_retry_policy :: "RetryPolicy option"

definition valid_RetryPolicy :: "RetryPolicy \<Rightarrow> bool" where
  "valid_RetryPolicy p \<longleftrightarrow>
     1 \<le> max_attempts p \<and> max_attempts p \<le> 10 \<and> 1 \<le> initial_interval p \<and>
     1 \<le> max_interval p \<and> 1 \<le> backoff_multiplier p"

definition valid_Node :: "Node \<Rightarrow> bool" where
  "valid_Node n \<longleftrightarrow> n_id n \<noteq> [] \<and> n_type n \<noteq> [] \<and>
     (case n_retry_policy n of None \<Rightarrow> True | Some p \<Rightarrow> valid_RetryPolicy p)"

definition valid_WorkflowDefinition :: "WorkflowDefinition \<Rightarrow> bool" where
  "valid_WorkflowDefinition d \<longleftrightarrow> d_name d \<noteq> [] \<and> list_all valid_Node (nodes d) \<and>
     (case default_retry_policy d of None \<Rightarrow> True | Some p \<Rightarrow> valid_RetryPolicy p)"

text \<open>\<open>RetryPolicy()\<close> with every field at its default.\<close>

definition DEFAULT_RETRY_POLICY :: RetryPolicy where
  "DEFAULT_RETRY_POLICY =
     \<lparr>max_attempts = 3, initial_interval = 1, max_interval = 3600, backoff_multiplier = 2\<rparr>"

definition resolve_retry_policy :: "Node \<Rightarrow> WorkflowDefinition \<Rightarrow> RetryPolicy" where
  "resolve_retry_policy node d =
     (case n_retry_policy node of
        Some p \<Rightarrow> p
      | None \<Rightarrow>
          (case default_retry_policy d of
             Some p \<Rightarrow> p
           | None \<Rightarrow> DEFAULT_RETRY_POLICY))"

text \<open>The node ids of a definition and the two list comprehensions over its edges.\<close>

definition node_ids :: "WorkflowDefinition \<Rightarrow> string list" where
  "node_ids d = map n_id (nodes d)"

definition child_ids :: "WorkflowDefinition \<Rightarrow> string \<Rightarrow> string list" where
  "child_ids d n = map to_node (filter (\<lambda>e. from_node e = n) (edges d))"

definition parent_ids :: "WorkflowDefinition \<Rightarrow> string \<Rightarrow> string list" where
  "parent_ids d n = map from_node (filter (\<lambda>e. to_node e = n) (edges d))"

lemma in_child_ids: "c \<in> set (child_ids d n) \<longleftrightarrow> (\<exists>e \<in> set (edges d). from_node e = n \<and> to_node e = c)"
  by (auto simp: child_ids_def)

lemma in_parent_ids: "p \<in> set (parent_ids d n) \<longleftrightarrow> (\<exists>e \<in> set (edges d). from_node e = p \<and> to_node e = n)"
  by (auto simp: parent_ids_def)

lemma child_parent: "c \<in> set (child_ids d p) \<longleftrightarrow> p \<in> set (parent_ids d c)"
  by (auto simp: in_child_ids in_parent_ids)

lemma valid_resolved_policy:
  assumes "valid_WorkflowDefinition d" and "n \<in> set (nodes d)"
  shows "valid_RetryPolicy (resolve_retry_policy n d)"
proof -
  have "valid_Node n" using assms by (auto simp: valid_WorkflowDefinition_def list_all_iff)
  with assms(1) show ?thesis
    by (auto simp: valid_WorkflowDefinition_def valid_Node_def resolve_retry_policy_def
        valid_RetryPolicy_def DEFAULT_RETRY_POLICY_def split: option.splits)
qed

end
