(* ===== verification/Models.thy ===== *)
theory Models
  imports Schemas
begin

section \<open>Models: enumerations, rows, and the database\<close>

text \<open>
  The tables of \<open>app/models\<close>: the enumerations of enums.py, one record per mapped class, and
  the database as one record of tables. A column \<open>Mapped[T | None]\<close> is an option, an
  \<open>Integer\<close> an \<open>int\<close>, a timestamp an \<open>int\<close> (microseconds), a \<open>uuid.UUID\<close> its 128-bit
  integer. The JSONB column \<open>WorkflowVersion.definition\<close> is only ever written from and read
  back into the schema \<open>WorkflowDefinition\<close>, so the row holds that record. Rows keep their
  insertion order. The interface \<open>row_table\<close> states what a table of the database promises to
  its clients (reading after writing, which other tables are untouched is a record fact); it is
  interpreted for every table a service updates in place.
\<close>

subsection \<open>Enumerations\<close>

datatype ExecutionStatus =
    X_CREATED | X_RUNNING | X_SUCCEEDED | X_FAILED | X_PARTIAL_FAILED | X_CANCELLED

datatype NodeExecutionStatus =
    PENDING | QUEUED | RUNNING | SUCCEEDED | FAILED | RETRYING | SKIPPED | DEAD_LETTERED

datatype WorkerStatus = W_STARTING | W_IDLE | W_BUSY | W_STOPPING | W_OFFLINE

datatype LogLevel = DEBUG | INFO | WARNING | ERROR

text \<open>\<open>status.name\<close> of the string enumerations, as it goes into messages and events.\<close>

fun execution_status_name :: "ExecutionStatus \<Rightarrow> string" where
  "execution_status_name X_CREATED = ''CREATED''"
| "execution_status_name X_RUNNING = ''RUNNING''"
| "execution_status_name X_SUCCEEDED = ''SUCCEEDED''"
| "execution_status_name X_FAILED = ''FAILED''"
| "execution_status_name X_PARTIAL_FAILED = ''PARTIAL_FAILED''"
| "execution_status_name X_CANCELLED = ''CANCELLED''"

fun node_status_name :: "NodeExecutionStatus \<Rightarrow> string" where
  "node_status_name PENDING = ''PENDING''"
| "node_status_name QUEUED = ''QUEUED''"
| "node_status_name RUNNING = ''RUNNING''"
| "node_status_name SUCCEEDED = ''SUCCEEDED''"
| "node_status_name FAILED = ''FAILED''"
| "node_status_name RETRYING = ''RETRYING''"
| "node_status_name SKIPPED = ''SKIPPED''"
| "node_status_name DEAD_LETTERED = ''DEAD_LETTERED''"

fun worker_status_value :: "WorkerStatus \<Rightarrow> string" where
  "worker_status_value W_STARTING = ''STARTING''"
| "worker_status_value W_IDLE = ''IDLE''"
| "worker_status_value W_BUSY = ''BUSY''"
| "worker_status_value W_STOPPING = ''STOPPING''"
| "worker_status_value W_OFFLINE = ''OFFLINE''"

fun log_level_value :: "LogLevel \<Rightarrow> string" where
  "log_level_value DEBUG = ''DEBUG''"
| "log_level_value INFO = ''INFO''"
| "log_level_value WARNING = ''WARNING''"
| "log_level_value ERROR = ''ERROR''"

text \<open>\<open>ExecutionStatus[name]\<close>: the member of that name, \<open>None\<close> for a \<open>KeyError\<close>.\<close>

definition execution_status_of_name :: "string \<Rightarrow> ExecutionStatus option" where
  "execution_status_of_name n = find (\<lambda>x. execution_status_name x = n)
     [X_CREATED, X_RUNNING, X_SUCCEEDED, X_FAILED, X_PARTIAL_FAILED, X_CANCELLED]"

subsection \<open>Rows\<close>

record APIKey =
  ak_id :: uuid
  ak_name :: string
  ak_key_hash :: string
  ak_is_active :: bool
  ak_last_used_at :: "time option"
  ak_created_at :: time

record RefreshToken =
  rt_id :: uuid
  rt_token_hash :: string
  rt_family_id :: uuid
  rt_is_valid :: bool
  rt_expires_at :: time
  rt_api_key_id :: uuid
  rt_created_at :: time

record Workflow =
  wf_id :: uuid
  wf_owner_api_key_id :: uuid
  wf_name :: string
  wf_description :: "string option"
  wf_created_at :: time
  wf_updated_at :: time

record WorkflowVersion =
  wv_id :: uuid
  wv_workflow_id :: uuid
  wv_version_number :: int
  wv_definition :: WorkflowDefinition
  wv_checksum :: string
  wv_created_at :: time

record Execution =
  ex_id :: uuid
  ex_workflow_id :: uuid
  ex_workflow_version_id :: uuid
  ex_status :: ExecutionStatus
  ex_started_at :: "time option"
  ex_finished_at :: "time option"
  ex_triggered_by :: "string option"
  ex_input_payload :: "jdict option"
  ex_error_message :: "string option"

record NodeExecution =
  ne_id :: uuid
  ne_execution_id :: uuid
  ne_node_id :: string
  ne_node_type :: string
  ne_status :: NodeExecutionStatus
  ne_attempt :: int
  ne_max_attempts :: int
  ne_input_payload :: "jdict option"
  ne_output_payload :: "jdict option"
  ne_error_message :: "string option"
  ne_idempotency_key :: "string option"
  ne_redis_message_id :: "string option"
  ne_worker_id :: "uuid option"
  ne_queued_at :: "time option"
  ne_started_at :: "time option"
  ne_finished_at :: "time option"

record DeadLetterJob =
  dj_id :: uuid
  dj_execution_id :: uuid
  dj_node_execution_id :: uuid
  dj_redis_message_id :: "string option"
  dj_reason :: string
  dj_attempts :: int
  dj_payload :: "jdict option"
  dj_resolved_at :: "time option"
  dj_resolution_note :: "string option"
  dj_created_at :: time

record ExecutionLog =
  lg_id :: uuid
  lg_execution_id :: uuid
  lg_node_execution_id :: "uuid option"
  lg_level :: LogLevel
  lg_event_type :: string
  lg_message :: string
  lg_metadata :: "jdict option"
  lg_created_at :: time

record Worker =
  wk_id :: uuid
  wk_worker_name :: string
  wk_status :: WorkerStatus
  wk_last_heartbeat_at :: "time option"
  wk_current_job_id :: "string option"
  wk_metadata :: "jdict option"
  wk_owner_api_key_id :: "uuid option"
  wk_created_at :: time
  wk_updated_at :: time

record database =
  api_keys :: "APIKey list"
  refresh_tokens :: "RefreshToken list"
  workflows :: "Workflow list"
  workflow_versions :: "WorkflowVersion list"
  executions :: "Execution list"
  node_executions :: "NodeExecution list"
  dead_letter_jobs :: "DeadLetterJob list"
  execution_logs :: "ExecutionLog list"
  workers :: "Worker list"

definition empty_database :: database where
  "empty_database = \<lparr>api_keys = [], refresh_tokens = [], workflows = [], workflow_versions = [],
     executions = [], node_executions = [], dead_letter_jobs = [], execution_logs = [], workers = []\<rparr>"

subsection \<open>The interface of a table\<close>

text \<open>
  A table of the database: its rows, how the list of rows is replaced, and the primary key.
  Assigning to attributes of a mapped object is \<open>modify\<close> of the row with that key, \<open>session.add\<close>
  is \<open>insert\<close>, \<open>session.get\<close> is \<open>get\<close>.
\<close>

locale row_table =
  fixes rows :: "'db \<Rightarrow> 'r list"
    and put :: "('r list \<Rightarrow> 'r list) \<Rightarrow> 'db \<Rightarrow> 'db"
    and key :: "'r \<Rightarrow> uuid"
  assumes rows_put: "rows (put f d) = f (rows d)"
    and put_put: "put f (put g d) = put (f \<circ> g) d"
begin

lemma get_modify:
  assumes "\<And>r. key (f r) = key r"
  shows "row_get key j (rows (put (row_modify key k f) d)) =
    (if j = k then map_option f (row_get key j (rows d)) else row_get key j (rows d))"
  using assms by (simp add: rows_put row_get_modify)

lemma get_insert_new:
  assumes "k \<notin> key ` set (rows d)" and "key r = k"
  shows "row_get key j (rows (put (\<lambda>rs. rs @ [r]) d)) =
    (if j = k then Some r else row_get key j (rows d))"
  using assms row_get_None_iff [of key k "rows d"]
  by (auto simp: rows_put row_get_append split: option.splits)

lemma keys_modify:
  assumes "\<And>r. key (f r) = key r"
  shows "map key (rows (put (row_modify key k f) d)) = map key (rows d)"
  using assms by (simp add: rows_put map_row_modify)

lemma distinct_insert:
  assumes "distinct (map key (rows d))" and "key r \<notin> key ` set (rows d)"
  shows "distinct (map key (rows (put (\<lambda>rs. rs @ [r]) d)))"
  using assms by (simp add: rows_put)

end

interpretation executions_table: row_table executions executions_update ex_id
  by unfold_locales simp_all

interpretation nodes_table: row_table node_executions node_executions_update ne_id
  by unfold_locales simp_all

interpretation dlq_table: row_table dead_letter_jobs dead_letter_jobs_update dj_id
  by unfold_locales simp_all

interpretation workers_table: row_table workers workers_update wk_id
  by unfold_locales simp_all

subsection \<open>Facts on enumerations\<close>

lemma execution_status_of_name_inverse:
  "execution_status_of_name (execution_status_name x) = Some x"
  by (cases x) (simp_all add: execution_status_of_name_def)

lemma node_status_name_inj: "node_status_name x = node_status_name y \<longleftrightarrow> x = y"
  by (cases x; cases y) simp_all

end
