(* ===== verification/Py_Text.thy ===== *)
theory Py_Text
  imports Prelude
begin

section \<open>Python text: integers and UUIDs as strings\<close>

text \<open>
  The parts of Python's \<open>str\<close>, \<open>int\<close> and \<open>uuid\<close> that the queue and the events use:
  \<open>str(n)\<close> and \<open>int(s)\<close>, \<open>str(u)\<close> and \<open>uuid.UUID(s)\<close>. \<open>int\<close> accepts surrounding white space,
  a sign, single underscores between digits and, in base 16, the prefix \<open>0x\<close>; \<open>UUID\<close> drops
  \<open>urn:\<close>, \<open>uuid:\<close>, braces and hyphens before it reads 32 digits. Characters are single code
  points below 256.
\<close>

subsection \<open>Writing\<close>

definition digit_chr :: "nat \<Rightarrow> char" where
  "digit_chr d = char_of (if d < 10 then 48 + d else 87 + d)"

fun dec_str :: "nat \<Rightarrow> string" where
  "dec_str n = (if n < 10 then [digit_chr n] else dec_str (n div 10) @ [digit_chr (n mod 10)])"

declare dec_str.simps [simp del]

definition int_str :: "int \<Rightarrow> string" where
  "int_str i = (if i < 0 then CHR ''-'' # dec_str (nat (- i)) else dec_str (nat i))"

text \<open>\<open>'%032x'\<close> and the hyphens of the canonical form.\<close>

fun hex_fixed :: "nat \<Rightarrow> nat \<Rightarrow> string" where
  "hex_fixed 0 n = []"
| "hex_fixed (Suc k) n = hex_fixed k (n div 16) @ [digit_chr (n mod 16)]"

definition uuid_str :: "uuid \<Rightarrow> string" where
  "uuid_str u =
     (let h = hex_fixed 32 (unat u) in
      take 8 h @ ''-'' @ take 4 (drop 8 h) @ ''-'' @ take 4 (drop 12 h) @ ''-'' @
      take 4 (drop 16 h) @ ''-'' @ drop 20 h)"

subsection \<open>Reading\<close>

definition digit_val :: "char \<Rightarrow> nat option" where
  "digit_val c =
     (let n = of_char c in
      if 48 \<le> n \<and> n \<le> 57 then Some (n - 48)
      else if 97 \<le> n \<and> n \<le> 122 then Some (n - 87)
      else if 65 \<le> n \<and> n \<le> 90 then Some (n - 55)
      else None)"

text \<open>Digits with single underscores between them; the flag is set where no underscore may follow.\<close>

fun digits_val :: "nat \<Rightarrow> nat \<Rightarrow> bool \<Rightarrow> string \<Rightarrow> nat option" where
  "digits_val b acc us [] = (if us then None else Some acc)"
| "digits_val b acc us (c # cs) =
     (if c = CHR ''_'' then (if us then None else digits_val b acc True cs)
      else
        (case digit_val c of
           None \<Rightarrow> None
         | Some v \<Rightarrow> if v < b then digits_val b (acc * b + v) False cs else None))"

definition is_space :: "char \<Rightarrow> bool" where
  "is_space c = (let n = of_char c :: nat in
     9 \<le> n \<and> n \<le> 13 \<or> 28 \<le> n \<and> n \<le> 32 \<or> n = 133 \<or> n = 160)"

definition strip_chars :: "(char \<Rightarrow> bool) \<Rightarrow> string \<Rightarrow> string" where
  "strip_chars P s = rev (dropWhile P (rev (dropWhile P s)))"

definition unsigned_val :: "nat \<Rightarrow> string \<Rightarrow> nat option" where
  "unsigned_val b s =
     (if b = 16 \<and> (starts_with ''0x'' s \<or> starts_with ''0X'' s)
      then (if drop 2 s = [] then None else digits_val b 0 False (drop 2 s))
      else digits_val b 0 True s)"

definition py_int :: "nat \<Rightarrow> string \<Rightarrow> int result" where
  "py_int b s =
     (case (case strip_chars is_space s of
              [] \<Rightarrow> None
            | c # cs \<Rightarrow>
                if c = CHR ''-'' then map_option (\<lambda>n. - int n) (unsigned_val b cs)
                else if c = CHR ''+'' then map_option int (unsigned_val b cs)
                else map_option int (unsigned_val b (c # cs))) of
        None \<Rightarrow> Inl (ValueError ''invalid literal for int()'')
      | Some i \<Rightarrow> Inr i)"

text \<open>\<open>s.replace(p, "")\<close>: occurrences are removed from left to right.\<close>

function remove_all :: "string \<Rightarrow> string \<Rightarrow> string" where
  "remove_all p [] = []"
| "remove_all p (c # cs) =
     (if p \<noteq> [] \<and> starts_with p (c # cs) then remove_all p (drop (length p) (c # cs))
      else c # remove_all p cs)"
  by pat_completeness auto
termination
  by (relation "measure (\<lambda>(p, s). length s)") auto

definition uuid_parse :: "string \<Rightarrow> uuid result" where
  "uuid_parse s =
     (let h0 = remove_all ''uuid:'' (remove_all ''urn:'' s);
          h = filter (\<lambda>c. c \<noteq> CHR ''-'') (strip_chars (\<lambda>c. c = CHR ''{'' \<or> c = CHR ''}'') h0)
      in if length h \<noteq> 32 then Inl (ValueError ''badly formed hexadecimal UUID string'')
         else rbind (py_int 16 h) (\<lambda>i.
           if 0 \<le> i \<and> i < 2 ^ 128 then Inr (word_of_int i)
           else Inl (ValueError ''int is out of range (need a 128-bit value)'')))"

subsection \<open>Round trips\<close>

lemma digit_chr_cases:
  assumes "d < 16"
  shows "digit_chr d \<in> set ''0123456789abcdef''" and "digit_val (digit_chr d) = Some d"
proof -
  have "list_all (\<lambda>d. digit_chr d \<in> set ''0123456789abcdef'' \<and> digit_val (digit_chr d) = Some d) [0..<16]"
    by code_simp
  then have "digit_chr d \<in> set ''0123456789abcdef'' \<and> digit_val (digit_chr d) = Some d"
    using assms by (simp only: list_all_iff set_upt atLeastLessThan_iff) simp
  then show "digit_chr d \<in> set ''0123456789abcdef''" and "digit_val (digit_chr d) = Some d"
    by blast+
qed

lemmas digit_val_chr = digit_chr_cases(2)

lemma digit_chr_not_us: "d < 16 \<Longrightarrow> digit_chr d \<noteq> CHR ''_''"
  using digit_chr_cases(1) [of d] by auto

lemma hex_fixed_chars: "set (hex_fixed k n) \<subseteq> set ''0123456789abcdef''"
proof (induction k arbitrary: n)
  case (Suc k)
  have "digit_chr (n mod 16) \<in> set ''0123456789abcdef''" by (rule digit_chr_cases) simp
  with Suc [of "n div 16"] show ?case by simp
qed simp

lemma length_hex_fixed [simp]: "length (hex_fixed k n) = k"
  by (induction k arbitrary: n) simp_all

lemma digits_val_hex:
  "digits_val 16 acc us (hex_fixed k n @ rest) =
     digits_val 16 (acc * 16 ^ k + n mod 16 ^ k) (if k = 0 then us else False) rest"
proof (induction k arbitrary: n rest)
  case (Suc k)
  have m: "n mod 16 < (16::nat)" by simp
  have "(acc * 16 ^ k + n div 16 mod 16 ^ k) * 16 + n mod 16 = acc * 16 ^ Suc k + n mod 16 ^ Suc k"
    using mod_mult2_eq [of n 16 "16 ^ k"] by (simp add: algebra_simps)
  moreover have "digits_val 16 acc us (hex_fixed (Suc k) n @ rest) =
      digits_val 16 ((acc * 16 ^ k + n div 16 mod 16 ^ k) * 16 + n mod 16) False rest"
    by (simp add: Suc digit_val_chr [OF m] digit_chr_not_us [OF m])
  ultimately show ?case by (simp only: nat.distinct if_False)
qed simp

lemma digits_val_dec:
  "digits_val 10 0 us (dec_str n @ rest) = digits_val 10 n False rest"
proof (induction n arbitrary: rest rule: dec_str.induct)
  case (1 n)
  show ?case
  proof (cases "n < 10")
    case True
    then show ?thesis by (simp add: dec_str.simps [of n] digit_val_chr digit_chr_not_us)
  next
    case False
    have m: "n mod 10 < (16::nat)" by (rule less_trans [of _ 10]) simp_all
    from False show ?thesis
      by (simp add: dec_str.simps [of n] 1 digit_val_chr [OF m] digit_chr_not_us [OF m])
  qed
qed

lemma dec_str_chars: "set (dec_str n) \<subseteq> set ''0123456789abcdef'' \<and> dec_str n \<noteq> []"
proof (induction n rule: dec_str.induct)
  case (1 n)
  have "digit_chr d \<in> set ''0123456789abcdef''" if "d < 10" for d
    using that by (intro digit_chr_cases) simp
  with 1 show ?case by (cases "n < 10") (simp_all add: dec_str.simps [of n])
qed

lemma strip_none:
  assumes "\<And>c. c \<in> set s \<Longrightarrow> \<not> P c"
  shows "strip_chars P s = s"
proof -
  have "dropWhile P s = s" using assms by (cases s) auto
  moreover have "dropWhile P (rev s) = rev s"
    using assms by (cases "rev s") (auto dest: arg_cong [of _ _ set])
  ultimately show ?thesis by (simp add: strip_chars_def)
qed

lemma remove_all_none: "c \<notin> set s \<Longrightarrow> remove_all (c # p) s = s"
  by (induction s) (auto simp: starts_with_def)

text \<open>A string of plain digits is read without white space, sign or prefix.\<close>

lemma py_int_plain:
  assumes "set s \<subseteq> set ''0123456789abcdef''" and "s \<noteq> []"
  shows "py_int b s =
    (case digits_val b 0 True s of None \<Rightarrow> Inl (ValueError ''invalid literal for int()'') | Some n \<Rightarrow> Inr (int n))"
proof -
  obtain c cs where s: "s = c # cs" using assms(2) by (cases s) auto
  have ok: "list_all (\<lambda>c. \<not> is_space c \<and> c \<noteq> CHR ''-'' \<and> c \<noteq> CHR ''+'' \<and> c \<noteq> CHR ''x'' \<and> c \<noteq> CHR ''X'')
      ''0123456789abcdef''" by code_simp
  then have ch: "\<not> is_space x \<and> x \<noteq> CHR ''-'' \<and> x \<noteq> CHR ''+'' \<and> x \<noteq> CHR ''x'' \<and> x \<noteq> CHR ''X''"
    if "x \<in> set s" for x
    using that assms(1) unfolding list_all_iff by blast
  have "strip_chars is_space s = s" using ch by (intro strip_none) blast
  moreover have "\<not> starts_with ''0x'' s" "\<not> starts_with ''0X'' s"
    using ch s by (cases cs; auto simp: starts_with_def)+
  ultimately show ?thesis
    using ch [of c] s by (simp add: py_int_def unsigned_val_def split: option.split)
qed

lemma py_int_str: "py_int 10 (int_str i) = Inr i"
proof -
  have val: "digits_val 10 0 True (dec_str n) = Some n" for n
    using digits_val_dec [of True n "[]"] by simp
  show ?thesis
  proof (cases "i < 0")
    case False
    then show ?thesis
      using val dec_str_chars [of "nat i"] py_int_plain [of "dec_str (nat i)" 10]
      by (simp add: int_str_def)
  next
    case True
    let ?s = "dec_str (nat (- i))"
    have "list_all (\<lambda>c. \<not> is_space c) ''-0123456789abcdef''" by code_simp
    then have "\<not> is_space c" if "c \<in> set (CHR ''-'' # ?s)" for c
      using that dec_str_chars [of "nat (- i)"] unfolding list_all_iff by auto
    then have "strip_chars is_space (CHR ''-'' # ?s) = CHR ''-'' # ?s" by (intro strip_none) blast
    with True show ?thesis by (simp add: py_int_def int_str_def unsigned_val_def val)
  qed
qed

lemma uuid_str_hyphens: "filter (\<lambda>c. c \<noteq> CHR ''-'') (uuid_str u) = hex_fixed 32 (unat u)"
proof -
  let ?h = "hex_fixed 32 (unat u)"
  have keep: "filter (\<lambda>c. c \<noteq> CHR ''-'') xs = xs" if "set xs \<subseteq> set ?h" for xs
    using that hex_fixed_chars [of 32 "unat u"] by (intro filter_True) auto
  have part: "take 4 (drop k ?h) @ drop (k + 4) ?h = drop k ?h" for k
    using append_take_drop_id [of 4 "drop k ?h"] by (simp add: add.commute)
  have "filter (\<lambda>c. c \<noteq> CHR ''-'') (uuid_str u) =
      take 8 ?h @ take 4 (drop 8 ?h) @ take 4 (drop 12 ?h) @ take 4 (drop 16 ?h) @ drop 20 ?h"
    unfolding uuid_str_def Let_def
    by (simp add: keep set_take_subset set_drop_subset subset_trans [OF set_take_subset set_drop_subset])
  also have "\<dots> = ?h" using part [of 8] part [of 12] part [of 16] by simp
  finally show ?thesis .
qed

lemma uuid_str_chars: "set (uuid_str u) \<subseteq> insert (CHR ''-'') (set ''0123456789abcdef'')"
proof -
  have "set (filter (\<lambda>c. c \<noteq> CHR ''-'') (uuid_str u)) \<subseteq> set ''0123456789abcdef''"
    unfolding uuid_str_hyphens by (rule hex_fixed_chars)
  then show ?thesis unfolding set_filter by blast
qed

lemma uuid_parse_str: "uuid_parse (uuid_str u) = Inr u"
proof -
  let ?h = "hex_fixed 32 (unat u)"
  have no: "CHR ''u'' \<notin> set (uuid_str u)" "CHR ''{'' \<notin> set (uuid_str u)" "CHR ''}'' \<notin> set (uuid_str u)"
    using uuid_str_chars [of u] by auto
  have lt: "unat u < 2 ^ LENGTH(128)" by (rule unsigned_less)
  then have "unat u < 16 ^ 32" by simp
  then have "digits_val 16 0 True ?h = Some (unat u)"
    using digits_val_hex [of 0 True 32 "unat u" "[]"] by simp
  moreover have "?h \<noteq> []" by (metis length_hex_fixed list.size(3) zero_neq_numeral)
  ultimately have "py_int 16 ?h = Inr (int (unat u))"
    using py_int_plain [of ?h 16] hex_fixed_chars by simp
  moreover have "int (unat u) < 2 ^ 128"
  proof -
    have "uint u < 2 ^ LENGTH(128)" by (rule unsigned_less)
    then show ?thesis by simp
  qed
  moreover have "strip_chars (\<lambda>c. c = CHR ''{'' \<or> c = CHR ''}'') (uuid_str u) = uuid_str u"
    using no by (intro strip_none) auto
  ultimately show ?thesis
    using no(1) by (simp add: uuid_parse_def remove_all_none uuid_str_hyphens)
qed

lemma uuid_str_inj: "uuid_str u = uuid_str v \<longleftrightarrow> u = v"
  by (metis sum.inject(2) uuid_parse_str)

end
