(* ===== verification/Events.thy ===== *)
theory Events
  imports Models Py_Text
begin

section \<open>Events: envelopes, and the sockets that receive them\<close>

text \<open>
  \<open>app/websocket/events.py\<close> builds the envelopes of the notification channel;
  \<open>app/websocket/connection_manager.py\<close> keeps the sockets subscribed to each execution. An
  envelope's \<open>timestamp\<close> is the clock reading its builder is given. A \<open>WebSocket\<close> is a value of
  an arbitrary type \<open>'w\<close>, and whether sending to it raises is the argument \<open>send_ok\<close>.
\<close>

subsection \<open>Envelopes\<close>

record Envelope =
  ev_type :: string
  ev_execution_id :: "string option"
  ev_timestamp :: time
  ev_data :: jdict

definition envelope :: "time \<Rightarrow> string \<Rightarrow> uuid option \<Rightarrow> jdict \<Rightarrow> Envelope" where
  "envelope t event_type execution_id d =
     \<lparr>ev_type = event_type, ev_execution_id = map_option uuid_str execution_id,
      ev_timestamp = t, ev_data = d\<rparr>"

definition execution_updated :: "time \<Rightarrow> uuid \<Rightarrow> string \<Rightarrow> Envelope" where
  "execution_updated t execution_id status =
     envelope t ''execution_updated'' (Some execution_id) [(''status'', JStr status)]"

definition node_updated :: "time \<Rightarrow> uuid \<Rightarrow> uuid \<Rightarrow> string \<Rightarrow> string \<Rightarrow> int \<Rightarrow> Envelope" where
  "node_updated t execution_id node_execution_id node_id status attempt =
     envelope t ''node_updated'' (Some execution_id)
       [(''node_execution_id'', JStr (uuid_str node_execution_id)),
        (''node_id'', JStr node_id),
        (''status'', JStr status),
        (''attempt'', JInt attempt)]"

definition execution_log ::
  "time \<Rightarrow> uuid \<Rightarrow> string \<Rightarrow> string \<Rightarrow> string \<Rightarrow> uuid option \<Rightarrow> jdict option \<Rightarrow> Envelope" where
  "execution_log t execution_id level event_type msg node_execution_id metadata =
     envelope t ''execution_log'' (Some execution_id)
       [(''node_execution_id'', jopt_str (map_option uuid_str node_execution_id)),
        (''level'', JStr level),
        (''event_type'', JStr event_type),
        (''message'', JStr msg),
        (''metadata'', (case metadata of None \<Rightarrow> JNull | Some d \<Rightarrow> JObj d))]"

definition worker_updated :: "time \<Rightarrow> uuid option \<Rightarrow> uuid \<Rightarrow> string \<Rightarrow> string option \<Rightarrow> Envelope" where
  "worker_updated t execution_id worker_id status current_job_id =
     envelope t ''worker_updated'' execution_id
       [(''worker_id'', JStr (uuid_str worker_id)),
        (''status'', JStr status),
        (''current_job_id'', jopt_str current_job_id)]"

definition ping :: "time \<Rightarrow> Envelope" where
  "ping t = envelope t ''ping'' None []"

subsection \<open>The broadcaster\<close>

text \<open>
  \<open>app/websocket/broadcaster.py\<close>. The Redis channel \<open>eventflow:ws\<close> is a state \<open>'c\<close> and its
  \<open>PUBLISH\<close> the parameter \<open>ws_publish\<close>, which may raise: \<open>safe_broadcast\<close> swallows that.
\<close>

definition safe_broadcast ::
  "(string \<Rightarrow> Envelope \<Rightarrow> 'c \<Rightarrow> unit result \<times> 'c) \<Rightarrow> string \<Rightarrow> Envelope \<Rightarrow> 'c \<Rightarrow> 'c" where
  "safe_broadcast ws_publish execution_id msg c =
     (case ws_publish execution_id msg c of (Inl _, c') \<Rightarrow> c' | (Inr _, c') \<Rightarrow> c')"

fun broadcast_envelopes ::
  "(string \<Rightarrow> Envelope \<Rightarrow> 'c \<Rightarrow> unit result \<times> 'c) \<Rightarrow> Envelope list \<Rightarrow> 'c \<Rightarrow> 'c" where
  "broadcast_envelopes ws_publish [] c = c"
| "broadcast_envelopes ws_publish (msg # msgs) c =
     (case ev_execution_id msg of
        None \<Rightarrow> broadcast_envelopes ws_publish msgs c
      | Some x \<Rightarrow> broadcast_envelopes ws_publish msgs (safe_broadcast ws_publish x msg c))"

definition broadcast_worker_updated ::
  "(string \<Rightarrow> Envelope \<Rightarrow> 'c \<Rightarrow> unit result \<times> 'c) \<Rightarrow> time \<Rightarrow> uuid option \<Rightarrow> uuid \<Rightarrow> string \<Rightarrow>
   string option \<Rightarrow> 'c \<Rightarrow> 'c" where
  "broadcast_worker_updated ws_publish t execution_id worker_id status current_job_id c =
     (case execution_id of
        None \<Rightarrow> c
      | Some x \<Rightarrow>
          safe_broadcast ws_publish (uuid_str x)
            (worker_updated t execution_id worker_id status current_job_id) c)"

definition broadcast_execution_updated ::
  "(string \<Rightarrow> Envelope \<Rightarrow> 'c \<Rightarrow> unit result \<times> 'c) \<Rightarrow> time \<Rightarrow> uuid \<Rightarrow> string \<Rightarrow> 'c \<Rightarrow> 'c" where
  "broadcast_execution_updated ws_publish t execution_id status =
     safe_broadcast ws_publish (uuid_str execution_id) (execution_updated t execution_id status)"

definition broadcast_node_updated ::
  "(string \<Rightarrow> Envelope \<Rightarrow> 'c \<Rightarrow> unit result \<times> 'c) \<Rightarrow> time \<Rightarrow> uuid \<Rightarrow> uuid \<Rightarrow> string \<Rightarrow> string \<Rightarrow>
   int \<Rightarrow> 'c \<Rightarrow> 'c" where
  "broadcast_node_updated ws_publish t execution_id node_execution_id node_id status attempt =
     safe_broadcast ws_publish (uuid_str execution_id)
       (node_updated t execution_id node_execution_id node_id status attempt)"

definition broadcast_execution_log ::
  "(string \<Rightarrow> Envelope \<Rightarrow> 'c \<Rightarrow> unit result \<times> 'c) \<Rightarrow> time \<Rightarrow> uuid \<Rightarrow> string \<Rightarrow> string \<Rightarrow> string \<Rightarrow>
   uuid option \<Rightarrow> jdict option \<Rightarrow> 'c \<Rightarrow> 'c" where
  "broadcast_execution_log ws_publish t execution_id level event_type msg node_execution_id metadata =
     safe_broadcast ws_publish (uuid_str execution_id)
       (execution_log t execution_id level event_type msg node_execution_id metadata)"

subsection \<open>The connection manager\<close>

text \<open>\<open>self._connections\<close>: the sockets of each execution, no bucket kept empty.\<close>

type_synonym 'w connections = "string \<rightharpoonup> 'w list"

definition connect :: "string \<Rightarrow> 'w \<Rightarrow> 'w connections \<Rightarrow> 'w connections" where
  "connect execution_id websocket m =
     m(execution_id \<mapsto> List.insert websocket (case m execution_id of None \<Rightarrow> [] | Some ws \<Rightarrow> ws))"

definition disconnect :: "string \<Rightarrow> 'w \<Rightarrow> 'w connections \<Rightarrow> 'w connections" where
  "disconnect execution_id websocket m =
     (case m execution_id of
        None \<Rightarrow> m
      | Some ws \<Rightarrow>
          (let sockets = removeAll websocket ws in
           if sockets = [] then m(execution_id := None) else m(execution_id \<mapsto> sockets)))"

text \<open>
  \<open>broadcast\<close> sends to a snapshot of the bucket and then disconnects the sockets whose send
  raised; it returns the sockets the message was delivered to.
\<close>

definition broadcast ::
  "('w \<Rightarrow> bool) \<Rightarrow> string \<Rightarrow> 'w connections \<Rightarrow> 'w list \<times> 'w connections" where
  "broadcast send_ok execution_id m =
     (let sockets = (case m execution_id of None \<Rightarrow> [] | Some ws \<Rightarrow> ws);
          broken = filter (\<lambda>w. \<not> send_ok w) sockets
      in (filter send_ok sockets, fold (disconnect execution_id) broken m))"

definition connection_count :: "string \<Rightarrow> 'w connections \<Rightarrow> nat" where
  "connection_count execution_id m = (case m execution_id of None \<Rightarrow> 0 | Some ws \<Rightarrow> length ws)"

definition sockets_of :: "'w connections \<Rightarrow> string \<Rightarrow> 'w list" where
  "sockets_of m x = (case m x of None \<Rightarrow> [] | Some ws \<Rightarrow> ws)"

text \<open>Buckets are never empty and hold no socket twice.\<close>

definition connections_ok :: "'w connections \<Rightarrow> bool" where
  "connections_ok m \<longleftrightarrow> (\<forall>x ws. m x = Some ws \<longrightarrow> ws \<noteq> [] \<and> distinct ws)"

subsection \<open>Facts on the connection manager\<close>

lemma sockets_of_connect:
  "sockets_of (connect x w m) y = (if y = x then List.insert w (sockets_of m x) else sockets_of m y)"
  by (auto simp: connect_def sockets_of_def split: option.splits)

lemma sockets_of_disconnect:
  "sockets_of (disconnect x w m) y = (if y = x then removeAll w (sockets_of m x) else sockets_of m y)"
  by (auto simp: disconnect_def sockets_of_def Let_def split: option.splits)

lemma sockets_of_disconnects:
  "sockets_of (fold (disconnect x) ws m) y =
     (if y = x then filter (\<lambda>w. w \<notin> set ws) (sockets_of m x) else sockets_of m y)"
proof (induction ws arbitrary: m)
  case (Cons w ws)
  then show ?case
    by (auto simp: sockets_of_disconnect removeAll_filter_not_eq intro: filter_cong)
qed simp

lemma connections_ok_connect: "connections_ok m \<Longrightarrow> connections_ok (connect x w m)"
  by (auto simp: connections_ok_def connect_def List.insert_def split: option.splits if_splits)

lemma connections_ok_disconnect: "connections_ok m \<Longrightarrow> connections_ok (disconnect x w m)"
  unfolding connections_ok_def disconnect_def
  by (auto simp: Let_def distinct_removeAll split: option.splits if_splits)

lemma connections_ok_disconnects: "connections_ok m \<Longrightarrow> connections_ok (fold (disconnect x) ws m)"
  by (induction ws arbitrary: m) (simp_all add: connections_ok_disconnect)

lemma broadcast_sockets:
  "sockets_of (snd (broadcast send_ok x m)) y =
     (if y = x then filter send_ok (sockets_of m x) else sockets_of m y)"
  by (auto simp: broadcast_def Let_def sockets_of_disconnects sockets_of_def
      simp flip: sockets_of_def intro!: filter_cong)

text \<open>
  A broadcast is the sequence of its envelopes that name an execution, each handed to the
  channel once and in order, whether or not the channel raised.
\<close>

lemma broadcast_envelopes_fold:
  "broadcast_envelopes ws_publish msgs c =
     fold (\<lambda>m c. snd (ws_publish (the (ev_execution_id m)) m c))
       (filter (\<lambda>m. ev_execution_id m \<noteq> None) msgs) c"
  by (induction msgs arbitrary: c)
    (auto simp: safe_broadcast_def split: option.splits prod.splits sum.splits)

end
