(* ===== verification/Session.thy ===== *)
theory Session
  imports Events
begin

section \<open>Sessions: transactions, staged events, and the log helpers\<close>

text \<open>
  An \<open>AsyncSession\<close> during a request. \<open>sdb\<close> is the database as the transaction sees it (its own
  flushed writes included), \<open>staged\<close> is \<open>session.info["ws_events"]\<close>, \<open>pinned\<close> holds the
  \<open>Execution\<close> objects the session has loaded in an earlier transaction: the session factory sets
  \<open>expire_on_commit=False\<close>, so a later \<open>select\<close> returns those objects as they were and not as
  the row is now. \<open>now\<close> is the clock, \<open>uuids\<close>/\<open>used\<close> the stream of \<open>uuid.uuid4()\<close>. A unit of
  work is a function \<open>session \<Rightarrow> ('a \<times> session) result\<close>; an exception discards the session,
  which is the rollback. \<open>world\<close> is what outlives a session: the durable database, the job queue
  and the notification channel; \<open>commit_session\<close> makes the session's database durable.
\<close>

record session =
  sdb :: database
  staged :: "Envelope list"
  pinned :: "Execution list"
  now :: time
  uuids :: "nat \<Rightarrow> uuid"
  used :: nat

record ('q, 'c) world =
  durable :: database
  queue :: 'q
  channel :: 'c
  clock :: time
  ids :: "nat \<Rightarrow> uuid"
  ids_used :: nat

definition open_session :: "('q, 'c) world \<Rightarrow> session" where
  "open_session w = \<lparr>sdb = durable w, staged = [], pinned = [], now = clock w, uuids = ids w, used = ids_used w\<rparr>"

definition commit_session :: "session \<Rightarrow> ('q, 'c) world \<Rightarrow> ('q, 'c) world" where
  "commit_session s w = w\<lparr>durable := sdb s, ids_used := used s\<rparr>"

text \<open>The next transaction of the same session starts from the durable database of that moment.\<close>

definition resume :: "session \<Rightarrow> ('q, 'c) world \<Rightarrow> session" where
  "resume s w = s\<lparr>sdb := durable w, now := clock w, used := ids_used w\<rparr>"

text \<open>
  A unit of work followed by its commit; \<open>get_db_session\<close> closes the session, which rolls back what
  an exception leaves open.
\<close>

definition in_session :: "(session \<Rightarrow> ('a \<times> session) result) \<Rightarrow> ('q, 'c) world \<Rightarrow> 'a result \<times> ('q, 'c) world" where
  "in_session f w =
     (case f (open_session w) of
        Inl e \<Rightarrow> (Inl e, w)
      | Inr (r, s) \<Rightarrow> (Inr r, commit_session s w))"

definition new_uuid :: "session \<Rightarrow> uuid \<times> session" where
  "new_uuid s = (uuids s (used s), s\<lparr>used := Suc (used s)\<rparr>)"

definition modify_db :: "(database \<Rightarrow> database) \<Rightarrow> session \<Rightarrow> session" where
  "modify_db f s = s\<lparr>sdb := f (sdb s)\<rparr>"

definition stage_event :: "Envelope \<Rightarrow> session \<Rightarrow> session" where
  "stage_event e s = s\<lparr>staged := staged s @ [e]\<rparr>"

definition flush_events ::
  "(string \<Rightarrow> Envelope \<Rightarrow> 'c \<Rightarrow> unit result \<times> 'c) \<Rightarrow> session \<Rightarrow> 'c \<Rightarrow> session \<times> 'c" where
  "flush_events ws_publish s c = (s\<lparr>staged := []\<rparr>, broadcast_envelopes ws_publish (staged s) c)"

subsection \<open>Log helpers\<close>

text \<open>\<open>app/observability/log_helpers.py\<close>: each helper adds one log row and stages its event.\<close>

definition add_log ::
  "uuid \<Rightarrow> uuid option \<Rightarrow> LogLevel \<Rightarrow> string \<Rightarrow> string \<Rightarrow> jdict option \<Rightarrow> session \<Rightarrow> session" where
  "add_log execution_id node_execution_id level event_type msg metadata s =
     (let (i, s1) = new_uuid s;
          log = \<lparr>lg_id = i, lg_execution_id = execution_id, lg_node_execution_id = node_execution_id,
                 lg_level = level, lg_event_type = event_type, lg_message = msg,
                 lg_metadata = metadata, lg_created_at = now s1\<rparr>
      in stage_event
           (execution_log (now s1) execution_id (log_level_value level) event_type msg
              node_execution_id metadata)
           (modify_db (execution_logs_update (\<lambda>ls. ls @ [log])) s1))"

definition execution_started :: "uuid \<Rightarrow> session \<Rightarrow> session" where
  "execution_started execution_id =
     add_log execution_id None INFO ''execution_started'' ''Execution started'' None"

definition node_started :: "uuid \<Rightarrow> uuid \<Rightarrow> string \<Rightarrow> session \<Rightarrow> session" where
  "node_started execution_id node_execution_id node_id =
     add_log execution_id (Some node_execution_id) INFO ''node_started''
       (''Node '' @ node_id @ '' started'') (Some [(''node_id'', JStr node_id)])"

definition node_succeeded :: "uuid \<Rightarrow> uuid \<Rightarrow> string \<Rightarrow> session \<Rightarrow> session" where
  "node_succeeded execution_id node_execution_id node_id =
     add_log execution_id (Some node_execution_id) INFO ''node_succeeded''
       (''Node '' @ node_id @ '' succeeded'') (Some [(''node_id'', JStr node_id)])"

definition node_failed :: "uuid \<Rightarrow> uuid \<Rightarrow> string \<Rightarrow> string option \<Rightarrow> session \<Rightarrow> session" where
  "node_failed execution_id node_execution_id node_id err =
     add_log execution_id (Some node_execution_id) ERROR ''node_failed''
       (''Node '' @ node_id @ '' failed'')
       (Some [(''node_id'', JStr node_id), (''error'', jopt_str err)])"

definition retry_scheduled :: "uuid \<Rightarrow> uuid \<Rightarrow> string \<Rightarrow> int \<Rightarrow> session \<Rightarrow> session" where
  "retry_scheduled execution_id node_execution_id node_id attempt =
     add_log execution_id (Some node_execution_id) WARNING ''retry_scheduled''
       (''Node '' @ node_id @ '' retry scheduled (attempt '' @ int_str attempt @ '')'')
       (Some [(''node_id'', JStr node_id), (''attempt'', JInt attempt)])"

definition dead_lettered :: "uuid \<Rightarrow> uuid \<Rightarrow> string \<Rightarrow> string option \<Rightarrow> session \<Rightarrow> session" where
  "dead_lettered execution_id node_execution_id node_id reason =
     add_log execution_id (Some node_execution_id) ERROR ''dead_lettered''
       (''Node '' @ node_id @ '' dead-lettered'')
       (Some [(''node_id'', JStr node_id), (''reason'', jopt_str reason)])"

definition worker_recovered_job ::
  "uuid \<Rightarrow> uuid \<Rightarrow> string \<Rightarrow> string option \<Rightarrow> string \<Rightarrow> string \<Rightarrow> session \<Rightarrow> session" where
  "worker_recovered_job execution_id node_execution_id redis_message_id previous_worker
     claiming_worker reason =
     add_log execution_id (Some node_execution_id) INFO ''job_recovered''
       ''Stale pending job reclaimed''
       (Some [(''previous_worker'', jopt_str previous_worker),
              (''claiming_worker'', JStr claiming_worker),
              (''redis_message_id'', JStr redis_message_id),
              (''recovery_reason'', JStr reason)])"

lemmas log_helper_defs =
  execution_started_def node_started_def node_succeeded_def node_failed_def
  retry_scheduled_def dead_lettered_def worker_recovered_job_def

subsection \<open>What the elementary operations leave alone\<close>

text \<open>
  A log helper writes only the log table and the staged events: every other table of the
  session, and what it has pinned, is as before.
\<close>

lemma add_log_frame [simp]:
  "executions (sdb (add_log x n l t m d s)) = executions (sdb s)"
  "node_executions (sdb (add_log x n l t m d s)) = node_executions (sdb s)"
  "dead_letter_jobs (sdb (add_log x n l t m d s)) = dead_letter_jobs (sdb s)"
  "workflows (sdb (add_log x n l t m d s)) = workflows (sdb s)"
  "workflow_versions (sdb (add_log x n l t m d s)) = workflow_versions (sdb s)"
  "workers (sdb (add_log x n l t m d s)) = workers (sdb s)"
  "api_keys (sdb (add_log x n l t m d s)) = api_keys (sdb s)"
  "refresh_tokens (sdb (add_log x n l t m d s)) = refresh_tokens (sdb s)"
  "pinned (add_log x n l t m d s) = pinned s"
  "now (add_log x n l t m d s) = now s"
  "uuids (add_log x n l t m d s) = uuids s"
  "used (add_log x n l t m d s) = Suc (used s)"
  by (simp_all add: add_log_def new_uuid_def modify_db_def stage_event_def Let_def)

lemma add_log_row:
  "execution_logs (sdb (add_log x n l t m d s)) = execution_logs (sdb s) @
     [\<lparr>lg_id = uuids s (used s), lg_execution_id = x, lg_node_execution_id = n, lg_level = l,
       lg_event_type = t, lg_message = m, lg_metadata = d, lg_created_at = now s\<rparr>]"
  by (simp add: add_log_def new_uuid_def modify_db_def stage_event_def Let_def)

lemma add_log_staged [simp]:
  "staged (add_log x n l t m d s) = staged s @ [execution_log (now s) x (log_level_value l) t m n d]"
  by (simp add: add_log_def new_uuid_def modify_db_def stage_event_def Let_def)

lemma stage_event_simps [simp]:
  "sdb (stage_event e s) = sdb s" "staged (stage_event e s) = staged s @ [e]"
  "pinned (stage_event e s) = pinned s" "now (stage_event e s) = now s"
  "uuids (stage_event e s) = uuids s" "used (stage_event e s) = used s"
  by (simp_all add: stage_event_def)

lemma modify_db_simps [simp]:
  "sdb (modify_db f s) = f (sdb s)" "staged (modify_db f s) = staged s"
  "pinned (modify_db f s) = pinned s" "now (modify_db f s) = now s"
  "uuids (modify_db f s) = uuids s" "used (modify_db f s) = used s"
  by (simp_all add: modify_db_def)

lemma open_session_simps [simp]:
  "sdb (open_session w) = durable w" "staged (open_session w) = []" "pinned (open_session w) = []"
  "now (open_session w) = clock w" "uuids (open_session w) = ids w" "used (open_session w) = ids_used w"
  by (simp_all add: open_session_def)

lemma commit_session_simps [simp]:
  "durable (commit_session s w) = sdb s" "queue (commit_session s w) = queue w"
  "channel (commit_session s w) = channel w" "clock (commit_session s w) = clock w"
  "ids (commit_session s w) = ids w" "ids_used (commit_session s w) = used s"
  by (simp_all add: commit_session_def)

lemma resume_simps [simp]:
  "sdb (resume s w) = durable w" "staged (resume s w) = staged s" "pinned (resume s w) = pinned s"
  "now (resume s w) = clock w" "uuids (resume s w) = uuids s" "used (resume s w) = ids_used w"
  by (simp_all add: resume_def)

lemma in_session_Inr:
  "in_session f w = (Inr r, w') \<longleftrightarrow> (\<exists>s. f (open_session w) = Inr (r, s) \<and> w' = commit_session s w)"
  by (auto simp: in_session_def split: sum.splits)

lemma in_session_Inl: "in_session f w = (Inl e, w') \<longleftrightarrow> f (open_session w) = Inl e \<and> w' = w"
  by (auto simp: in_session_def split: sum.splits)

end
