(* ===== verification/State_Transition.thy ===== *)
theory State_Transition
  imports Session
begin

section \<open>State transitions\<close>

text \<open>
  \<open>app/services/state_transition.py\<close>: every change of the status of an execution or of a node
  goes through one of two guarded updates, which also keep the timestamps, count attempts, and
  stage the event the clients will see.
\<close>

subsection \<open>The operations\<close>

text \<open>
  \<open>select(Execution).where(Execution.id == ...)\<close>: the row decides whether there is a result,
  the identity map which values it has.
\<close>

definition load_execution :: "uuid \<Rightarrow> session \<Rightarrow> Execution option result" where
  "load_execution execution_id s =
     rbind (scalar_one_or_none (filter (\<lambda>e. ex_id e = execution_id) (executions (sdb s)))) (\<lambda>row.
       Inr (case row of
              None \<Rightarrow> None
            | Some e \<Rightarrow>
                (case row_get ex_id execution_id (pinned s) of None \<Rightarrow> Some e | Some p \<Rightarrow> Some p)))"

text \<open>The assignments of a transition; on flush they go to the row, and to the loaded object.\<close>

definition set_execution_status :: "ExecutionStatus \<Rightarrow> time \<Rightarrow> Execution \<Rightarrow> Execution" where
  "set_execution_status to_status t e =
     (let e1 = e\<lparr>ex_status := to_status\<rparr> in
      if to_status = X_RUNNING then e1\<lparr>ex_started_at := Some t\<rparr>
      else if to_status \<in> {X_SUCCEEDED, X_FAILED, X_PARTIAL_FAILED, X_CANCELLED}
      then e1\<lparr>ex_finished_at := Some t\<rparr>
      else e1)"

definition transition_execution_status ::
  "uuid \<Rightarrow> ExecutionStatus \<Rightarrow> ExecutionStatus \<Rightarrow> session \<Rightarrow> (Execution \<times> session) result" where
  "transition_execution_status execution_id from_status to_status s =
     rbind (load_execution execution_id s) (\<lambda>found.
     case found of
       None \<Rightarrow> Inl (AppError ''Execution not found'' ''not_found'' 404)
     | Some execution \<Rightarrow>
         if ex_status execution \<noteq> from_status
         then Inl (app_error
           (''Invalid execution transition: cannot transition from '' @
            execution_status_name (ex_status execution) @ '' to '' @ execution_status_name to_status @
            '' (expected '' @ execution_status_name from_status @ '')'') ''invalid_transition'')
         else
           (let upd = set_execution_status to_status (now s);
                s1 = modify_db (executions_update (row_modify ex_id execution_id upd)) s;
                s2 = s1\<lparr>pinned := row_modify ex_id execution_id upd (pinned s1)\<rparr>
            in Inr (upd execution,
                    stage_event (execution_updated (now s) execution_id (execution_status_name to_status)) s2)))"

definition set_node_status :: "NodeExecutionStatus \<Rightarrow> time \<Rightarrow> NodeExecution \<Rightarrow> NodeExecution" where
  "set_node_status to_status t n =
     (let n1 = n\<lparr>ne_status := to_status\<rparr> in
      if to_status = QUEUED then n1\<lparr>ne_queued_at := Some t, ne_attempt := ne_attempt n1 + 1\<rparr>
      else if to_status = RUNNING then n1\<lparr>ne_started_at := Some t\<rparr>
      else if to_status \<in> {SUCCEEDED, FAILED, SKIPPED, DEAD_LETTERED}
      then n1\<lparr>ne_finished_at := Some t\<rparr>
      else n1)"

definition transition_node_status ::
  "uuid \<Rightarrow> NodeExecutionStatus \<Rightarrow> NodeExecutionStatus \<Rightarrow> session \<Rightarrow> (NodeExecution \<times> session) result" where
  "transition_node_status node_execution_id from_status to_status s =
     rbind (scalar_one_or_none (filter (\<lambda>n. ne_id n = node_execution_id) (node_executions (sdb s)))) (\<lambda>found.
     case found of
       None \<Rightarrow> Inl (AppError ''NodeExecution not found'' ''not_found'' 404)
     | Some node \<Rightarrow>
         if ne_status node \<noteq> from_status
         then Inl (app_error
           (''Invalid node transition: cannot transition from '' @ node_status_name (ne_status node) @
            '' to '' @ node_status_name to_status @
            '' (expected '' @ node_status_name from_status @ '')'') ''invalid_transition'')
         else
           (let upd = set_node_status to_status (now s);
                node' = upd node
            in Inr (node',
                    stage_event
                      (node_updated (now s) (ne_execution_id node') (ne_id node') (ne_node_id node')
                         (node_status_name to_status) (ne_attempt node'))
                      (modify_db (node_executions_update (row_modify ne_id node_execution_id upd)) s))))"

subsection \<open>Fields a transition keeps\<close>

lemma set_node_status_fields [simp]:
  "ne_id (set_node_status st t n) = ne_id n"
  "ne_execution_id (set_node_status st t n) = ne_execution_id n"
  "ne_node_id (set_node_status st t n) = ne_node_id n"
  "ne_node_type (set_node_status st t n) = ne_node_type n"
  "ne_status (set_node_status st t n) = st"
  "ne_max_attempts (set_node_status st t n) = ne_max_attempts n"
  "ne_input_payload (set_node_status st t n) = ne_input_payload n"
  "ne_output_payload (set_node_status st t n) = ne_output_payload n"
  "ne_error_message (set_node_status st t n) = ne_error_message n"
  "ne_redis_message_id (set_node_status st t n) = ne_redis_message_id n"
  "ne_attempt (set_node_status st t n) = ne_attempt n + (if st = QUEUED then 1 else 0)"
  by (simp_all add: set_node_status_def Let_def)

lemma set_execution_status_fields [simp]:
  "ex_id (set_execution_status st t e) = ex_id e"
  "ex_workflow_id (set_execution_status st t e) = ex_workflow_id e"
  "ex_workflow_version_id (set_execution_status st t e) = ex_workflow_version_id e"
  "ex_status (set_execution_status st t e) = st"
  "ex_input_payload (set_execution_status st t e) = ex_input_payload e"
  "ex_triggered_by (set_execution_status st t e) = ex_triggered_by e"
  "ex_error_message (set_execution_status st t e) = ex_error_message e"
  by (simp_all add: set_execution_status_def Let_def)

subsection \<open>What a transition does\<close>

text \<open>
  The inversion rules of the two operations: a transition that returns found exactly one row, in
  the expected state, and the session it returns is the update of that row with the event staged.
\<close>

lemma transition_node_status_Inr:
  "transition_node_status i from_status to_status s = Inr (n', s') \<longleftrightarrow>
   (\<exists>n. filter (\<lambda>n. ne_id n = i) (node_executions (sdb s)) = [n] \<and> ne_status n = from_status \<and>
        n' = set_node_status to_status (now s) n \<and>
        s' = stage_event
               (node_updated (now s) (ne_execution_id n) i (ne_node_id n)
                  (node_status_name to_status) (ne_attempt n'))
               (modify_db (node_executions_update (row_modify ne_id i (set_node_status to_status (now s)))) s))"
  (is "?l \<longleftrightarrow> (\<exists>n. ?r n)")
proof -
  have id: "filter (\<lambda>n. ne_id n = i) (node_executions (sdb s)) = [n] \<Longrightarrow> ne_id n = i" for n
    by (auto dest: filter_singletonD)
  show ?thesis
  proof (cases "filter (\<lambda>n. ne_id n = i) (node_executions (sdb s))" rule: scalar_one_or_none.cases)
    case (2 n)
    then have "ne_id n = i" by (rule id)
    with 2 show ?thesis by (cases "ne_status n = from_status") (auto simp: transition_node_status_def Let_def)
  qed (simp_all add: transition_node_status_def)
qed

lemma transition_node_status_ok:
  assumes "distinct (map ne_id (node_executions (sdb s)))"
    and "row_get ne_id i (node_executions (sdb s)) = Some n" and "ne_status n = from_status"
  shows "transition_node_status i from_status to_status s =
    Inr (set_node_status to_status (now s) n,
         stage_event
           (node_updated (now s) (ne_execution_id n) i (ne_node_id n) (node_status_name to_status)
              (ne_attempt n + (if to_status = QUEUED then 1 else 0)))
           (modify_db (node_executions_update (row_modify ne_id i (set_node_status to_status (now s)))) s))"
proof -
  have "ne_id n = i" using row_get_Some [OF assms(2)] by simp
  then show ?thesis
    using assms by (auto simp: transition_node_status_def scalar_one_or_none_key Let_def)
qed

lemma transition_execution_status_Inr:
  assumes "transition_execution_status x from_status to_status s = Inr (e', s')"
  obtains e where "load_execution x s = Inr (Some e)" and "ex_status e = from_status"
    and "e' = set_execution_status to_status (now s) e"
    and "s' = stage_event (execution_updated (now s) x (execution_status_name to_status))
           ((modify_db (executions_update (row_modify ex_id x (set_execution_status to_status (now s)))) s)
              \<lparr>pinned := row_modify ex_id x (set_execution_status to_status (now s)) (pinned s)\<rparr>)"
  using assms by (auto simp: transition_execution_status_def rbind_eq_Inr Let_def split: option.splits if_splits)

text \<open>
  The two frames: a node transition writes the node table only, an execution transition the
  execution table and the loaded object only.
\<close>

lemma transition_node_status_frame:
  assumes "transition_node_status i from_status to_status s = Inr (n', s')"
  shows "sdb s' = (sdb s)\<lparr>node_executions := row_modify ne_id i (set_node_status to_status (now s)) (node_executions (sdb s))\<rparr>"
    and "pinned s' = pinned s" and "now s' = now s" and "uuids s' = uuids s" and "used s' = used s"
    and "ne_id n' = i" and "ne_status n' = to_status"
proof -
  obtain n where n: "filter (\<lambda>n. ne_id n = i) (node_executions (sdb s)) = [n]"
    and n': "n' = set_node_status to_status (now s) n"
    and s': "s' = stage_event
               (node_updated (now s) (ne_execution_id n) i (ne_node_id n)
                  (node_status_name to_status) (ne_attempt n'))
               (modify_db (node_executions_update (row_modify ne_id i (set_node_status to_status (now s)))) s)"
    using assms by (auto simp: transition_node_status_Inr)
  from n have "ne_id n = i" by (auto dest: filter_singletonD)
  then show "ne_id n' = i" and "ne_status n' = to_status" using n' by simp_all
  show "sdb s' = (sdb s)\<lparr>node_executions := row_modify ne_id i (set_node_status to_status (now s)) (node_executions (sdb s))\<rparr>"
    and "pinned s' = pinned s" and "now s' = now s" and "uuids s' = uuids s" and "used s' = used s"
    unfolding s' by simp_all
qed

lemma transition_execution_status_frame:
  assumes "transition_execution_status x from_status to_status s = Inr (e', s')"
  shows "sdb s' = (sdb s)\<lparr>executions := row_modify ex_id x (set_execution_status to_status (now s)) (executions (sdb s))\<rparr>"
    and "pinned s' = row_modify ex_id x (set_execution_status to_status (now s)) (pinned s)"
    and "now s' = now s" and "uuids s' = uuids s" and "used s' = used s"
  using assms by (auto elim!: transition_execution_status_Inr)

lemma transition_execution_status_ok:
  assumes "distinct (map ex_id (executions (sdb s)))"
    and "row_get ex_id x (executions (sdb s)) = Some e"
    and "ex_status (case row_get ex_id x (pinned s) of None \<Rightarrow> e | Some p \<Rightarrow> p) = from_status"
  shows "\<exists>e' s'. transition_execution_status x from_status to_status s = Inr (e', s')"
  using assms
  by (auto simp: transition_execution_status_def load_execution_def scalar_one_or_none_key Let_def
      split: option.splits)

end
