(* ===== verification/Executors.thy ===== *)
theory Executors
  imports Schemas
begin

section \<open>Executors: context, result, registry, configuration checks\<close>

text \<open>
  \<open>app/services/executor_registry.py\<close>. An executor is an object with a type, a configuration
  check and an \<open>execute\<close> method; here a record of the three, with \<open>execute\<close> a function into
  results (\<open>Inl\<close> for any exception it raises). The registry is the dictionary from types to
  executors. The configuration checks of the six built-in executors and the executors that
  need nothing outside the process (delay, transform, notification) are written out.
\<close>

record ExecutionContext =
  cx_execution_id :: uuid
  cx_node_execution_id :: uuid
  cx_node_id :: string
  cx_config :: jdict
  cx_workflow_input :: jdict
  cx_upstream_outputs :: jdict
  cx_attempt :: int
  cx_idempotency_key :: string

record ExecutorResult =
  r_success :: bool
  r_output :: jdict
  r_error :: "string option"

record Executor =
  ex_type :: string
  validate_config :: "jdict \<Rightarrow> unit result"
  execute :: "ExecutionContext \<Rightarrow> ExecutorResult result"

subsection \<open>The registry\<close>

type_synonym ExecutorRegistry = "(string \<times> Executor) list"

definition register :: "Executor \<Rightarrow> ExecutorRegistry \<Rightarrow> ExecutorRegistry" where
  "register ex reg = AList.update (ex_type ex) ex reg"

definition registry_get :: "ExecutorRegistry \<Rightarrow> string \<Rightarrow> Executor result" where
  "registry_get reg t =
     (case map_of reg t of
        None \<Rightarrow> Inl (app_error (''Unknown executor type: '' @ t) ''unknown_executor_type'')
      | Some ex \<Rightarrow> Inr ex)"

subsection \<open>Configuration checks\<close>

definition config_error :: "string \<Rightarrow> exn" where
  "config_error msg = app_error msg ''invalid_executor_config''"

definition url_prefix_ok :: "string \<Rightarrow> bool" where
  "url_prefix_ok s \<longleftrightarrow> starts_with ''http://'' s \<or> starts_with ''https://'' s"

definition http_validate_config :: "jdict \<Rightarrow> unit result" where
  "http_validate_config config =
     (case map_of config ''url'' of
        None \<Rightarrow> Inl (config_error (''Missing '' @ quoted ''url'' @ '' in http executor config''))
      | Some v \<Rightarrow>
          (case v of
             JStr s \<Rightarrow>
               if url_prefix_ok s then Inr ()
               else Inl (config_error (''Invalid '' @ quoted ''url'' @ '' in http executor config''))
           | _ \<Rightarrow> Inl (config_error (''Invalid '' @ quoted ''url'' @ '' in http executor config''))))"

text \<open>
  \<open>not isinstance(duration, int | float) or duration <= 0 or duration > 3600\<close>: a boolean is an
  \<open>int\<close>, and every comparison with NaN is false.
\<close>

definition duration_rejected :: "json \<Rightarrow> bool" where
  "duration_rejected v =
     (case num_val v of
        None \<Rightarrow> True
      | Some x \<Rightarrow> float_less x (Finite 0) \<or> float_eq x (Finite 0) \<or> float_less (Finite 3600) x)"

definition delay_validate_config :: "jdict \<Rightarrow> unit result" where
  "delay_validate_config config =
     (case map_of config ''duration_seconds'' of
        None \<Rightarrow> Inl (config_error (''Missing '' @ quoted ''duration_seconds'' @ '' in delay executor config''))
      | Some v \<Rightarrow>
          if duration_rejected v
          then Inl (config_error (quoted ''duration_seconds'' @ '' must be a positive number and at most 3600''))
          else Inr ())"

text \<open>\<open>re.search(r"(import|exec|eval|os|sys|open)", expr)\<close>: some word occurs as a substring.\<close>

definition unsafe_expression :: "string \<Rightarrow> bool" where
  "unsafe_expression e =
     list_ex (\<lambda>w. occurs w e) [''import'', ''exec'', ''eval'', ''os'', ''sys'', ''open'']"

definition condition_validate_config :: "jdict \<Rightarrow> unit result" where
  "condition_validate_config config =
     rbind (rfold (\<lambda>field_name _.
              if map_of config field_name = None
              then Inl (config_error (''Missing '' @ quoted field_name @ '' in condition executor config''))
              else Inr ()) [''expression'', ''true_path'', ''false_path''] ())
       (\<lambda>_. case map_of config ''expression'' of
          Some (JStr e) \<Rightarrow>
            if unsafe_expression e then Inl (config_error ''Unsafe expression detected'') else Inr ()
        | _ \<Rightarrow> Inl (config_error (quoted ''expression'' @ '' must be a string'')))"

definition transform_validate_config :: "jdict \<Rightarrow> unit result" where
  "transform_validate_config config =
     (if map_of config ''mapping_rules'' = None
      then Inl (config_error (''Missing '' @ quoted ''mapping_rules'' @ '' in transform executor config''))
      else Inr ())"

definition webhook_validate_config :: "jdict \<Rightarrow> unit result" where
  "webhook_validate_config config =
     (case map_of config ''target_url'' of
        None \<Rightarrow> Inl (config_error (''Missing '' @ quoted ''target_url'' @ '' in webhook executor config''))
      | Some v \<Rightarrow>
          (case v of
             JStr s \<Rightarrow>
               if url_prefix_ok s then Inr ()
               else Inl (config_error (''Invalid '' @ quoted ''target_url'' @ '' in webhook executor config''))
           | _ \<Rightarrow> Inl (config_error (''Invalid '' @ quoted ''target_url'' @ '' in webhook executor config''))))"

definition notification_validate_config :: "jdict \<Rightarrow> unit result" where
  "notification_validate_config config =
     (if map_of config ''message'' = None
      then Inl (config_error (''Missing '' @ quoted ''message'' @ '' in notification executor config''))
      else Inr ())"

subsection \<open>Executors inside the process\<close>

text \<open>\<open>path.split(".")\<close>.\<close>

abbreviation split_dots :: "string \<Rightarrow> string list" where
  "split_dots \<equiv> split_char (CHR ''.'')"

text \<open>The loop of \<open>_resolve_path\<close>: a step into a value that is no dictionary ends it with \<open>None\<close>.\<close>

fun resolve_parts :: "json \<Rightarrow> string list \<Rightarrow> json" where
  "resolve_parts v [] = v"
| "resolve_parts v (p # ps) =
     (case v of JObj d \<Rightarrow> resolve_parts (dict_get d p) ps | _ \<Rightarrow> JNull)"

definition resolve_path :: "jdict \<Rightarrow> string \<Rightarrow> json" where
  "resolve_path data path = resolve_parts (JObj data) (split_dots path)"

definition executor_data :: "ExecutionContext \<Rightarrow> jdict" where
  "executor_data cx =
     [(''input'', JObj (cx_workflow_input cx)), (''upstream'', JObj (cx_upstream_outputs cx))]"

definition config_item :: "jdict \<Rightarrow> string \<Rightarrow> json result" where
  "config_item config k = (case map_of config k of None \<Rightarrow> Inl (KeyError k) | Some v \<Rightarrow> Inr v)"

text \<open>The delay executor: the sleep takes time and returns.\<close>

definition delay_execute :: "ExecutionContext \<Rightarrow> ExecutorResult result" where
  "delay_execute cx =
     rbind (config_item (cx_config cx) ''duration_seconds'') (\<lambda>duration.
       Inr \<lparr>r_success = True, r_output = [(''slept_seconds'', duration)], r_error = None\<rparr>)"

definition notification_execute :: "ExecutionContext \<Rightarrow> ExecutorResult result" where
  "notification_execute cx =
     Inr \<lparr>r_success = True, r_output = [(''notified'', JBool True)], r_error = None\<rparr>"

text \<open>
  One rule of the transform executor: a literal, a \<open>value\<close>, a \<open>source\<close> path, or (a dictionary
  with neither key) nothing.
\<close>

definition transform_rule :: "jdict \<Rightarrow> (string \<times> json) \<Rightarrow> jdict \<Rightarrow> jdict result" where
  "transform_rule data kr out =
     (case snd kr of
        JObj rule \<Rightarrow>
          (case map_of rule ''value'' of
             Some v \<Rightarrow> Inr (AList.update (fst kr) v out)
           | None \<Rightarrow>
               (case map_of rule ''source'' of
                  Some (JStr path) \<Rightarrow> Inr (AList.update (fst kr) (resolve_path data path) out)
                | Some _ \<Rightarrow> Inl (AttributeError ''split'')
                | None \<Rightarrow> Inr out))
      | v \<Rightarrow> Inr (AList.update (fst kr) v out))"

definition transform_execute :: "ExecutionContext \<Rightarrow> ExecutorResult result" where
  "transform_execute cx =
     (case map_of (cx_config cx) ''mapping_rules'' of
        None \<Rightarrow> Inr \<lparr>r_success = True, r_output = [], r_error = None\<rparr>
      | Some (JObj rules) \<Rightarrow>
          rbind (rfold (transform_rule (executor_data cx)) rules [])
            (\<lambda>out. Inr \<lparr>r_success = True, r_output = out, r_error = None\<rparr>)
      | Some _ \<Rightarrow> Inl (AttributeError ''items''))"

subsection \<open>Facts\<close>

lemma registry_get_register:
  "registry_get (register ex reg) t =
     (if t = ex_type ex then Inr ex else registry_get reg t)"
  by (simp add: registry_get_def register_def update_conv')

lemma split_dots_nonempty [simp]: "split_dots s \<noteq> []"
  by (induction s) (auto split: list.splits)

lemma resolve_parts_JNull [simp]: "resolve_parts JNull ps = JNull"
  by (cases ps) auto

lemma resolve_parts_append:
  "resolve_parts v (ps @ qs) = resolve_parts (resolve_parts v ps) qs"
proof (induction ps arbitrary: v)
  case (Cons p ps)
  then show ?case by (cases v) simp_all
qed simp

lemma split_dots_join:
  "split_dots (s @ CHR ''.'' # t) = split_dots s @ split_dots t"
proof (induction s)
  case (Cons c s)
  then show ?case by (cases "split_dots s") auto
qed simp

lemma transform_rule_other_key:
  "transform_rule data kr out = Inr out' \<Longrightarrow> k \<noteq> fst kr \<Longrightarrow> map_of out' k = map_of out k"
  by (auto simp: transform_rule_def update_conv' split: json.splits option.splits)

end
