(* ===== verification/Dag_Validator.thy ===== *)
theory Dag_Validator
  imports Executors
begin

section \<open>DAG validation: Kahn's algorithm\<close>

text \<open>
  \<open>app/services/dag_validator.py\<close>. The three loops of \<open>validate_workflow\<close> are kept apart:
  \<open>check_node\<close> (duplicate ids, executor type and configuration), \<open>add_edge\<close> (dangling edges,
  adjacency lists and in-degrees) and \<open>kahn\<close> (the queue of Kahn's algorithm), each with the
  exceptions of the source. The dictionaries are association lists, so their iteration order
  is the insertion order Python guarantees. The lemmas show that the validator accepts exactly
  the acyclic, well-referenced, well-configured definitions, and that what it returns is a
  topological order of all nodes together with exactly the nodes without parents.
\<close>

record ValidationResult =
  valid :: bool
  root_nodes :: "string list"
  topological_order :: "string list"

subsection \<open>The validator\<close>

definition check_node ::
  "ExecutorRegistry \<Rightarrow> Node \<Rightarrow> (string \<times> Node) list \<Rightarrow> (string \<times> Node) list result" where
  "check_node registry node nodes_by_id =
     (if map_of nodes_by_id (n_id node) \<noteq> None
      then Inl (app_error (''Duplicate node ID detected: '' @ quoted (n_id node)) ''duplicate_node_id'')
      else
        (case registry_get registry (n_type node) of
           Inl (AppError m c st) \<Rightarrow>
             Inl (app_error (''Unknown executor type '' @ quoted (n_type node) @ '' for node '' @
               quoted (n_id node)) ''unknown_executor_type'')
         | Inl e \<Rightarrow> Inl e
         | Inr executor \<Rightarrow>
             (case validate_config executor (n_config node) of
                Inl (AppError m c st) \<Rightarrow>
                  Inl (app_error (''Invalid config for node '' @ quoted (n_id node) @ '': '' @ m)
                    ''invalid_executor_config'')
              | Inl e \<Rightarrow> Inl e
              | Inr _ \<Rightarrow> Inr (AList.update (n_id node) node nodes_by_id))))"

type_synonym adjacency = "(string \<times> string list) list"
type_synonym degrees = "(string \<times> int) list"

text \<open>Reading a \<open>defaultdict(list)\<close>.\<close>

definition adj_get :: "adjacency \<Rightarrow> string \<Rightarrow> string list" where
  "adj_get adj k = (case map_of adj k of None \<Rightarrow> [] | Some ns \<Rightarrow> ns)"

definition add_edge ::
  "(string \<times> Node) list \<Rightarrow> Edge \<Rightarrow> adjacency \<times> degrees \<Rightarrow> (adjacency \<times> degrees) result" where
  "add_edge nodes_by_id e st =
     (if map_of nodes_by_id (from_node e) = None
      then Inl (app_error (''Edge refers to missing source node: '' @ quoted (from_node e))
        ''missing_edge_reference'')
      else if map_of nodes_by_id (to_node e) = None
      then Inl (app_error (''Edge refers to missing target node: '' @ quoted (to_node e))
        ''missing_edge_reference'')
      else
        (case map_of (snd st) (to_node e) of
           None \<Rightarrow> Inl (KeyError (to_node e))
         | Some n \<Rightarrow>
             Inr (AList.update (from_node e) (adj_get (fst st) (from_node e) @ [to_node e]) (fst st),
                  AList.update (to_node e) (n + 1) (snd st))))"

text \<open>The inner loop over \<open>adj[curr]\<close>.\<close>

fun relax :: "string list \<Rightarrow> string list \<Rightarrow> degrees \<Rightarrow> (string list \<times> degrees) result" where
  "relax [] queue in_degree = Inr (queue, in_degree)"
| "relax (neighbor # ns) queue in_degree =
     (case map_of in_degree neighbor of
        None \<Rightarrow> Inl (KeyError neighbor)
      | Some n \<Rightarrow>
          relax ns (if n - 1 = 0 then queue @ [neighbor] else queue)
            (AList.update neighbor (n - 1) in_degree))"

text \<open>
  What bounds the outer loop: a key whose in-degree is positive enters the queue at most once
  more, and each turn takes one key out of the queue.
\<close>

definition positives :: "degrees \<Rightarrow> nat" where
  "positives deg = length (filter (\<lambda>kv. 0 < snd kv) deg)"

lemma positives_update:
  "map_of deg k = Some n \<Longrightarrow>
   positives (AList.update k m deg) + (if 0 < n then 1 else 0) = positives deg + (if 0 < m then 1 else 0)"
  by (induction deg) (auto simp: positives_def)

lemma relax_measure:
  "relax ns q deg = Inr (q', deg') \<Longrightarrow>
   length q' + positives deg' \<le> length q + positives deg"
proof (induction ns q deg rule: relax.induct)
  case (2 v ns q deg)
  from "2.prems" obtain n where n: "map_of deg v = Some n"
    and r: "relax ns (if n - 1 = 0 then q @ [v] else q) (AList.update v (n - 1) deg) = Inr (q', deg')"
    by (auto split: option.splits)
  have "length q' + positives deg' \<le>
      length (if n - 1 = 0 then q @ [v] else q) + positives (AList.update v (n - 1) deg)"
    using "2.IH" [OF n r] .
  moreover have "length (if n - 1 = 0 then q @ [v] else q) + positives (AList.update v (n - 1) deg)
      \<le> length q + positives deg"
    using positives_update [OF n, of "n - 1"] by (cases "n = 1") (auto split: if_splits)
  ultimately show ?case by linarith
qed simp

function kahn :: "adjacency \<Rightarrow> string list \<Rightarrow> degrees \<Rightarrow> string list \<Rightarrow> string list result" where
  "kahn adj [] in_degree order = Inr order"
| "kahn adj (current # queue) in_degree order =
     rbind (relax (adj_get adj current) queue in_degree)
       (\<lambda>st. kahn adj (fst st) (snd st) (order @ [current]))"
  by pat_completeness auto
termination
  by (relation "measure (\<lambda>(adj, q, deg, ord). length q + positives deg)")
    (auto dest!: relax_measure)

definition cycle_error :: "string \<Rightarrow> exn" where
  "cycle_error msg = app_error msg ''cycle_detected''"

definition validate_workflow :: "WorkflowDefinition \<Rightarrow> ExecutorRegistry \<Rightarrow> ValidationResult result" where
  "validate_workflow workflow registry =
     rbind (rfold (check_node registry) (nodes workflow) []) (\<lambda>nodes_by_id.
     rbind (rfold (add_edge nodes_by_id) (edges workflow)
        ([], map (\<lambda>node. (n_id node, 0)) (nodes workflow))) (\<lambda>st.
     let queue = map fst (filter (\<lambda>kv. snd kv = 0) (snd st)) in
     if queue = [] \<and> nodes workflow \<noteq> []
     then Inl (cycle_error ''Workflow contains a cycle and has no root nodes.'')
     else
       rbind (kahn (fst st) queue (snd st) []) (\<lambda>order.
         if length order \<noteq> length (nodes workflow)
         then Inl (cycle_error ''Workflow contains a cycle.'')
         else Inr \<lparr>valid = True, root_nodes = queue, topological_order = order\<rparr>)))"

subsection \<open>Specification\<close>

definition edge_rel :: "WorkflowDefinition \<Rightarrow> (string \<times> string) set" where
  "edge_rel d = (\<lambda>e. (from_node e, to_node e)) ` set (edges d)"

definition edges_closed :: "WorkflowDefinition \<Rightarrow> bool" where
  "edges_closed d \<longleftrightarrow>
     (\<forall>e \<in> set (edges d). from_node e \<in> set (node_ids d) \<and> to_node e \<in> set (node_ids d))"

definition configs_ok :: "WorkflowDefinition \<Rightarrow> ExecutorRegistry \<Rightarrow> bool" where
  "configs_ok d reg \<longleftrightarrow>
     (\<forall>n \<in> set (nodes d). \<exists>ex. map_of reg (n_type n) = Some ex \<and> validate_config ex (n_config n) = Inr ())"

text \<open>Every edge into the \<open>i\<close>-th element of the list starts among the elements before it.\<close>

definition topological :: "(string \<times> string) set \<Rightarrow> string list \<Rightarrow> bool" where
  "topological E xs \<longleftrightarrow> (\<forall>i < length xs. \<forall>u. (u, xs ! i) \<in> E \<longrightarrow> u \<in> set (take i xs))"

definition roots :: "WorkflowDefinition \<Rightarrow> string list" where
  "roots d = filter (\<lambda>n. parent_ids d n = []) (node_ids d)"

subsection \<open>The node loop\<close>

lemma check_nodes_Inr:
  "rfold (check_node reg) ns acc = Inr m \<longleftrightarrow>
     distinct (map n_id ns) \<and> (\<forall>n \<in> set ns. n_id n \<notin> fst ` set acc) \<and>
     (\<forall>n \<in> set ns. \<exists>ex. map_of reg (n_type n) = Some ex \<and> validate_config ex (n_config n) = Inr ()) \<and>
     m = acc @ map (\<lambda>n. (n_id n, n)) ns"
proof (induction ns arbitrary: acc)
  case Nil
  then show ?case by auto
next
  case (Cons n ns)
  have step: "check_node reg n acc = Inr acc' \<longleftrightarrow>
      n_id n \<notin> fst ` set acc \<and> acc' = acc @ [(n_id n, n)] \<and>
      (\<exists>ex. map_of reg (n_type n) = Some ex \<and> validate_config ex (n_config n) = Inr ())" for acc'
    by (cases "map_of reg (n_type n)"; cases "map_of acc (n_id n)")
      (auto simp: check_node_def registry_get_def app_error_def map_of_eq_None_iff [of acc] dict_update_new
        dest: dict_Some_key split: sum.splits exn.splits)
  show ?case by (auto simp: rbind_eq_Inr step Cons.IH image_iff)
qed

subsection \<open>The edge loop\<close>

definition indeg_outside :: "Edge list \<Rightarrow> string set \<Rightarrow> string \<Rightarrow> nat" where
  "indeg_outside es D v = length (filter (\<lambda>e. to_node e = v \<and> from_node e \<notin> D) es)"

lemma add_edges_Inr:
  assumes "\<And>e. e \<in> set es \<Longrightarrow>
      map_of m (from_node e) \<noteq> None \<and> map_of m (to_node e) \<noteq> None \<and> to_node e \<in> fst ` set deg"
  shows "\<exists>adj' deg'. rfold (add_edge m) es (adj, deg) = Inr (adj', deg') \<and>
     map fst deg' = map fst deg \<and>
     (\<forall>u. adj_get adj' u = adj_get adj u @ map to_node (filter (\<lambda>e. from_node e = u) es)) \<and>
     (\<forall>v n. map_of deg v = Some n \<longrightarrow> map_of deg' v = Some (n + int (indeg_outside es {} v)))"
  using assms
proof (induction es arbitrary: adj deg)
  case Nil
  then show ?case by (auto simp: indeg_outside_def)
next
  case (Cons e es)
  from Cons.prems [of e] obtain n where n: "map_of deg (to_node e) = Some n"
    using dict_key_Some [of "to_node e" deg] by auto
  let ?adj = "AList.update (from_node e) (adj_get adj (from_node e) @ [to_node e]) adj"
  let ?deg = "AList.update (to_node e) (n + 1) deg"
  have k: "map fst ?deg = map fst deg" using Cons.prems [of e] by (simp add: dict_update_keys)
  then have "fst ` set ?deg = fst ` set deg" by (metis list.set_map)
  with Cons.prems have "\<exists>adj' deg'. rfold (add_edge m) es (?adj, ?deg) = Inr (adj', deg') \<and>
     map fst deg' = map fst ?deg \<and>
     (\<forall>u. adj_get adj' u = adj_get ?adj u @ map to_node (filter (\<lambda>e. from_node e = u) es)) \<and>
     (\<forall>v n. map_of ?deg v = Some n \<longrightarrow> map_of deg' v = Some (n + int (indeg_outside es {} v)))"
    by (intro Cons.IH) auto
  then obtain adj' deg' where ih: "rfold (add_edge m) es (?adj, ?deg) = Inr (adj', deg')"
     "map fst deg' = map fst ?deg"
     "\<And>u. adj_get adj' u = adj_get ?adj u @ map to_node (filter (\<lambda>e. from_node e = u) es)"
     "\<And>v n. map_of ?deg v = Some n \<Longrightarrow> map_of deg' v = Some (n + int (indeg_outside es {} v))"
    by blast
  have "add_edge m e (adj, deg) = Inr (?adj, ?deg)"
    using Cons.prems [of e] n by (auto simp: add_edge_def)
  then show ?case
    using ih k n by (auto simp: adj_get_def update_conv' indeg_outside_def)
qed

lemma add_edges_dangling:
  assumes "rfold (add_edge m) es st = Inr st'" and "e \<in> set es"
  shows "map_of m (from_node e) \<noteq> None \<and> map_of m (to_node e) \<noteq> None"
  using assms
proof (induction es arbitrary: st)
  case (Cons a es)
  then show ?case
    by (auto simp: rbind_eq_Inr add_edge_def split: if_splits option.splits)
qed simp

subsection \<open>One turn of the queue\<close>

lemma relax_Inr:
  assumes "\<And>k. k \<in> set ns \<Longrightarrow> \<exists>n. map_of deg k = Some n \<and> int (count_list ns k) \<le> n"
  shows "\<exists>news deg'. relax ns q deg = Inr (q @ news, deg') \<and> map fst deg' = map fst deg \<and>
     distinct news \<and> set news = {k \<in> set ns. map_of deg k = Some (int (count_list ns k))} \<and>
     (\<forall>k n. map_of deg k = Some n \<longrightarrow> map_of deg' k = Some (n - int (count_list ns k)))"
  using assms
proof (induction ns arbitrary: q deg)
  case Nil
  then show ?case by auto
next
  case (Cons v ns)
  from Cons.prems [of v] obtain n where n: "map_of deg v = Some n" "1 + int (count_list ns v) \<le> n"
    by auto
  let ?deg = "AList.update v (n - 1) deg"
  let ?q = "if n - 1 = 0 then q @ [v] else q"
  have keys: "map fst ?deg = map fst deg" using dict_Some_key [OF n(1)] by (rule dict_update_keys)
  have "\<And>k. k \<in> set ns \<Longrightarrow> \<exists>n. map_of ?deg k = Some n \<and> int (count_list ns k) \<le> n"
    using Cons.prems n by (fastforce simp: update_conv' split: if_splits)
  from Cons.IH [OF this, of ?q] obtain news deg' where ih:
     "relax ns ?q ?deg = Inr (?q @ news, deg')" "map fst deg' = map fst ?deg" "distinct news"
     "set news = {k \<in> set ns. map_of ?deg k = Some (int (count_list ns k))}"
     "\<And>k n. map_of ?deg k = Some n \<Longrightarrow> map_of deg' k = Some (n - int (count_list ns k))"
    by blast
  let ?news = "(if n - 1 = 0 then [v] else []) @ news"
  have cnt0: "n - 1 = 0 \<Longrightarrow> v \<notin> set ns" using n(2) count_list_0_iff [of ns v] by auto
  have r: "relax (v # ns) q deg = Inr (q @ ?news, deg')" using n(1) ih(1) by auto
  have mem: "k \<in> set news \<longleftrightarrow> k \<in> set ns \<and> map_of ?deg k = Some (int (count_list ns k))" for k
    using ih(4) by blast
  have d: "distinct ?news" using ih(3) mem [of v] cnt0 by auto
  have sn: "set ?news = {k \<in> set (v # ns). map_of deg k = Some (int (count_list (v # ns) k))}"
  proof (rule set_eqI)
    fix k
    show "k \<in> set ?news \<longleftrightarrow> k \<in> {k \<in> set (v # ns). map_of deg k = Some (int (count_list (v # ns) k))}"
      using mem [of k] n count_list_0_iff [of ns v] by (cases "k = v") (auto simp: update_conv')
  qed
  have dv: "\<forall>k n. map_of deg k = Some n \<longrightarrow> map_of deg' k = Some (n - int (count_list (v # ns) k))"
  proof (intro allI impI)
    fix k m
    assume m: "map_of deg k = Some m"
    show "map_of deg' k = Some (m - int (count_list (v # ns) k))"
      using ih(5) [of k] m n(1) by (cases "k = v") (auto simp: update_conv')
  qed
  show ?case
    by (rule exI [of _ ?news], rule exI [of _ deg']) (intro conjI r d sn dv, simp only: ih(2) keys)
qed

subsection \<open>The invariant of the queue\<close>

definition adj_ok :: "WorkflowDefinition \<Rightarrow> adjacency \<Rightarrow> bool" where
  "adj_ok d adj \<longleftrightarrow> (\<forall>u. adj_get adj u = child_ids d u)"

definition kahn_inv :: "WorkflowDefinition \<Rightarrow> degrees \<Rightarrow> string list \<Rightarrow> string list \<Rightarrow> bool" where
  "kahn_inv d deg q ord \<longleftrightarrow>
     distinct (ord @ q) \<and> set (ord @ q) \<subseteq> set (node_ids d) \<and> topological (edge_rel d) ord \<and>
     (\<forall>v \<in> set (node_ids d).
        map_of deg v = Some (int (indeg_outside (edges d) (set ord) v)) \<and>
        (v \<in> set (ord @ q) \<longleftrightarrow> indeg_outside (edges d) (set ord) v = 0))"

lemma indeg_outside_insert:
  "c \<notin> D \<Longrightarrow> indeg_outside es D v =
     indeg_outside es (insert c D) v + count_list (map to_node (filter (\<lambda>e. from_node e = c) es)) v"
  by (induction es) (auto simp: indeg_outside_def)

lemma indeg_outside_0:
  "indeg_outside (edges d) D v = 0 \<longleftrightarrow> (\<forall>u. (u, v) \<in> edge_rel d \<longrightarrow> u \<in> D)"
  by (auto simp: indeg_outside_def filter_empty_conv edge_rel_def)

lemma topological_snoc:
  "topological E (xs @ [c]) \<longleftrightarrow> topological E xs \<and> (\<forall>u. (u, c) \<in> E \<longrightarrow> u \<in> set xs)"
  by (auto simp: topological_def nth_append less_Suc_eq all_conj_distrib)

lemma kahn_step:
  assumes inv: "kahn_inv d deg (c # q) ord" and adj: "adj_ok d adj" and cl: "edges_closed d"
  shows "\<exists>q' deg'. relax (adj_get adj c) q deg = Inr (q', deg') \<and> kahn_inv d deg' q' (ord @ [c])"
proof -
  let ?ns = "child_ids d c"
  let ?in = "indeg_outside (edges d)"
  from inv have c: "c \<in> set (node_ids d)" "c \<notin> set ord" "?in (set ord) c = 0"
    and dist: "distinct (ord @ c # q)" and sub: "set (ord @ c # q) \<subseteq> set (node_ids d)"
    and topo: "topological (edge_rel d) ord"
    and deg: "\<And>v. v \<in> set (node_ids d) \<Longrightarrow> map_of deg v = Some (int (?in (set ord) v))"
    and zero: "\<And>v. v \<in> set (node_ids d) \<Longrightarrow> v \<in> set (ord @ c # q) \<longleftrightarrow> ?in (set ord) v = 0"
    by (auto simp: kahn_inv_def)
  have drop: "?in (set ord) v = ?in (insert c (set ord)) v + count_list ?ns v" for v
    using indeg_outside_insert [OF c(2)] by (simp add: child_ids_def)
  have ns: "set ?ns \<subseteq> set (node_ids d)"
    using cl by (auto simp: edges_closed_def in_child_ids)
  have le: "\<exists>n. map_of deg k = Some n \<and> int (count_list ?ns k) \<le> n" if "k \<in> set ?ns" for k
    using deg [of k] drop [of k] ns that by auto
  obtain news deg' where r: "relax ?ns q deg = Inr (q @ news, deg')"
    and news: "distinct news" "set news = {k \<in> set ?ns. map_of deg k = Some (int (count_list ?ns k))}"
    and deg': "\<And>k n. map_of deg k = Some n \<Longrightarrow> map_of deg' k = Some (n - int (count_list ?ns k))"
    using relax_Inr [of ?ns deg q] le by blast
  have in_news: "k \<in> set news \<longleftrightarrow> 0 < count_list ?ns k \<and> ?in (insert c (set ord)) k = 0" for k
    using news(2) deg [of k] drop [of k] ns count_list_0_iff [of ?ns k] by auto
  have fresh: "k \<in> set news \<Longrightarrow> k \<notin> set (ord @ c # q)" for k
    using in_news [of k] zero [of k] drop [of k] ns news(2) by auto
  have "kahn_inv d deg' (q @ news) (ord @ [c])"
    unfolding kahn_inv_def
  proof (intro conjI ballI)
    show "distinct ((ord @ [c]) @ q @ news)" using dist news(1) fresh by auto
    show "set ((ord @ [c]) @ q @ news) \<subseteq> set (node_ids d)" using sub ns news(2) by auto
    show "topological (edge_rel d) (ord @ [c])"
      using topo c(3) by (simp add: topological_snoc indeg_outside_0)
    fix v assume v: "v \<in> set (node_ids d)"
    show "map_of deg' v = Some (int (?in (set (ord @ [c])) v))"
      using deg' [OF deg [OF v]] drop [of v] by simp
    show "v \<in> set ((ord @ [c]) @ q @ news) \<longleftrightarrow> ?in (set (ord @ [c])) v = 0"
      using zero [OF v] in_news [of v] drop [of v] by auto
  qed
  with r adj show ?thesis by (auto simp: adj_ok_def)
qed

lemma kahn_total:
  assumes "kahn_inv d deg q ord" and "adj_ok d adj" and "edges_closed d"
  shows "\<exists>ord' deg'. kahn adj q deg ord = Inr ord' \<and> kahn_inv d deg' [] ord'"
  using assms
proof (induction adj q deg ord rule: kahn.induct)
  case (1 adj deg ord)
  then show ?case by auto
next
  case (2 adj c q deg ord)
  from kahn_step [OF "2.prems"] obtain q' deg' where
    "relax (adj_get adj c) q deg = Inr (q', deg')" "kahn_inv d deg' q' (ord @ [c])" by blast
  with "2.IH" [of "(q', deg')"] "2.prems" show ?case by auto
qed

lemma topological_trancl:
  assumes "topological E xs" and "(u, v) \<in> E\<^sup>+" and "i < length xs" and "xs ! i = v"
  shows "\<exists>j < i. xs ! j = u"
  using assms(2,3,4)
proof (induction arbitrary: i rule: trancl.induct)
  case (r_into_trancl a b)
  then have "a \<in> set (take i xs)" using assms(1) by (auto simp: topological_def)
  then show ?case using r_into_trancl.prems by (auto simp: in_set_conv_nth)
next
  case (trancl_into_trancl a b c)
  then have "b \<in> set (take i xs)" using assms(1) by (auto simp: topological_def)
  then obtain k where "k < i" "k < length xs" "xs ! k = b"
    using trancl_into_trancl.prems by (auto simp: in_set_conv_nth)
  with trancl_into_trancl.IH [of k] show ?case by (meson less_trans)
qed

lemma topological_acyclic:
  assumes "topological E xs" and "distinct xs" and "Range E \<subseteq> set xs"
  shows "acyclic E"
proof (rule acyclicI, rule allI, rule notI)
  fix x assume cyc: "(x, x) \<in> E\<^sup>+"
  then have "x \<in> set xs" using assms(3) by (metis Range.intros subsetD trancl_range)
  then obtain i where i: "i < length xs" "xs ! i = x" by (auto simp: in_set_conv_nth)
  from topological_trancl [OF assms(1) cyc i] obtain j where "j < i" "xs ! j = x" by blast
  with i assms(2) show False by (metis less_trans nat_neq_iff nth_eq_iff_index_eq)
qed

lemma kahn_final_complete:
  assumes inv: "kahn_inv d deg [] ord" and cl: "edges_closed d" and ac: "acyclic (edge_rel d)"
  shows "set ord = set (node_ids d)"
proof -
  have "finite (edge_rel d)" by (simp add: edge_rel_def)
  with ac have wf: "wf (edge_rel d)" by (simp add: finite_acyclic_wf)
  have sub: "set ord \<subseteq> set (node_ids d)" using inv by (simp add: kahn_inv_def)
  have "set (node_ids d) - set ord = {}"
  proof (rule ccontr)
    assume "set (node_ids d) - set ord \<noteq> {}"
    then obtain z where z: "z \<in> set (node_ids d) - set ord"
      and min: "\<And>y. (y, z) \<in> edge_rel d \<Longrightarrow> y \<notin> set (node_ids d) - set ord"
      using wfE_min [OF wf] by (metis ex_in_conv)
    have "indeg_outside (edges d) (set ord) z \<noteq> 0" using inv z by (auto simp: kahn_inv_def)
    then obtain u where u: "(u, z) \<in> edge_rel d" "u \<notin> set ord" by (auto simp: indeg_outside_0)
    moreover have "u \<in> set (node_ids d)" using u(1) cl by (auto simp: edge_rel_def edges_closed_def)
    ultimately show False using min by blast
  qed
  with sub show ?thesis by blast
qed

text \<open>A final order misses a node exactly when the edges have a cycle.\<close>

lemma kahn_final_acyclic:
  assumes inv: "kahn_inv d deg [] ord" and cl: "edges_closed d"
  shows "length ord = length (node_ids d) \<and> distinct (node_ids d) \<longleftrightarrow>
    acyclic (edge_rel d) \<and> distinct (node_ids d)"
proof -
  have ord: "topological (edge_rel d) ord" "distinct ord" "set ord \<subseteq> set (node_ids d)"
    using inv by (auto simp: kahn_inv_def)
  have same: "length ord = length (node_ids d) \<longleftrightarrow> set ord = set (node_ids d)"
    if "distinct (node_ids d)"
    using that ord(2,3) by (metis card_subset_eq distinct_card List.finite_set)
  have range: "Range (edge_rel d) \<subseteq> set (node_ids d)"
    using cl by (auto simp: edge_rel_def edges_closed_def)
  show ?thesis
    using same topological_acyclic [OF ord(1,2)] range kahn_final_complete [OF inv cl] by auto
qed

subsection \<open>The validator as a whole\<close>

lemma node_loop_Inr:
  "rfold (check_node reg) (nodes d) [] = Inr m \<longleftrightarrow>
     distinct (node_ids d) \<and> configs_ok d reg \<and> m = map (\<lambda>n. (n_id n, n)) (nodes d)"
  by (simp add: check_nodes_Inr node_ids_def configs_ok_def)

lemma nodes_by_id_keys: "map_of (map (\<lambda>n. (n_id n, n)) ns) k = None \<longleftrightarrow> k \<notin> n_id ` set ns"
  by (simp add: map_of_eq_None_iff image_image)

lemma zero_degrees: "v \<in> n_id ` set ns \<Longrightarrow> map_of (map (\<lambda>n. (n_id n, 0::int)) ns) v = Some 0"
  by (induction ns) auto

lemma edge_loop_Inr:
  assumes "distinct (node_ids d)" and "edges_closed d"
  shows "\<exists>adj deg. rfold (add_edge (map (\<lambda>n. (n_id n, n)) (nodes d))) (edges d)
        ([], map (\<lambda>n. (n_id n, 0)) (nodes d)) = Inr (adj, deg) \<and>
      adj_ok d adj \<and> map fst (filter (\<lambda>kv. snd kv = 0) deg) = roots d \<and> kahn_inv d deg (roots d) []"
proof -
  let ?m = "map (\<lambda>n. (n_id n, n)) (nodes d)" and ?deg0 = "map (\<lambda>n. (n_id n, 0::int)) (nodes d)"
  have "\<And>e. e \<in> set (edges d) \<Longrightarrow>
      map_of ?m (from_node e) \<noteq> None \<and> map_of ?m (to_node e) \<noteq> None \<and> to_node e \<in> fst ` set ?deg0"
    using assms(2) by (auto simp: nodes_by_id_keys edges_closed_def node_ids_def image_image)
  from add_edges_Inr [of "edges d" ?m ?deg0 "[]", OF this] obtain adj deg where
    r: "rfold (add_edge ?m) (edges d) ([], ?deg0) = Inr (adj, deg)"
    and keys: "map fst deg = map fst ?deg0"
    and adj: "\<And>u. adj_get adj u = adj_get [] u @ map to_node (filter (\<lambda>e. from_node e = u) (edges d))"
    and dv: "\<And>v n. map_of ?deg0 v = Some n \<Longrightarrow> map_of deg v = Some (n + int (indeg_outside (edges d) {} v))"
    by blast
  have kd: "map fst deg = node_ids d" using keys by (simp add: node_ids_def comp_def)
  have val: "map_of deg v = Some (int (indeg_outside (edges d) {} v))" if "v \<in> set (node_ids d)" for v
    using dv [of v 0] zero_degrees [of v "nodes d"] that by (simp add: node_ids_def)
  have par: "parent_ids d v = [] \<longleftrightarrow> indeg_outside (edges d) {} v = 0" for v
    by (simp add: parent_ids_def indeg_outside_def)
  have deg_eq: "deg = map (\<lambda>k. (k, int (indeg_outside (edges d) {} k))) (node_ids d)"
    using dict_determined [of deg "\<lambda>k. int (indeg_outside (edges d) {} k)"] kd assms(1) val
    by (metis list.set_map)
  have "map fst (filter (\<lambda>kv. snd kv = 0) deg) = roots d"
    by (simp add: deg_eq roots_def par filter_map comp_def)
  moreover have "kahn_inv d deg (roots d) []"
    using assms(1) val by (auto simp: kahn_inv_def roots_def par topological_def)
  ultimately show ?thesis using r adj by (auto simp: adj_ok_def adj_get_def child_ids_def)
qed

lemma edge_loop_closed:
  assumes "rfold (add_edge (map (\<lambda>n. (n_id n, n)) (nodes d))) (edges d) st = Inr st'"
  shows "edges_closed d"
  using add_edges_dangling [OF assms] by (auto simp: edges_closed_def nodes_by_id_keys node_ids_def)

lemma validate_workflow_needs:
  assumes "validate_workflow d reg = Inr r"
  shows "distinct (node_ids d) \<and> configs_ok d reg \<and> edges_closed d"
proof -
  from assms obtain m st where m: "rfold (check_node reg) (nodes d) [] = Inr m"
    and st: "rfold (add_edge m) (edges d) ([], map (\<lambda>n. (n_id n, 0)) (nodes d)) = Inr st"
    by (auto simp: validate_workflow_def rbind_eq_Inr)
  then show ?thesis using edge_loop_closed by (auto simp: node_loop_Inr)
qed

text \<open>Past the two checking loops, the outcome depends on the order Kahn's loop ends with.\<close>

lemma validate_workflow_graph:
  assumes dist: "distinct (node_ids d)" and cfg: "configs_ok d reg" and cl: "edges_closed d"
  obtains ord deg where "kahn_inv d deg [] ord" and "roots d = [] \<Longrightarrow> ord = []"
    and "validate_workflow d reg =
      (if roots d = [] \<and> nodes d \<noteq> []
       then Inl (cycle_error ''Workflow contains a cycle and has no root nodes.'')
       else if length ord \<noteq> length (nodes d) then Inl (cycle_error ''Workflow contains a cycle.'')
       else Inr \<lparr>valid = True, root_nodes = roots d, topological_order = ord\<rparr>)"
proof -
  from edge_loop_Inr [OF dist cl] obtain adj deg where
    e: "rfold (add_edge (map (\<lambda>n. (n_id n, n)) (nodes d))) (edges d)
        ([], map (\<lambda>n. (n_id n, 0)) (nodes d)) = Inr (adj, deg)"
    and adj: "adj_ok d adj" and q: "map fst (filter (\<lambda>kv. snd kv = 0) deg) = roots d"
    and inv: "kahn_inv d deg (roots d) []" by blast
  from kahn_total [OF inv adj cl] obtain ord deg' where
    k: "kahn adj (roots d) deg [] = Inr ord" and inv': "kahn_inv d deg' [] ord" by blast
  have n: "rfold (check_node reg) (nodes d) [] = Inr (map (\<lambda>n. (n_id n, n)) (nodes d))"
    using dist cfg by (simp add: node_loop_Inr)
  show thesis
  proof (rule that [OF inv'])
    show "ord = []" if "roots d = []" using k that by simp
    show "validate_workflow d reg =
      (if roots d = [] \<and> nodes d \<noteq> []
       then Inl (cycle_error ''Workflow contains a cycle and has no root nodes.'')
       else if length ord \<noteq> length (nodes d) then Inl (cycle_error ''Workflow contains a cycle.'')
       else Inr \<lparr>valid = True, root_nodes = roots d, topological_order = ord\<rparr>)"
      by (simp only: validate_workflow_def n e rbind_Inr fst_conv snd_conv Let_def q k)
  qed
qed

lemma validate_workflow_Inr_iff:
  "(\<exists>r. validate_workflow d reg = Inr r) \<longleftrightarrow>
     distinct (node_ids d) \<and> configs_ok d reg \<and> edges_closed d \<and> acyclic (edge_rel d)"
proof (cases "distinct (node_ids d) \<and> configs_ok d reg \<and> edges_closed d")
  case True
  then obtain ord deg where inv: "kahn_inv d deg [] ord" "roots d = [] \<Longrightarrow> ord = []"
    and eq: "validate_workflow d reg =
      (if roots d = [] \<and> nodes d \<noteq> []
       then Inl (cycle_error ''Workflow contains a cycle and has no root nodes.'')
       else if length ord \<noteq> length (nodes d) then Inl (cycle_error ''Workflow contains a cycle.'')
       else Inr \<lparr>valid = True, root_nodes = roots d, topological_order = ord\<rparr>)"
    using validate_workflow_graph by metis
  have "length ord = length (nodes d) \<longleftrightarrow> acyclic (edge_rel d)"
    using kahn_final_acyclic [OF inv(1)] True by (simp add: node_ids_def)
  with True inv(2) eq show ?thesis by auto
next
  case False
  then show ?thesis using validate_workflow_needs by blast
qed

lemma validate_workflow_result:
  assumes "validate_workflow d reg = Inr r"
  shows "valid r \<and> root_nodes r = roots d \<and> distinct (topological_order r) \<and>
    set (topological_order r) = set (node_ids d) \<and> topological (edge_rel d) (topological_order r)"
proof -
  have pre: "distinct (node_ids d)" "configs_ok d reg" "edges_closed d"
    using validate_workflow_needs [OF assms] by auto
  then obtain ord deg where inv: "kahn_inv d deg [] ord"
    and r: "r = \<lparr>valid = True, root_nodes = roots d, topological_order = ord\<rparr>"
    and len: "length ord = length (nodes d)"
    using assms by (elim validate_workflow_graph) (auto split: if_splits)
  have "acyclic (edge_rel d)"
    using kahn_final_acyclic [OF inv pre(3)] len pre(1) by (simp add: node_ids_def)
  then have "set ord = set (node_ids d)" using kahn_final_complete [OF inv pre(3)] by simp
  with inv r show ?thesis by (simp add: kahn_inv_def)
qed

subsection \<open>A sample definition\<close>

text \<open>
  A diamond of notification nodes, and the registry that holds the notification executor; the
  concrete inputs at which the properties with hypotheses are applied.
\<close>

definition notification_executor :: Executor where
  "notification_executor =
     \<lparr>ex_type = ''notification'', validate_config = notification_validate_config,
      execute = notification_execute\<rparr>"

definition sample_registry :: ExecutorRegistry where
  "sample_registry = register notification_executor []"

definition sample_node :: "string \<Rightarrow> Node" where
  "sample_node i = \<lparr>n_id = i, n_type = ''notification'', n_name = i,
     n_config = [(''message'', JStr ''hello'')], n_retry_policy = None\<rparr>"

definition sample_edge :: "string \<Rightarrow> string \<Rightarrow> Edge" where
  "sample_edge a b = \<lparr>from_node = a, to_node = b, e_condition = None\<rparr>"

definition diamond :: WorkflowDefinition where
  "diamond = \<lparr>d_name = ''diamond'', d_description = [], nodes = map sample_node [''a'', ''b'', ''c'', ''d''],
     edges = [sample_edge ''a'' ''b'', sample_edge ''a'' ''c'', sample_edge ''b'' ''d'', sample_edge ''c'' ''d''],
     default_retry_policy = None\<rparr>"

definition looping :: WorkflowDefinition where
  "looping = diamond\<lparr>edges := sample_edge ''d'' ''a'' # edges diamond\<rparr>"

lemmas sample_defs = diamond_def looping_def sample_node_def sample_edge_def sample_registry_def
  notification_executor_def register_def notification_validate_config_def

subsection \<open>Properties\<close>

text \<open>
  C1: \<open>validate_workflow\<close> accepts a definition exactly when its node ids are distinct, every
  node names a registered executor that accepts its configuration, every edge joins two of the
  nodes, and the edges form no cycle.
\<close>

theorem validate_workflow_accepts:
  "(\<exists>r. validate_workflow d reg = Inr r) \<longleftrightarrow>
     distinct (node_ids d) \<and> configs_ok d reg \<and> edges_closed d \<and> acyclic (edge_rel d)"
  by (rule validate_workflow_Inr_iff)

text \<open>
  C2: what an accepting \<open>validate_workflow\<close> returns: the flag, the nodes without parents in
  definition order, and an enumeration of all nodes, each once, in which every edge starts
  before it ends.
\<close>

theorem validate_workflow_order:
  assumes "validate_workflow d reg = Inr r"
  shows "valid r \<and> root_nodes r = roots d \<and> distinct (topological_order r) \<and>
    set (topological_order r) = set (node_ids d) \<and> topological (edge_rel d) (topological_order r)"
  using assms by (rule validate_workflow_result)

lemma validate_diamond:
  "validate_workflow diamond sample_registry =
     Inr \<lparr>valid = True, root_nodes = [''a''], topological_order = [''a'', ''b'', ''c'', ''d'']\<rparr>"
  by code_simp

theorem validate_workflow_order_witness:
  "validate_workflow diamond sample_registry =
     Inr \<lparr>valid = True, root_nodes = [''a''], topological_order = [''a'', ''b'', ''c'', ''d'']\<rparr> \<and>
   topological (edge_rel diamond) [''a'', ''b'', ''c'', ''d'']"
  using validate_workflow_order [OF validate_diamond] validate_diamond by simp

text \<open>
  C3: on a definition whose nodes and edges pass the checks but whose edges form a cycle,
  \<open>validate_workflow\<close> raises the \<open>cycle_detected\<close> error and nothing else.
\<close>

theorem validate_workflow_cycle:
  assumes "distinct (node_ids d)" and "configs_ok d reg" and "edges_closed d"
    and "\<not> acyclic (edge_rel d)"
  shows "\<exists>msg. validate_workflow d reg = Inl (AppError msg ''cycle_detected'' 400)"
proof -
  have "\<not> (\<exists>r. validate_workflow d reg = Inr r)"
    using validate_workflow_Inr_iff assms(4) by blast
  then show ?thesis
    using assms(1-3) by (elim validate_workflow_graph)
      (auto simp: cycle_error_def app_error_def split: if_splits)
qed


theorem validate_workflow_cycle_witness:
  "\<exists>msg. validate_workflow looping sample_registry = Inl (AppError msg ''cycle_detected'' 400)"
proof (rule validate_workflow_cycle)
  show "distinct (node_ids looping)" and "edges_closed looping" and "configs_ok looping sample_registry"
    by (simp_all add: sample_defs node_ids_def edges_closed_def configs_ok_def)
  have "(''a'', ''b'') \<in> edge_rel looping" "(''b'', ''d'') \<in> edge_rel looping" "(''d'', ''a'') \<in> edge_rel looping"
    by (simp_all add: sample_defs edge_rel_def)
  then have "(''a'', ''a'') \<in> (edge_rel looping)\<^sup>+"
    by (meson r_into_trancl' trancl_into_trancl)
  then show "\<not> acyclic (edge_rel looping)" by (auto simp: acyclic_def)
qed

end
