(* ===== verification/Job_Queue.thy ===== *)
theory Job_Queue
  imports Py_Text Json
begin

section \<open>The job queue: payloads and publishers\<close>

text \<open>
  \<open>app/queue/publisher.py\<close>. A job is written as five string fields and read back
  (\<open>serialize_job_payload\<close>, \<open>deserialize_job_payload\<close>). The protocol \<open>QueuePublisher\<close> is the
  interface \<open>queue_publisher\<close>: what a client may rely on after publishing. The in-memory
  publisher implements it; the Redis publisher does so over any Redis that answers \<open>XADD\<close> as
  documented, with the Redis commands as the record \<open>redis_api\<close> of functions on a server state.
\<close>

record Job =
  j_execution_id :: uuid
  j_node_execution_id :: uuid
  j_workflow_version_id :: uuid
  j_node_id :: string
  j_attempt :: int

type_synonym fields = "(string \<times> string) list"

subsection \<open>Payloads\<close>

definition serialize_job_payload :: "Job \<Rightarrow> fields" where
  "serialize_job_payload j =
     [(''execution_id'', uuid_str (j_execution_id j)),
      (''node_execution_id'', uuid_str (j_node_execution_id j)),
      (''workflow_version_id'', uuid_str (j_workflow_version_id j)),
      (''node_id'', j_node_id j),
      (''attempt'', int_str (j_attempt j))]"

definition field :: "fields \<Rightarrow> string \<Rightarrow> string result" where
  "field fs k = (case map_of fs k of None \<Rightarrow> Inl (KeyError k) | Some v \<Rightarrow> Inr v)"

definition deserialize_job_payload :: "fields \<Rightarrow> Job result" where
  "deserialize_job_payload fs =
     rbind (rbind (field fs ''execution_id'') uuid_parse) (\<lambda>e.
     rbind (rbind (field fs ''node_execution_id'') uuid_parse) (\<lambda>n.
     rbind (rbind (field fs ''workflow_version_id'') uuid_parse) (\<lambda>v.
     rbind (field fs ''node_id'') (\<lambda>i.
     rbind (rbind (field fs ''attempt'') (py_int 10)) (\<lambda>a.
       Inr \<lparr>j_execution_id = e, j_node_execution_id = n, j_workflow_version_id = v,
            j_node_id = i, j_attempt = a\<rparr>)))))"

subsection \<open>The publisher interface\<close>

text \<open>
  \<open>publish_node_execution\<close> returns a message id or \<open>None\<close>, or raises. \<open>jobs\<close> is what has been
  handed over: a call that returns has added its job at the end, a call that raises has not
  added anything before failing.
\<close>

locale queue_publisher =
  fixes publish :: "Job \<Rightarrow> 'q \<Rightarrow> string option result \<times> 'q"
    and jobs :: "'q \<Rightarrow> Job list"
  assumes publish_ok: "publish j q = (Inr m, q') \<Longrightarrow> jobs q' = jobs q @ [j]"
    and publish_fail: "publish j q = (Inl e, q') \<Longrightarrow> jobs q' = jobs q"

subsection \<open>The in-memory publisher\<close>

text \<open>\<open>self.published_jobs\<close>: one dictionary per job, the attempt kept as a number.\<close>

definition memory_payload :: "Job \<Rightarrow> jdict" where
  "memory_payload j =
     [(''execution_id'', JStr (uuid_str (j_execution_id j))),
      (''node_execution_id'', JStr (uuid_str (j_node_execution_id j))),
      (''workflow_version_id'', JStr (uuid_str (j_workflow_version_id j))),
      (''node_id'', JStr (j_node_id j)),
      (''attempt'', JInt (j_attempt j))]"

definition memory_publish :: "Job \<Rightarrow> jdict list \<Rightarrow> string option result \<times> jdict list" where
  "memory_publish j published = (Inr None, published @ [memory_payload j])"

text \<open>Reading such a dictionary back.\<close>

fun json_uuid :: "json \<Rightarrow> uuid" where
  "json_uuid (JStr s) = (case uuid_parse s of Inl _ \<Rightarrow> 0 | Inr u \<Rightarrow> u)"
| "json_uuid _ = 0"

fun json_str :: "json \<Rightarrow> string" where
  "json_str (JStr s) = s"
| "json_str _ = []"

fun json_int :: "json \<Rightarrow> int" where
  "json_int (JInt i) = i"
| "json_int _ = 0"

definition memory_job :: "jdict \<Rightarrow> Job" where
  "memory_job d =
     \<lparr>j_execution_id = json_uuid (dict_get d ''execution_id''),
      j_node_execution_id = json_uuid (dict_get d ''node_execution_id''),
      j_workflow_version_id = json_uuid (dict_get d ''workflow_version_id''),
      j_node_id = json_str (dict_get d ''node_id''),
      j_attempt = json_int (dict_get d ''attempt'')\<rparr>"

lemma memory_job_payload [simp]: "memory_job (memory_payload j) = j"
  by (simp add: memory_job_def memory_payload_def uuid_parse_str)

interpretation memory: queue_publisher memory_publish "map memory_job"
  by unfold_locales (auto simp: memory_publish_def)

subsection \<open>The Redis publisher\<close>

record 'r redis_api =
  xgroup_create :: "string \<Rightarrow> string \<Rightarrow> 'r \<Rightarrow> unit result \<times> 'r"
  xadd :: "string \<Rightarrow> fields \<Rightarrow> 'r \<Rightarrow> string result \<times> 'r"
  xlen :: "string \<Rightarrow> 'r \<Rightarrow> nat result"

record 'r redis_publisher =
  rp_redis :: 'r
  rp_stream_name :: string
  rp_consumer_group :: string
  rp_group_ready :: bool

definition ensure_consumer_group ::
  "'r redis_api \<Rightarrow> 'r redis_publisher \<Rightarrow> unit result \<times> 'r redis_publisher" where
  "ensure_consumer_group api p =
     (if rp_group_ready p then (Inr (), p)
      else
        (case xgroup_create api (rp_stream_name p) (rp_consumer_group p) (rp_redis p) of
           (Inr _, r) \<Rightarrow> (Inr (), p\<lparr>rp_redis := r, rp_group_ready := True\<rparr>)
         | (Inl (ResponseError msg), r) \<Rightarrow>
             if occurs ''BUSYGROUP'' msg then (Inr (), p\<lparr>rp_redis := r, rp_group_ready := True\<rparr>)
             else (Inl (ResponseError msg), p\<lparr>rp_redis := r\<rparr>)
         | (Inl e, r) \<Rightarrow> (Inl e, p\<lparr>rp_redis := r\<rparr>)))"

definition redis_publish ::
  "'r redis_api \<Rightarrow> Job \<Rightarrow> 'r redis_publisher \<Rightarrow> string option result \<times> 'r redis_publisher" where
  "redis_publish api j p =
     (case ensure_consumer_group api p of
        (Inl e, p1) \<Rightarrow> (Inl e, p1)
      | (Inr _, p1) \<Rightarrow>
          (case xadd api (rp_stream_name p1) (serialize_job_payload j) (rp_redis p1) of
             (Inl e, r) \<Rightarrow> (Inl e, p1\<lparr>rp_redis := r\<rparr>)
           | (Inr m, r) \<Rightarrow> (Inr (Some m), p1\<lparr>rp_redis := r\<rparr>)))"

definition queue_depth :: "'r redis_api \<Rightarrow> 'r redis_publisher \<Rightarrow> nat result" where
  "queue_depth api p = xlen api (rp_stream_name p) (rp_redis p)"

text \<open>
  What the publisher relies on: \<open>XGROUP CREATE\<close> leaves the entries of a stream alone, \<open>XADD\<close>
  appends the fields to its stream or fails without adding, and touches no other stream.
  \<open>entries\<close> reads a stream of the server.
\<close>

definition redis_streams :: "'r redis_api \<Rightarrow> ('r \<Rightarrow> string \<Rightarrow> fields list) \<Rightarrow> bool" where
  "redis_streams api entries \<longleftrightarrow>
     (\<forall>s g r. entries (snd (xgroup_create api s g r)) = entries r) \<and>
     (\<forall>s fs r m r'. xadd api s fs r = (Inr m, r') \<longrightarrow> entries r' = (entries r)(s := entries r s @ [fs])) \<and>
     (\<forall>s fs r e r'. xadd api s fs r = (Inl e, r') \<longrightarrow> entries r' = entries r)"

definition redis_jobs :: "('r \<Rightarrow> string \<Rightarrow> fields list) \<Rightarrow> 'r redis_publisher \<Rightarrow> Job list" where
  "redis_jobs entries p =
     List.map_filter (\<lambda>fs. case deserialize_job_payload fs of Inl _ \<Rightarrow> None | Inr j \<Rightarrow> Some j)
       (entries (rp_redis p) (rp_stream_name p))"

subsection \<open>Properties\<close>

lemma deserialize_serialize: "deserialize_job_payload (serialize_job_payload j) = Inr j"
  by (simp add: deserialize_job_payload_def serialize_job_payload_def field_def uuid_parse_str py_int_str)

lemma ensure_consumer_group_stream:
  assumes "redis_streams api entries" and "ensure_consumer_group api p = (res, p')"
  shows "rp_stream_name p' = rp_stream_name p \<and> entries (rp_redis p') = entries (rp_redis p)"
proof -
  have g: "entries (snd (xgroup_create api (rp_stream_name p) (rp_consumer_group p) (rp_redis p))) =
      entries (rp_redis p)"
    using assms(1) unfolding redis_streams_def by blast
  show ?thesis
  proof (cases "xgroup_create api (rp_stream_name p) (rp_consumer_group p) (rp_redis p)")
    case (Pair res r)
    with assms(2) g show ?thesis
      by (auto simp: ensure_consumer_group_def split: if_splits sum.splits exn.splits)
  qed
qed

lemma redis_jobs_snoc:
  "entries (rp_redis p') = (entries (rp_redis p))(rp_stream_name p := entries (rp_redis p) (rp_stream_name p) @ [serialize_job_payload j])
   \<Longrightarrow> rp_stream_name p' = rp_stream_name p \<Longrightarrow> redis_jobs entries p' = redis_jobs entries p @ [j]"
  by (simp add: redis_jobs_def deserialize_serialize List.map_filter_def)

lemma redis_queue_publisher:
  assumes "redis_streams api entries"
  shows "queue_publisher (redis_publish api) (redis_jobs entries)"
proof
  fix j p m p'
  assume pub: "redis_publish api j p = (Inr m, p')"
  then obtain p1 r id where e: "ensure_consumer_group api p = (Inr (), p1)"
    and x: "xadd api (rp_stream_name p1) (serialize_job_payload j) (rp_redis p1) = (Inr id, r)"
    and p': "p' = p1\<lparr>rp_redis := r\<rparr>"
    by (auto simp: redis_publish_def split: prod.splits sum.splits)
  have "entries r = (entries (rp_redis p1))(rp_stream_name p1 :=
      entries (rp_redis p1) (rp_stream_name p1) @ [serialize_job_payload j])"
    using assms x unfolding redis_streams_def by blast
  with ensure_consumer_group_stream [OF assms e] p' show "redis_jobs entries p' = redis_jobs entries p @ [j]"
    by (intro redis_jobs_snoc) auto
next
  fix j p e p'
  assume pub: "redis_publish api j p = (Inl e, p')"
  show "redis_jobs entries p' = redis_jobs entries p"
  proof (cases "ensure_consumer_group api p")
    case (Pair res p1)
    note st = ensure_consumer_group_stream [OF assms Pair]
    show ?thesis
    proof (cases res)
      case (Inl err)
      with pub Pair st show ?thesis by (auto simp: redis_publish_def redis_jobs_def)
    next
      case (Inr u)
      with pub Pair obtain r where
        x: "xadd api (rp_stream_name p1) (serialize_job_payload j) (rp_redis p1) = (Inl e, r)"
        and p': "p' = p1\<lparr>rp_redis := r\<rparr>"
        by (auto simp: redis_publish_def split: prod.splits sum.splits)
      have "entries r = entries (rp_redis p1)" using assms x unfolding redis_streams_def by blast
      with st p' show ?thesis by (simp add: redis_jobs_def)
    qed
  qed
qed

end
