(* ===== verification/Execution_Engine.thy ===== *)
theory Execution_Engine
  imports State_Transition Dag_Validator Job_Queue
begin

section \<open>The execution engine\<close>

text \<open>
  \<open>app/services/execution_engine.py\<close> and the data of \<open>app/transport/contracts.py\<close>. Each public
  method is a function on the world: it opens a session, runs its first unit of work, commits,
  publishes the queued nodes, commits again and flushes the staged events; an exception before the
  first commit leaves the world as it was, one raised by the publisher leaves the committed state.
  The publisher is an argument, and the lemmas about what is published are proved for every
  publisher with the laws of \<open>queue_publisher\<close>.
\<close>

subsection \<open>Commands and results\<close>

record StartExecutionCommand =
  cmd_workflow_version_id :: uuid
  cmd_input_payload :: jdict

record NodeExecutionDTO =
  nd_id :: uuid
  nd_execution_id :: uuid
  nd_node_id :: string
  nd_node_type :: string
  nd_status :: string
  nd_attempt :: int
  nd_max_attempts :: int
  nd_input_payload :: "jdict option"
  nd_output_payload :: "jdict option"
  nd_error_message :: "string option"

record ExecutionDTO =
  xd_id :: uuid
  xd_workflow_id :: uuid
  xd_workflow_version_id :: uuid
  xd_status :: string
  xd_input_payload :: "jdict option"
  xd_error_message :: "string option"
  xd_node_executions :: "NodeExecutionDTO list"

definition node_dto :: "NodeExecution \<Rightarrow> NodeExecutionDTO" where
  "node_dto n =
     \<lparr>nd_id = ne_id n, nd_execution_id = ne_execution_id n, nd_node_id = ne_node_id n,
      nd_node_type = ne_node_type n, nd_status = node_status_name (ne_status n),
      nd_attempt = ne_attempt n, nd_max_attempts = ne_max_attempts n,
      nd_input_payload = ne_input_payload n, nd_output_payload = ne_output_payload n,
      nd_error_message = ne_error_message n\<rparr>"

definition execution_dto :: "Execution \<Rightarrow> NodeExecutionDTO list \<Rightarrow> ExecutionDTO" where
  "execution_dto e ns =
     \<lparr>xd_id = ex_id e, xd_workflow_id = ex_workflow_id e,
      xd_workflow_version_id = ex_workflow_version_id e,
      xd_status = execution_status_name (ex_status e), xd_input_payload = ex_input_payload e,
      xd_error_message = ex_error_message e, xd_node_executions = ns\<rparr>"

subsection \<open>Queries\<close>

text \<open>\<open>join(Workflow).where(Workflow.owner_api_key_id == owner)\<close>, one result per joined pair.\<close>

definition owned :: "database \<Rightarrow> uuid \<Rightarrow> Execution list" where
  "owned db owner =
     concat (map (\<lambda>e. map (\<lambda>_. e)
       (filter (\<lambda>w. wf_id w = ex_workflow_id e \<and> wf_owner_api_key_id w = owner) (workflows db)))
       (executions db))"

definition get_node_executions :: "uuid \<Rightarrow> uuid \<Rightarrow> database \<Rightarrow> NodeExecutionDTO list result" where
  "get_node_executions execution_id owner db =
     rbind (scalar_one_or_none (filter (\<lambda>e. ex_id e = execution_id) (owned db owner))) (\<lambda>found.
     case found of
       None \<Rightarrow> Inr []
     | Some _ \<Rightarrow>
         Inr (map node_dto (filter (\<lambda>n. ne_execution_id n = execution_id) (node_executions db))))"

definition get_execution :: "uuid \<Rightarrow> uuid \<Rightarrow> database \<Rightarrow> ExecutionDTO option result" where
  "get_execution execution_id owner db =
     rbind (scalar_one_or_none (filter (\<lambda>e. ex_id e = execution_id) (owned db owner))) (\<lambda>found.
     case found of
       None \<Rightarrow> Inr None
     | Some e \<Rightarrow>
         rbind (get_node_executions execution_id owner db) (\<lambda>node_dtos.
           Inr (Some (execution_dto e node_dtos))))"

definition list_executions ::
  "uuid \<Rightarrow> string option \<Rightarrow> nat \<Rightarrow> nat \<Rightarrow> database \<Rightarrow> ExecutionDTO list result" where
  "list_executions owner status limit offset db =
     rbind
       (case status of
          None \<Rightarrow> Inr (owned db owner)
        | Some name \<Rightarrow>
            (case execution_status_of_name name of
               None \<Rightarrow> Inl (AppError (''Invalid status: '' @ name) ''invalid_status'' 400)
             | Some st \<Rightarrow> Inr (filter (\<lambda>e. ex_status e = st) (owned db owner))))
       (\<lambda>rows. Inr (map (\<lambda>e. execution_dto e [])
          (page limit offset (order_desc_nullslast ex_started_at rows))))"

subsection \<open>Starting an execution\<close>

definition new_execution :: "uuid \<Rightarrow> Workflow \<Rightarrow> WorkflowVersion \<Rightarrow> StartExecutionCommand \<Rightarrow> Execution" where
  "new_execution i workflow version command =
     \<lparr>ex_id = i, ex_workflow_id = wf_id workflow, ex_workflow_version_id = wv_id version,
      ex_status = X_CREATED, ex_started_at = None, ex_finished_at = None, ex_triggered_by = None,
      ex_input_payload = Some (cmd_input_payload command), ex_error_message = None\<rparr>"

definition new_node :: "uuid \<Rightarrow> uuid \<Rightarrow> WorkflowDefinition \<Rightarrow> Node \<Rightarrow> NodeExecution" where
  "new_node i execution_id d node =
     \<lparr>ne_id = i, ne_execution_id = execution_id, ne_node_id = n_id node, ne_node_type = n_type node,
      ne_status = PENDING, ne_attempt = 0,
      ne_max_attempts = max_attempts (resolve_retry_policy node d),
      ne_input_payload = None, ne_output_payload = None, ne_error_message = None,
      ne_idempotency_key = None, ne_redis_message_id = None, ne_worker_id = None,
      ne_queued_at = None, ne_started_at = None, ne_finished_at = None\<rparr>"

fun add_nodes ::
  "uuid \<Rightarrow> WorkflowDefinition \<Rightarrow> Node list \<Rightarrow> session \<Rightarrow> NodeExecution list \<times> session" where
  "add_nodes execution_id d [] s = ([], s)"
| "add_nodes execution_id d (node # ns) s =
     (let (i, s1) = new_uuid s;
          node_exec = new_node i execution_id d node;
          (rest, s2) = add_nodes execution_id d ns
             (modify_db (node_executions_update (\<lambda>rs. rs @ [node_exec])) s1)
      in (node_exec # rest, s2))"

text \<open>
  The loop over \<open>node_executions\<close> that queues the roots; it returns the queued rows, which are
  the rows the publishing loop visits.
\<close>

fun queue_roots ::
  "string list \<Rightarrow> NodeExecution list \<Rightarrow> session \<Rightarrow> (NodeExecution list \<times> session) result" where
  "queue_roots root_ids [] s = Inr ([], s)"
| "queue_roots root_ids (n # ns) s =
     (if ne_node_id n \<in> set root_ids
      then rbind (transition_node_status (ne_id n) PENDING QUEUED s) (\<lambda>(n', s1).
           rbind (queue_roots root_ids ns s1) (\<lambda>(rest, s2). Inr (n' # rest, s2)))
      else queue_roots root_ids ns s)"

definition start_unit ::
  "ExecutorRegistry \<Rightarrow> StartExecutionCommand \<Rightarrow> uuid \<Rightarrow> session \<Rightarrow>
   ((Execution \<times> NodeExecution list) \<times> session) result" where
  "start_unit registry command owner s =
     (case first_row
        (concat (map (\<lambda>v. map (\<lambda>w. (v, w)) (filter (\<lambda>w. wf_id w = wv_workflow_id v) (workflows (sdb s))))
          (filter (\<lambda>v. wv_id v = cmd_workflow_version_id command) (workflow_versions (sdb s))))) of
        None \<Rightarrow> Inl (AppError ''Workflow version not found'' ''not_found'' 404)
      | Some (version, workflow) \<Rightarrow>
          if wf_owner_api_key_id workflow \<noteq> owner
          then Inl (AppError ''Unauthorized access to workflow'' ''unauthorized'' 403)
          else
            (let d = wv_definition version in
             rbind (validate_workflow d registry) (\<lambda>validation.
             let (i, s1) = new_uuid s;
                 s2 = modify_db (executions_update (\<lambda>rs. rs @ [new_execution i workflow version command])) s1;
                 (node_execs, s3) = add_nodes i d (nodes d) s2;
                 s4 = execution_started i s3
             in rbind (transition_execution_status i X_CREATED X_RUNNING s4) (\<lambda>(execution, s5).
                rbind (queue_roots (root_nodes validation) node_execs s5) (\<lambda>(queued, s6).
                  Inr ((execution, queued), s6))))))"

text \<open>
  The publishing loop of the engine and of the worker: publish one job per queued row, and keep
  the message id when there is one.
\<close>

definition node_job :: "uuid \<Rightarrow> uuid \<Rightarrow> NodeExecution \<Rightarrow> Job" where
  "node_job execution_id workflow_version_id n =
     \<lparr>j_execution_id = execution_id, j_node_execution_id = ne_id n,
      j_workflow_version_id = workflow_version_id, j_node_id = ne_node_id n, j_attempt = ne_attempt n\<rparr>"

definition store_message_id :: "uuid \<Rightarrow> string option \<Rightarrow> session \<Rightarrow> session" where
  "store_message_id i message_id s =
     (case message_id of
        None \<Rightarrow> s
      | Some m \<Rightarrow>
          if m = [] then s
          else modify_db (node_executions_update (row_modify ne_id i (\<lambda>n. n\<lparr>ne_redis_message_id := Some m\<rparr>))) s)"

fun publish_nodes ::
  "(Job \<Rightarrow> 'q \<Rightarrow> string option result \<times> 'q) \<Rightarrow> uuid \<Rightarrow> uuid \<Rightarrow> NodeExecution list \<Rightarrow> session \<Rightarrow> 'q \<Rightarrow>
   session result \<times> 'q" where
  "publish_nodes publish x v [] s q = (Inr s, q)"
| "publish_nodes publish x v (n # ns) s q =
     (case publish (node_job x v n) q of
        (Inl e, q') \<Rightarrow> (Inl e, q')
      | (Inr m, q') \<Rightarrow> publish_nodes publish x v ns (store_message_id (ne_id n) m s) q')"

text \<open>The end of a method: publish the queued rows, commit, and flush the events.\<close>

definition publish_phase ::
  "(Job \<Rightarrow> 'q \<Rightarrow> string option result \<times> 'q) \<Rightarrow> (string \<Rightarrow> Envelope \<Rightarrow> 'c \<Rightarrow> unit result \<times> 'c) \<Rightarrow>
   uuid \<Rightarrow> uuid \<Rightarrow> NodeExecution list \<Rightarrow> session \<Rightarrow> ('q, 'c) world \<Rightarrow> unit result \<times> ('q, 'c) world" where
  "publish_phase publish ws_publish x v ns s w =
     (case publish_nodes publish x v ns (resume s w) (queue w) of
        (Inl e, q) \<Rightarrow> (Inl e, w\<lparr>queue := q\<rparr>)
      | (Inr s', q) \<Rightarrow>
          (let (s'', c) = flush_events ws_publish s' (channel w)
           in (Inr (), (commit_session s'' w)\<lparr>queue := q, channel := c\<rparr>)))"

definition start_execution ::
  "ExecutorRegistry \<Rightarrow> (Job \<Rightarrow> 'q \<Rightarrow> string option result \<times> 'q) \<Rightarrow>
   (string \<Rightarrow> Envelope \<Rightarrow> 'c \<Rightarrow> unit result \<times> 'c) \<Rightarrow> StartExecutionCommand \<Rightarrow> uuid \<Rightarrow> ('q, 'c) world \<Rightarrow>
   ExecutionDTO option result \<times> ('q, 'c) world" where
  "start_execution registry publish ws_publish command owner w =
     (case start_unit registry command owner (open_session w) of
        Inl e \<Rightarrow> (Inl e, w)
      | Inr ((execution, queued), s) \<Rightarrow>
          (case publish_phase publish ws_publish (ex_id execution) (ex_workflow_version_id execution)
                  queued s (commit_session s w) of
             (Inl e, w') \<Rightarrow> (Inl e, w')
           | (Inr _, w') \<Rightarrow> (get_execution (ex_id execution) owner (durable w'), w')))"

subsection \<open>Retrying a dead-lettered node\<close>

definition resolve_job :: "time \<Rightarrow> string option \<Rightarrow> DeadLetterJob \<Rightarrow> DeadLetterJob" where
  "resolve_job t note j = j\<lparr>dj_resolved_at := Some t, dj_resolution_note := note\<rparr>"

definition retry_unit ::
  "uuid \<Rightarrow> string \<Rightarrow> uuid \<Rightarrow> session \<Rightarrow> ((Execution \<times> NodeExecution) \<times> session) result" where
  "retry_unit execution_id node_id owner s =
     (case first_row
        (concat (map (\<lambda>n. concat (map (\<lambda>e. map (\<lambda>_. (n, e))
            (filter (\<lambda>w. wf_id w = ex_workflow_id e \<and> wf_owner_api_key_id w = owner) (workflows (sdb s))))
            (filter (\<lambda>e. ex_id e = ne_execution_id n) (executions (sdb s)))))
          (filter (\<lambda>n. ne_execution_id n = execution_id \<and> ne_node_id n = node_id) (node_executions (sdb s))))) of
        None \<Rightarrow> Inl (AppError ''NodeExecution not found'' ''not_found'' 404)
      | Some (node_exec, execution) \<Rightarrow>
          if ne_status node_exec \<noteq> DEAD_LETTERED
          then Inl (app_error
            (''Cannot retry node in '' @ node_status_name (ne_status node_exec) @
             '' state. Must be DEAD_LETTERED.'') ''invalid_state'')
          else
            rbind (transition_node_status (ne_id node_exec) DEAD_LETTERED QUEUED s) (\<lambda>(node', s1).
            rbind (scalar_one_or_none
              (filter (\<lambda>j. dj_node_execution_id j = ne_id node_exec \<and> dj_resolved_at j = None)
                 (dead_letter_jobs (sdb s1)))) (\<lambda>dlq_job.
              Inr ((execution, node'),
                case dlq_job of
                  None \<Rightarrow> s1
                | Some j \<Rightarrow>
                    modify_db (dead_letter_jobs_update
                      (row_modify dj_id (dj_id j) (resolve_job (now s1) (Some ''Manually retried via API'')))) s1))))"

definition retry_node ::
  "(Job \<Rightarrow> 'q \<Rightarrow> string option result \<times> 'q) \<Rightarrow> (string \<Rightarrow> Envelope \<Rightarrow> 'c \<Rightarrow> unit result \<times> 'c) \<Rightarrow>
   uuid \<Rightarrow> string \<Rightarrow> uuid \<Rightarrow> ('q, 'c) world \<Rightarrow> NodeExecutionDTO result \<times> ('q, 'c) world" where
  "retry_node publish ws_publish execution_id node_id owner w =
     (case retry_unit execution_id node_id owner (open_session w) of
        Inl e \<Rightarrow> (Inl e, w)
      | Inr ((execution, node_exec), s) \<Rightarrow>
          (case publish_phase publish ws_publish (ex_id execution) (ex_workflow_version_id execution)
                  [node_exec] s (commit_session s w) of
             (Inl e, w') \<Rightarrow> (Inl e, w')
           | (Inr _, w') \<Rightarrow> (Inr (node_dto node_exec), w')))"

definition transition_node :: "'a \<Rightarrow> NodeExecutionDTO result" where
  "transition_node command = Inl (NotImplementedError ''Not required for Phase 5'')"

subsection \<open>Deleting an execution\<close>

text \<open>
  The bulk delete of the dead letter jobs, then \<open>session.delete\<close> with the ORM cascades to the
  nodes, to their logs and to the logs of the execution. A dead letter job left behind that still
  refers to a deleted row violates its foreign key at commit.
\<close>

definition delete_rows :: "uuid \<Rightarrow> database \<Rightarrow> database" where
  "delete_rows execution_id db =
     (let gone = map ne_id (filter (\<lambda>n. ne_execution_id n = execution_id) (node_executions db))
      in db\<lparr>dead_letter_jobs := filter (\<lambda>j. dj_execution_id j \<noteq> execution_id) (dead_letter_jobs db),
            node_executions := filter (\<lambda>n. ne_execution_id n \<noteq> execution_id) (node_executions db),
            execution_logs := filter (\<lambda>l. lg_execution_id l \<noteq> execution_id \<and>
               (case lg_node_execution_id l of None \<Rightarrow> True | Some i \<Rightarrow> i \<notin> set gone)) (execution_logs db),
            executions := filter (\<lambda>e. ex_id e \<noteq> execution_id) (executions db)\<rparr>)"

definition delete_unit :: "uuid \<Rightarrow> uuid \<Rightarrow> session \<Rightarrow> (unit \<times> session) result" where
  "delete_unit execution_id owner s =
     rbind (scalar_one_or_none (filter (\<lambda>e. ex_id e = execution_id) (owned (sdb s) owner))) (\<lambda>execution.
     case execution of
       None \<Rightarrow> Inl (AppError ''Execution not found'' ''not_found'' 404)
     | Some _ \<Rightarrow>
         (let gone = map ne_id (filter (\<lambda>n. ne_execution_id n = execution_id) (node_executions (sdb s)));
              s1 = modify_db (delete_rows execution_id) s
          in if list_ex (\<lambda>j. dj_node_execution_id j \<in> set gone) (dead_letter_jobs (sdb s1))
             then Inl (IntegrityError ''dead_letter_jobs_node_execution_id_fkey'')
             else Inr ((), s1)))"

definition delete_execution :: "uuid \<Rightarrow> uuid \<Rightarrow> ('q, 'c) world \<Rightarrow> unit result \<times> ('q, 'c) world" where
  "delete_execution execution_id owner = in_session (delete_unit execution_id owner)"

lemma delete_rows_simps [simp]:
  "executions (delete_rows x db) = filter (\<lambda>e. ex_id e \<noteq> x) (executions db)"
  "node_executions (delete_rows x db) = filter (\<lambda>n. ne_execution_id n \<noteq> x) (node_executions db)"
  "dead_letter_jobs (delete_rows x db) = filter (\<lambda>j. dj_execution_id j \<noteq> x) (dead_letter_jobs db)"
  "workflow_versions (delete_rows x db) = workflow_versions db" "workflows (delete_rows x db) = workflows db"
  by (simp_all add: delete_rows_def Let_def)

lemma delete_unit_Inr:
  assumes "delete_unit x owner s = Inr (r, s')"
  shows "s' = modify_db (delete_rows x) s" and "\<exists>e \<in> set (owned (sdb s) owner). ex_id e = x"
proof -
  obtain e where e: "filter (\<lambda>e. ex_id e = x) (owned (sdb s) owner) = [e]"
    using assms by (auto simp: delete_unit_def Let_def rbind_eq_Inr scalar_one_or_none_Inr split: option.splits)
  then show "s' = modify_db (delete_rows x) s"
    using assms by (simp add: delete_unit_def Let_def split: if_splits)
  show "\<exists>e \<in> set (owned (sdb s) owner). ex_id e = x" using filter_singletonD [OF e] by blast
qed

end
