(* ===== verification/Worker_Runtime.thy ===== *)
theory Worker_Runtime
  imports Execution_Engine
begin

section \<open>The worker runtime\<close>

text \<open>
  \<open>app/worker/runtime.py\<close>. \<open>process_job\<close> is the sequence of its transactions: \<open>claim_unit\<close>
  (QUEUED to RUNNING), \<open>load_context\<close> (the reads before the executor runs, which also pin the
  execution object in the session), the executor, \<open>complete_unit\<close> (the result is recorded,
  children are queued or skipped, failures retried or dead-lettered, the execution finished), and
  the publishing of the queued nodes. Each phase is a definition of its own, so that phases of
  different workers can be interleaved.
\<close>

definition TERMINAL_NODE_STATUSES :: "NodeExecutionStatus list" where
  "TERMINAL_NODE_STATUSES = [SUCCEEDED, FAILED, SKIPPED, DEAD_LETTERED]"

definition is_terminal :: "NodeExecution \<Rightarrow> bool" where
  "is_terminal n \<longleftrightarrow> ne_status n \<in> set TERMINAL_NODE_STATUSES"

text \<open>The node executions of one execution, and the dictionary from node ids to their objects.\<close>

definition execution_rows :: "uuid \<Rightarrow> database \<Rightarrow> NodeExecution list" where
  "execution_rows x db = filter (\<lambda>n. ne_execution_id n = x) (node_executions db)"

type_synonym node_index = "(string \<times> uuid) list"

definition node_exec_by_node_id :: "NodeExecution list \<Rightarrow> node_index" where
  "node_exec_by_node_id rows = rev (map (\<lambda>n. (ne_node_id n, ne_id n)) rows)"

definition node_lookup :: "node_index \<Rightarrow> string \<Rightarrow> session \<Rightarrow> NodeExecution option" where
  "node_lookup idx node_id s =
     (case map_of idx node_id of
        None \<Rightarrow> None
      | Some i \<Rightarrow> row_get ne_id i (node_executions (sdb s)))"

subsection \<open>Claiming the job\<close>

definition claim_unit :: "Job \<Rightarrow> session \<Rightarrow> (NodeExecution option \<times> session) result" where
  "claim_unit job s =
     (case row_get ne_id (j_node_execution_id job) (node_executions (sdb s)) of
        None \<Rightarrow> Inr (None, s)
      | Some node \<Rightarrow>
          if is_terminal node then Inr (None, s)
          else
            rbind (transition_node_status (ne_id node) QUEUED RUNNING s) (\<lambda>(node', s1).
              Inr (Some node', node_started (ne_execution_id node') (ne_id node') (ne_node_id node') s1)))"

subsection \<open>Loading the context\<close>

record job_context =
  jc_execution :: Execution
  jc_definition :: WorkflowDefinition
  jc_node_def :: Node
  jc_executor :: Executor
  jc_context :: ExecutionContext

definition upstream_output :: "NodeExecution list \<Rightarrow> string \<Rightarrow> jdict \<Rightarrow> jdict" where
  "upstream_output rows pid outs =
     (case map_of (rev (map (\<lambda>n. (ne_node_id n, n)) rows)) pid of
        None \<Rightarrow> outs
      | Some n \<Rightarrow>
          AList.update pid (case ne_output_payload n of None \<Rightarrow> JNull | Some d \<Rightarrow> JObj d) outs)"

definition load_context :: "ExecutorRegistry \<Rightarrow> NodeExecution \<Rightarrow> session \<Rightarrow> job_context result" where
  "load_context registry node s =
     (case row_get ex_id (ne_execution_id node) (executions (sdb s)) of
        None \<Rightarrow> Inl (AttributeError ''workflow_version_id'')
      | Some execution \<Rightarrow>
     (case row_get wv_id (ex_workflow_version_id execution) (workflow_versions (sdb s)) of
        None \<Rightarrow> Inl (AttributeError ''definition'')
      | Some version \<Rightarrow>
     (let d = wv_definition version in
      case map_of (rev (map (\<lambda>n. (n_id n, n)) (nodes d))) (ne_node_id node) of
        None \<Rightarrow> Inl (KeyError (ne_node_id node))
      | Some node_def \<Rightarrow>
     (let rows = execution_rows (ex_id execution) (sdb s);
          upstream_outputs = fold (upstream_output rows) (parent_ids d (ne_node_id node)) []
      in rbind (registry_get registry (n_type node_def)) (\<lambda>executor.
         Inr \<lparr>jc_execution = execution, jc_definition = d, jc_node_def = node_def, jc_executor = executor,
              jc_context =
                \<lparr>cx_execution_id = ex_id execution, cx_node_execution_id = ne_id node,
                 cx_node_id = ne_node_id node, cx_config = n_config node_def,
                 cx_workflow_input = (case ex_input_payload execution of None \<Rightarrow> [] | Some p \<Rightarrow> p),
                 cx_upstream_outputs = upstream_outputs, cx_attempt = ne_attempt node,
                 cx_idempotency_key =
                   uuid_str (ex_id execution) @ '':'' @ ne_node_id node @ '':'' @ int_str (ne_attempt node)\<rparr>\<rparr>)))))"

text \<open>An exception of the executor becomes a failed result.\<close>

definition run_executor :: "job_context \<Rightarrow> ExecutorResult" where
  "run_executor jc =
     (case execute (jc_executor jc) (jc_context jc) of
        Inr r \<Rightarrow> r
      | Inl e \<Rightarrow> \<lparr>r_success = False, r_output = [], r_error = Some (exn_str e)\<rparr>)"

subsection \<open>Failure: retry or dead-letter\<close>

definition job_payload_json :: "Job \<Rightarrow> jdict" where
  "job_payload_json j = map (\<lambda>(k, v). (k, JStr v)) (serialize_job_payload j)"

definition new_dead_letter :: "uuid \<Rightarrow> Execution \<Rightarrow> NodeExecution \<Rightarrow> time \<Rightarrow> DeadLetterJob" where
  "new_dead_letter i execution node t =
     \<lparr>dj_id = i, dj_execution_id = ex_id execution, dj_node_execution_id = ne_id node,
      dj_redis_message_id = ne_redis_message_id node,
      dj_reason = (case ne_error_message node of
                     None \<Rightarrow> ''max attempts exceeded''
                   | Some m \<Rightarrow> if m = [] then ''max attempts exceeded'' else m),
      dj_attempts = ne_attempt node,
      dj_payload = Some (job_payload_json
        (node_job (ex_id execution) (ex_workflow_version_id execution) node)),
      dj_resolved_at = None, dj_resolution_note = None, dj_created_at = t\<rparr>"

definition handle_node_failure ::
  "Execution \<Rightarrow> NodeExecution \<Rightarrow> session \<Rightarrow> (NodeExecution list \<times> session) result" where
  "handle_node_failure execution node s =
     (if ne_attempt node < ne_max_attempts node
      then
        rbind (transition_node_status (ne_id node) FAILED RETRYING s) (\<lambda>(_, s1).
        rbind (transition_node_status (ne_id node) RETRYING QUEUED s1) (\<lambda>(retried, s2).
          Inr ([retried],
            retry_scheduled (ex_id execution) (ne_id retried) (ne_node_id retried) (ne_attempt retried) s2)))
      else
        rbind (transition_node_status (ne_id node) FAILED DEAD_LETTERED s) (\<lambda>(_, s1).
        let s2 = dead_lettered (ex_id execution) (ne_id node) (ne_node_id node) (ne_error_message node) s1;
            (i, s3) = new_uuid s2;
            s4 = modify_db (dead_letter_jobs_update (\<lambda>js. js @ [new_dead_letter i execution node (now s3)])) s3
        in if ex_status execution = X_RUNNING
           then rbind (transition_execution_status (ex_id execution) X_RUNNING X_FAILED s4)
                  (\<lambda>(_, s5). Inr ([], s5))
           else Inr ([], s4)))"

subsection \<open>Success: skip and queue downstream\<close>

text \<open>
  The ids a condition node skips: each configured path that is truthy and is not the chosen one.
  Adding an unhashable value to the set raises; a hashable value that is no string is in the set
  but names no node. The set is visited in insertion order.
\<close>

definition add_skip :: "json \<Rightarrow> json \<Rightarrow> string list \<Rightarrow> string list result" where
  "add_skip chosen candidate skip_ids =
     (if truthy candidate \<and> \<not> py_eq candidate chosen
      then if hashable candidate
           then (case candidate of JStr c \<Rightarrow> Inr (if c \<in> set skip_ids then skip_ids else skip_ids @ [c])
                                 | _ \<Rightarrow> Inr skip_ids)
           else Inl (TypeError ''unhashable type'')
      else Inr skip_ids)"

definition condition_skip_ids :: "Node \<Rightarrow> ExecutorResult \<Rightarrow> string list result" where
  "condition_skip_ids node_def res =
     (if n_type node_def = ''condition''
      then rfold (add_skip (dict_get (r_output res) ''next_node''))
             [dict_get (n_config node_def) ''true_path'', dict_get (n_config node_def) ''false_path''] []
      else Inr [])"

definition enqueue :: "string list \<Rightarrow> string list \<Rightarrow> string list" where
  "enqueue cs skip_queue = fold (\<lambda>c q. if c \<in> set q then q else q @ [c]) cs skip_queue"

definition pending_count :: "session \<Rightarrow> nat" where
  "pending_count s = length (filter (\<lambda>n. ne_status n = PENDING) (node_executions (sdb s)))"

lemma pending_row_modify:
  assumes "filter (\<lambda>n. ne_id n = i) rs = [n]" and "ne_status n = PENDING" and "\<And>n. ne_status (f n) \<noteq> PENDING"
  shows "length (filter (\<lambda>n. ne_status n = PENDING) (row_modify ne_id i f rs)) <
    length (filter (\<lambda>n. ne_status n = PENDING) rs)"
  using assms
proof (induction rs)
  case (Cons r rs)
  show ?case
  proof (cases "ne_id r = i")
    case True
    with Cons.prems(1) have "r = n" and e: "filter (\<lambda>n. ne_id n = i) rs = []" by auto
    have "row_modify ne_id i f rs = rs"
      using e by (auto simp: row_modify_def filter_empty_conv intro: map_idI)
    with True \<open>r = n\<close> Cons.prems(2,3) show ?thesis by simp
  next
    case False
    with Cons.prems have "filter (\<lambda>n. ne_id n = i) rs = [n]" by simp
    with False Cons.IH Cons.prems(2,3) show ?thesis by simp
  qed
qed simp

lemma transition_from_pending_count:
  assumes "transition_node_status i PENDING to_status s = Inr (n', s')" and "to_status \<noteq> PENDING"
  shows "pending_count s' < pending_count s"
proof -
  from assms(1) obtain n where "filter (\<lambda>n. ne_id n = i) (node_executions (sdb s)) = [n]" "ne_status n = PENDING"
    by (auto simp: transition_node_status_Inr)
  then show ?thesis
    using assms(2) transition_node_status_frame(1) [OF assms(1)]
    by (simp add: pending_count_def pending_row_modify)
qed

function (sequential) skip_cascade ::
  "WorkflowDefinition \<Rightarrow> node_index \<Rightarrow> string list \<Rightarrow> session \<Rightarrow> session result" where
  "skip_cascade d idx [] s = Inr s"
| "skip_cascade d idx (skip_id # skip_queue) s =
     (case node_lookup idx skip_id s of
        None \<Rightarrow> skip_cascade d idx skip_queue s
      | Some skip_exec \<Rightarrow>
          if ne_status skip_exec = PENDING
          then rbind (transition_node_status (ne_id skip_exec) PENDING SKIPPED s) (\<lambda>r.
                 skip_cascade d idx (enqueue (child_ids d skip_id) skip_queue) (snd r))
          else skip_cascade d idx skip_queue s)"
  by pat_completeness auto

termination
proof (relation "measures [\<lambda>(d, idx, q, s). pending_count s, \<lambda>(d, idx, q, s). length q]", goal_cases)
  case (3 d idx skip_id skip_queue s skip_exec r)
  then show ?case using transition_from_pending_count [of "ne_id skip_exec" SKIPPED s "fst r" "snd r"]
    by simp
qed simp_all

fun parents_succeeded :: "node_index \<Rightarrow> string list \<Rightarrow> session \<Rightarrow> bool result" where
  "parents_succeeded idx [] s = Inr True"
| "parents_succeeded idx (p # ps) s =
     (case node_lookup idx p s of
        None \<Rightarrow> Inl (KeyError p)
      | Some n \<Rightarrow> if ne_status n = SUCCEEDED then parents_succeeded idx ps s else Inr False)"

fun queue_children ::
  "WorkflowDefinition \<Rightarrow> node_index \<Rightarrow> string list \<Rightarrow> session \<Rightarrow> (NodeExecution list \<times> session) result" where
  "queue_children d idx [] s = Inr ([], s)"
| "queue_children d idx (child_id # cs) s =
     (case node_lookup idx child_id s of
        None \<Rightarrow> queue_children d idx cs s
      | Some child_exec \<Rightarrow>
          if ne_status child_exec \<noteq> PENDING then queue_children d idx cs s
          else
            rbind (parents_succeeded idx (parent_ids d child_id) s) (\<lambda>ok.
            if \<not> ok then queue_children d idx cs s
            else
              rbind (transition_node_status (ne_id child_exec) PENDING QUEUED s) (\<lambda>(queued, s1).
              rbind (queue_children d idx cs s1) (\<lambda>(rest, s2). Inr (queued # rest, s2)))))"

definition queue_downstream_nodes ::
  "WorkflowDefinition \<Rightarrow> Node \<Rightarrow> NodeExecution \<Rightarrow> node_index \<Rightarrow> ExecutorResult \<Rightarrow> session \<Rightarrow>
   (NodeExecution list \<times> session) result" where
  "queue_downstream_nodes d node_def node idx res s =
     (let children = child_ids d (ne_node_id node) in
      if children = [] then Inr ([], s)
      else
        rbind (condition_skip_ids node_def res) (\<lambda>skip_ids.
        rbind (skip_cascade d idx skip_ids s) (\<lambda>s1.
          queue_children d idx children s1)))"

subsection \<open>Completing the job\<close>

text \<open>The execution object the session holds: the pinned one.\<close>

definition held_execution :: "Execution \<Rightarrow> session \<Rightarrow> Execution" where
  "held_execution execution s =
     (case row_get ex_id (ex_id execution) (pinned s) of None \<Rightarrow> execution | Some e \<Rightarrow> e)"

definition set_output :: "jdict \<Rightarrow> NodeExecution \<Rightarrow> NodeExecution" where
  "set_output out n = n\<lparr>ne_output_payload := Some out\<rparr>"

definition set_error :: "string option \<Rightarrow> NodeExecution \<Rightarrow> NodeExecution" where
  "set_error err n = n\<lparr>ne_error_message := err\<rparr>"

definition record_result ::
  "job_context \<Rightarrow> NodeExecution \<Rightarrow> node_index \<Rightarrow> ExecutorResult \<Rightarrow> session \<Rightarrow>
   (NodeExecution list \<times> session) result" where
  "record_result jc node idx res s =
     (if r_success res
      then
        rbind (transition_node_status (ne_id node) RUNNING SUCCEEDED
          (modify_db (node_executions_update (row_modify ne_id (ne_id node) (set_output (r_output res)))) s))
          (\<lambda>(node', s1).
            queue_downstream_nodes (jc_definition jc) (jc_node_def jc) node' idx res
              (node_succeeded (ne_execution_id node') (ne_id node') (ne_node_id node') s1))
      else
        rbind (transition_node_status (ne_id node) RUNNING FAILED
          (modify_db (node_executions_update (row_modify ne_id (ne_id node) (set_error (r_error res)))) s))
          (\<lambda>(node', s1).
            handle_node_failure (held_execution (jc_execution jc) s1) node'
              (node_failed (ne_execution_id node') (ne_id node') (ne_node_id node') (ne_error_message node') s1)))"

definition finish_execution :: "Execution \<Rightarrow> session \<Rightarrow> session result" where
  "finish_execution execution s =
     (let rows = execution_rows (ex_id execution) (sdb s) in
      if list_all is_terminal rows \<and> ex_status (held_execution execution s) = X_RUNNING
      then rbind (transition_execution_status (ex_id execution) X_RUNNING
                    (if list_ex (\<lambda>n. ne_status n \<in> {FAILED, DEAD_LETTERED}) rows then X_FAILED else X_SUCCEEDED) s)
             (\<lambda>(_, s1). Inr s1)
      else Inr s)"

definition complete_unit ::
  "job_context \<Rightarrow> uuid \<Rightarrow> ExecutorResult \<Rightarrow> session \<Rightarrow> (NodeExecution list option \<times> session) result" where
  "complete_unit jc node_execution_id res s =
     (let rows = execution_rows (ex_id (jc_execution jc)) (sdb s);
          idx = node_exec_by_node_id rows
      in case find (\<lambda>n. ne_id n = node_execution_id) rows of
           None \<Rightarrow> Inl (RuntimeError ''coroutine raised StopIteration'')
         | Some node \<Rightarrow>
             if ne_status node \<noteq> RUNNING then Inr (None, s)
             else
               rbind (record_result jc node idx res s) (\<lambda>(nodes_to_publish, s1).
               rbind (finish_execution (jc_execution jc) s1) (\<lambda>s2.
                 Inr (Some nodes_to_publish, s2))))"

subsection \<open>The whole job\<close>

definition process_job ::
  "ExecutorRegistry \<Rightarrow> (Job \<Rightarrow> 'q \<Rightarrow> string option result \<times> 'q) \<Rightarrow>
   (string \<Rightarrow> Envelope \<Rightarrow> 'c \<Rightarrow> unit result \<times> 'c) \<Rightarrow> fields \<Rightarrow> ('q, 'c) world \<Rightarrow> unit result \<times> ('q, 'c) world" where
  "process_job registry publish ws_publish fs w =
     (case rbind (deserialize_job_payload fs) (\<lambda>job. claim_unit job (open_session w)) of
        Inl e \<Rightarrow> (Inl e, w)
      | Inr (None, _) \<Rightarrow> (Inr (), w)
      | Inr (Some node, s) \<Rightarrow>
          (let (s1, c) = flush_events ws_publish s (channel w);
               w1 = (commit_session s1 w)\<lparr>channel := c\<rparr>
           in case load_context registry node (resume s1 w1) of
                Inl e \<Rightarrow> (Inl e, w1)
              | Inr jc \<Rightarrow>
                  (case complete_unit jc (ne_id node) (run_executor jc)
                          ((resume s1 w1)\<lparr>pinned := [jc_execution jc]\<rparr>) of
                     Inl e \<Rightarrow> (Inl e, w1)
                   | Inr (None, _) \<Rightarrow> (Inr (), w1)
                   | Inr (Some ns, s2) \<Rightarrow>
                       publish_phase publish ws_publish (ex_id (jc_execution jc))
                         (ex_workflow_version_id (jc_execution jc)) ns s2 (commit_session s2 w1))))"

end
