(* ===== verification/Run_Spec.thy ===== *)
theory Run_Spec
  imports Models Dag_Validator
begin

section \<open>Specification of a run\<close>

text \<open>
  What the engine promises about one execution, on the abstract state of a run: the status of
  each node, and the edges of the workflow. \<open>run_step\<close> lists the moves a run may make; a node
  that succeeds skips exactly the waiting nodes reachable from the rejected branches and queues
  exactly the waiting children whose parents have all succeeded. \<open>graph_ok\<close> is the invariant of
  these moves. The components refine this specification: each of their transactions is a move
  (or no move) of the run it is about.
\<close>

type_synonym view = "string \<Rightarrow> NodeExecutionStatus option"

subsection \<open>The moves\<close>

inductive_set skip_set :: "(string \<times> string) set \<Rightarrow> view \<Rightarrow> string set \<Rightarrow> string set"
  for E :: "(string \<times> string) set" and \<sigma> :: view and S :: "string set" where
  skip_base: "c \<in> S \<Longrightarrow> \<sigma> c = Some PENDING \<Longrightarrow> c \<in> skip_set E \<sigma> S"
| skip_child: "p \<in> skip_set E \<sigma> S \<Longrightarrow> (p, c) \<in> E \<Longrightarrow> \<sigma> c = Some PENDING \<Longrightarrow> c \<in> skip_set E \<sigma> S"

definition apply_skips :: "(string \<times> string) set \<Rightarrow> string set \<Rightarrow> view \<Rightarrow> view" where
  "apply_skips E S \<sigma> = (\<lambda>c. if c \<in> skip_set E \<sigma> S then Some SKIPPED else \<sigma> c)"

definition apply_ready :: "(string \<times> string) set \<Rightarrow> string \<Rightarrow> view \<Rightarrow> view" where
  "apply_ready E n \<sigma> =
     (\<lambda>c. if (n, c) \<in> E \<and> \<sigma> c = Some PENDING \<and> (\<forall>p. (p, c) \<in> E \<longrightarrow> \<sigma> p = Some SUCCEEDED)
          then Some QUEUED else \<sigma> c)"

definition succeed :: "(string \<times> string) set \<Rightarrow> string \<Rightarrow> string set \<Rightarrow> view \<Rightarrow> view" where
  "succeed E n S \<sigma> = apply_ready E n (apply_skips E S (\<sigma>(n \<mapsto> SUCCEEDED)))"

inductive run_step :: "(string \<times> string) set \<Rightarrow> view \<Rightarrow> view \<Rightarrow> bool"
  for E :: "(string \<times> string) set" where
  claim: "\<sigma> n = Some QUEUED \<Longrightarrow> run_step E \<sigma> (\<sigma>(n \<mapsto> RUNNING))"
| success: "\<sigma> n = Some RUNNING \<Longrightarrow> run_step E \<sigma> (succeed E n S \<sigma>)"
| requeue: "\<sigma> n = Some RUNNING \<Longrightarrow> run_step E \<sigma> (\<sigma>(n \<mapsto> QUEUED))"
| dead: "\<sigma> n = Some RUNNING \<Longrightarrow> run_step E \<sigma> (\<sigma>(n \<mapsto> DEAD_LETTERED))"
| revive: "\<sigma> n = Some DEAD_LETTERED \<Longrightarrow> run_step E \<sigma> (\<sigma>(n \<mapsto> QUEUED))"

inductive_cases run_stepE: "run_step E \<sigma> \<sigma>'"

subsection \<open>The invariant\<close>

definition dependency_ok :: "(string \<times> string) set \<Rightarrow> view \<Rightarrow> bool" where
  "dependency_ok E \<sigma> \<longleftrightarrow>
     (\<forall>p c. (p, c) \<in> E \<longrightarrow> \<sigma> c \<noteq> Some PENDING \<longrightarrow> \<sigma> c \<noteq> Some SKIPPED \<longrightarrow> \<sigma> p = Some SUCCEEDED)"

definition skips_closed :: "(string \<times> string) set \<Rightarrow> view \<Rightarrow> bool" where
  "skips_closed E \<sigma> \<longleftrightarrow> (\<forall>p c. (p, c) \<in> E \<longrightarrow> \<sigma> p = Some SKIPPED \<longrightarrow> \<sigma> c = Some SKIPPED)"

definition none_forgotten :: "(string \<times> string) set \<Rightarrow> view \<Rightarrow> bool" where
  "none_forgotten E \<sigma> \<longleftrightarrow> (\<forall>c. \<sigma> c = Some PENDING \<longrightarrow> (\<exists>p. (p, c) \<in> E \<and> \<sigma> p \<noteq> Some SUCCEEDED))"

definition settled :: "view \<Rightarrow> bool" where
  "settled \<sigma> \<longleftrightarrow> Some FAILED \<notin> range \<sigma> \<and> Some RETRYING \<notin> range \<sigma>"

definition graph_ok :: "(string \<times> string) set \<Rightarrow> string set \<Rightarrow> view \<Rightarrow> bool" where
  "graph_ok E V \<sigma> \<longleftrightarrow>
     dom \<sigma> = V \<and> E \<subseteq> V \<times> V \<and> dependency_ok E \<sigma> \<and> skips_closed E \<sigma> \<and> none_forgotten E \<sigma> \<and> settled \<sigma>"

subsection \<open>The skip set\<close>

lemma skip_set_pending: "c \<in> skip_set E \<sigma> S \<Longrightarrow> \<sigma> c = Some PENDING"
  by (induction rule: skip_set.induct) auto

lemma skip_set_empty [simp]: "skip_set E \<sigma> {} = {}"
proof -
  have "c \<in> skip_set E \<sigma> {} \<Longrightarrow> False" for c by (induction rule: skip_set.induct) auto
  then show ?thesis by blast
qed

text \<open>
  How the worklist of the cascade computes the skip set: dropping a popped id that is not
  waiting changes nothing; a popped id that is waiting is skipped, and its children join.
\<close>

lemma apply_skips_drop:
  assumes "\<sigma> c \<noteq> Some PENDING"
  shows "apply_skips E (insert c S) \<sigma> = apply_skips E S \<sigma>"
proof -
  have "x \<in> skip_set E \<sigma> (insert c S) \<Longrightarrow> x \<in> skip_set E \<sigma> S" for x
    by (induction rule: skip_set.induct) (use assms in \<open>auto intro: skip_set.intros\<close>)
  moreover have "x \<in> skip_set E \<sigma> S \<Longrightarrow> x \<in> skip_set E \<sigma> (insert c S)" for x
    by (induction rule: skip_set.induct) (auto intro: skip_set.intros)
  ultimately show ?thesis unfolding apply_skips_def by metis
qed

lemma apply_skips_take:
  assumes "\<sigma> c = Some PENDING"
  shows "apply_skips E (insert c S) \<sigma> = apply_skips E (S \<union> {d. (c, d) \<in> E}) (\<sigma>(c \<mapsto> SKIPPED))"
    (is "_ = apply_skips E ?S' ?\<sigma>'")
proof -
  have a: "x \<in> skip_set E \<sigma> (insert c S) \<Longrightarrow> x = c \<or> x \<in> skip_set E ?\<sigma>' ?S'" for x
  proof (induction rule: skip_set.induct)
    case (skip_child p d)
    then show ?case
      by (cases "d = c") (auto intro: skip_set.skip_base skip_set.skip_child)
  qed (auto intro: skip_set.skip_base)
  have b: "x \<in> skip_set E ?\<sigma>' ?S' \<Longrightarrow> x \<in> skip_set E \<sigma> (insert c S) \<and> x \<noteq> c" for x
  proof (induction rule: skip_set.induct)
    case (skip_base d)
    have "c \<in> skip_set E \<sigma> (insert c S)" using assms by (auto intro: skip_set.skip_base)
    with skip_base show ?case by (auto intro: skip_set.intros split: if_splits)
  qed (auto intro: skip_set.skip_child split: if_splits)
  have "c \<in> skip_set E \<sigma> (insert c S)" using assms by (auto intro: skip_set.skip_base)
  then have "x \<in> skip_set E \<sigma> (insert c S) \<longleftrightarrow> x = c \<or> x \<in> skip_set E ?\<sigma>' ?S'" for x
    using a [of x] b [of x] by blast
  then show ?thesis unfolding apply_skips_def by (auto intro!: ext)
qed

lemma apply_skips_empty [simp]: "apply_skips E {} \<sigma> = \<sigma>"
  by (simp add: apply_skips_def)

lemma apply_skips_other: "\<sigma> c \<noteq> Some PENDING \<Longrightarrow> apply_skips E S \<sigma> c = \<sigma> c"
  by (auto simp: apply_skips_def dest: skip_set_pending)

lemma apply_skips_cases:
  "apply_skips E S \<sigma> c = \<sigma> c \<or> \<sigma> c = Some PENDING \<and> apply_skips E S \<sigma> c = Some SKIPPED"
  by (auto simp: apply_skips_def dest: skip_set_pending)

lemma apply_ready_cases:
  "apply_ready E n \<sigma> c = \<sigma> c \<or>
   \<sigma> c = Some PENDING \<and> apply_ready E n \<sigma> c = Some QUEUED \<and> (n, c) \<in> E \<and> (\<forall>p. (p, c) \<in> E \<longrightarrow> \<sigma> p = Some SUCCEEDED)"
  by (auto simp: apply_ready_def)

lemma dom_succeed: "n \<in> dom \<sigma> \<Longrightarrow> dom (succeed E n S \<sigma>) = dom \<sigma>"
  unfolding succeed_def apply_ready_def apply_skips_def
  by (auto dest!: skip_set_pending split: if_splits)

subsection \<open>Preservation\<close>

text \<open>Moving one node between statuses other than waiting, skipped and succeeded.\<close>

lemma graph_ok_move:
  assumes "graph_ok E V \<sigma>" and "\<sigma> n = Some a" and "a \<notin> {PENDING, SKIPPED, SUCCEEDED}"
    and "b \<notin> {PENDING, SKIPPED, SUCCEEDED, FAILED, RETRYING}"
  shows "graph_ok E V (\<sigma>(n \<mapsto> b))"
proof -
  have n: "\<sigma> n \<noteq> Some PENDING" "\<sigma> n \<noteq> Some SKIPPED" "\<sigma> n \<noteq> Some SUCCEEDED"
    and b: "b \<noteq> PENDING" "b \<noteq> SKIPPED" "b \<noteq> SUCCEEDED" "b \<noteq> FAILED" "b \<noteq> RETRYING"
    using assms(2-4) by auto
  have "dependency_ok E (\<sigma>(n \<mapsto> b))"
    using assms(1) n b unfolding graph_ok_def dependency_ok_def by (metis fun_upd_apply)
  moreover have "skips_closed E (\<sigma>(n \<mapsto> b))"
    using assms(1) n b unfolding graph_ok_def skips_closed_def by (metis fun_upd_apply option.inject)
  moreover have "none_forgotten E (\<sigma>(n \<mapsto> b))"
    using assms(1) n b unfolding graph_ok_def none_forgotten_def by (metis fun_upd_apply option.inject)
  moreover have "settled (\<sigma>(n \<mapsto> b))"
    using assms(1) b unfolding graph_ok_def settled_def by (auto simp: image_iff)
  moreover have "dom (\<sigma>(n \<mapsto> b)) = V" using assms(1,2) by (auto simp: graph_ok_def)
  ultimately show ?thesis using assms(1) by (simp add: graph_ok_def)
qed

text \<open>
  A success has three stages: the node is marked, the skips are applied, the ready children queued.
  Each of them keeps the two conditions on edges.
\<close>

lemma edges_ok_mark:
  assumes "dependency_ok E \<sigma>" and "skips_closed E \<sigma>" and "\<sigma> n = Some RUNNING"
  shows "dependency_ok E (\<sigma>(n \<mapsto> SUCCEEDED))" and "skips_closed E (\<sigma>(n \<mapsto> SUCCEEDED))"
proof -
  show "dependency_ok E (\<sigma>(n \<mapsto> SUCCEEDED))" unfolding dependency_ok_def
  proof (intro allI impI)
    fix p c assume e: "(p, c) \<in> E" "(\<sigma>(n \<mapsto> SUCCEEDED)) c \<noteq> Some PENDING" "(\<sigma>(n \<mapsto> SUCCEEDED)) c \<noteq> Some SKIPPED"
    have "\<sigma> p = Some SUCCEEDED" using e assms(1,3) unfolding dependency_ok_def by (cases "c = n") auto
    then show "(\<sigma>(n \<mapsto> SUCCEEDED)) p = Some SUCCEEDED" by simp
  qed
  show "skips_closed E (\<sigma>(n \<mapsto> SUCCEEDED))" unfolding skips_closed_def
  proof (intro allI impI)
    fix p c assume e: "(p, c) \<in> E" and "(\<sigma>(n \<mapsto> SUCCEEDED)) p = Some SKIPPED"
    then have "\<sigma> p = Some SKIPPED" by (cases "p = n") auto
    then have "\<sigma> c = Some SKIPPED" using e assms(2) unfolding skips_closed_def by blast
    then show "(\<sigma>(n \<mapsto> SUCCEEDED)) c = Some SKIPPED" using assms(3) by (cases "c = n") auto
  qed
qed

lemma succeeded_skips: "apply_skips E S \<sigma> p = Some SUCCEEDED \<longleftrightarrow> \<sigma> p = Some SUCCEEDED"
  using apply_skips_cases [of E S \<sigma> p] by auto

lemma succeeded_ready: "apply_ready E n \<sigma> p = Some SUCCEEDED \<longleftrightarrow> \<sigma> p = Some SUCCEEDED"
  using apply_ready_cases [of E n \<sigma> p] by auto

lemma dependency_ok_skips: "dependency_ok E \<sigma> \<Longrightarrow> dependency_ok E (apply_skips E S \<sigma>)"
  unfolding dependency_ok_def succeeded_skips by (metis apply_skips_cases)

lemma dependency_ok_ready: "dependency_ok E \<sigma> \<Longrightarrow> dependency_ok E (apply_ready E n \<sigma>)"
  unfolding dependency_ok_def succeeded_ready by (metis apply_ready_cases)

lemma skips_closed_skips:
  assumes "dependency_ok E \<sigma>" and "skips_closed E \<sigma>"
  shows "skips_closed E (apply_skips E S \<sigma>)"
  unfolding skips_closed_def
proof (intro allI impI)
  fix p c assume e: "(p, c) \<in> E" and p: "apply_skips E S \<sigma> p = Some SKIPPED"
  have "\<sigma> p \<noteq> Some SUCCEEDED" using p succeeded_skips [of E S \<sigma> p] by auto
  then have c: "\<sigma> c = Some PENDING \<or> \<sigma> c = Some SKIPPED" using e assms(1) unfolding dependency_ok_def by blast
  show "apply_skips E S \<sigma> c = Some SKIPPED"
  proof (cases "p \<in> skip_set E \<sigma> S")
    case True
    then show ?thesis using e c by (auto simp: apply_skips_def intro: skip_set.skip_child)
  next
    case False
    then have "\<sigma> p = Some SKIPPED" using p by (simp add: apply_skips_def)
    then have "\<sigma> c = Some SKIPPED" using assms(2) e unfolding skips_closed_def by blast
    then show ?thesis by (auto simp: apply_skips_def)
  qed
qed

lemma skips_closed_ready:
  assumes "skips_closed E \<sigma>"
  shows "skips_closed E (apply_ready E n \<sigma>)"
  unfolding skips_closed_def
proof (intro allI impI)
  fix p c assume e: "(p, c) \<in> E" and p: "apply_ready E n \<sigma> p = Some SKIPPED"
  then have "\<sigma> p = Some SKIPPED" using apply_ready_cases [of E n \<sigma> p] by auto
  then have "\<sigma> c = Some SKIPPED" using assms e unfolding skips_closed_def by blast
  then show "apply_ready E n \<sigma> c = Some SKIPPED" by (simp add: apply_ready_def)
qed

lemma succeeded_succeed: "succeed E n S \<sigma> p = Some SUCCEEDED \<longleftrightarrow> p = n \<or> \<sigma> p = Some SUCCEEDED"
  by (auto simp: succeed_def succeeded_ready succeeded_skips)

lemma none_forgotten_succeed:
  assumes "none_forgotten E \<sigma>"
  shows "none_forgotten E (succeed E n S \<sigma>)"
  unfolding none_forgotten_def
proof (intro allI impI)
  let ?s = "apply_skips E S (\<sigma>(n \<mapsto> SUCCEEDED))"
  fix c assume c: "succeed E n S \<sigma> c = Some PENDING"
  then have s: "?s c = Some PENDING" and unready: "\<not> ((n, c) \<in> E \<and> (\<forall>p. (p, c) \<in> E \<longrightarrow> ?s p = Some SUCCEEDED))"
    unfolding succeed_def apply_ready_def by (auto split: if_splits)
  then have "(\<sigma>(n \<mapsto> SUCCEEDED)) c = Some PENDING" using apply_skips_cases [of E S "\<sigma>(n \<mapsto> SUCCEEDED)" c] by auto
  then have "\<sigma> c = Some PENDING" by (auto split: if_splits)
  then obtain p where p: "(p, c) \<in> E" "\<sigma> p \<noteq> Some SUCCEEDED" using assms unfolding none_forgotten_def by blast
  show "\<exists>p. (p, c) \<in> E \<and> succeed E n S \<sigma> p \<noteq> Some SUCCEEDED"
    using p unready by (cases "p = n") (auto simp: succeeded_succeed succeeded_skips split: if_splits)
qed

lemma settled_succeed:
  assumes "settled \<sigma>"
  shows "settled (succeed E n S \<sigma>)"
proof -
  have "succeed E n S \<sigma> c \<in> {\<sigma> c, Some SUCCEEDED, Some SKIPPED, Some QUEUED}" for c
    using apply_ready_cases [of E n "apply_skips E S (\<sigma>(n \<mapsto> SUCCEEDED))" c] apply_skips_cases [of E S "\<sigma>(n \<mapsto> SUCCEEDED)" c]
    unfolding succeed_def by (auto split: if_splits)
  then show ?thesis using assms unfolding settled_def image_iff
    by (metis (no_types, opaque_lifting) NodeExecutionStatus.distinct UNIV_I empty_iff insert_iff option.inject)
qed

lemma graph_ok_succeed:
  assumes "graph_ok E V \<sigma>" and "\<sigma> n = Some RUNNING"
  shows "graph_ok E V (succeed E n S \<sigma>)"
proof -
  have ok: "dependency_ok E \<sigma>" "skips_closed E \<sigma>" "none_forgotten E \<sigma>" "settled \<sigma>" "E \<subseteq> V \<times> V" "dom \<sigma> = V"
    using assms(1) by (auto simp: graph_ok_def)
  note mark = edges_ok_mark [OF ok(1,2) assms(2)]
  have "dependency_ok E (succeed E n S \<sigma>)" unfolding succeed_def by (intro dependency_ok_ready dependency_ok_skips mark)
  moreover have "skips_closed E (succeed E n S \<sigma>)" unfolding succeed_def by (intro skips_closed_ready skips_closed_skips mark)
  moreover have "dom (succeed E n S \<sigma>) = V" using dom_succeed [of n \<sigma> E S] assms(2) ok(6) by auto
  ultimately show ?thesis
    using none_forgotten_succeed [OF ok(3)] settled_succeed [OF ok(4)] ok(5) by (simp add: graph_ok_def)
qed

lemma graph_ok_step: "run_step E \<sigma> \<sigma>' \<Longrightarrow> graph_ok E V \<sigma> \<Longrightarrow> graph_ok E V \<sigma>'"
  by (induction rule: run_step.induct) (auto intro: graph_ok_move graph_ok_succeed)

text \<open>The state a run starts in: the nodes without parents queued, the others waiting.\<close>

definition initial_view :: "(string \<times> string) set \<Rightarrow> string set \<Rightarrow> view" where
  "initial_view E V =
     (\<lambda>c. if c \<in> V then Some (if \<exists>p. (p, c) \<in> E then PENDING else QUEUED) else None)"

lemma graph_ok_initial:
  assumes "E \<subseteq> V \<times> V"
  shows "graph_ok E V (initial_view E V)"
  using assms unfolding graph_ok_def initial_view_def dependency_ok_def skips_closed_def
    none_forgotten_def settled_def
  by (auto split: if_splits)

subsection \<open>Progress\<close>

text \<open>
  In an acyclic workflow every waiting node has an ancestor that is queued, running or
  dead-lettered: nothing waits for an event that can no longer happen.
\<close>

lemma waiting_has_active_ancestor:
  assumes ok: "graph_ok E V \<sigma>" and "finite E" and "acyclic E" and "\<sigma> c = Some PENDING"
  shows "\<exists>a. (a, c) \<in> E\<^sup>+ \<and> \<sigma> a \<in> {Some QUEUED, Some RUNNING, Some DEAD_LETTERED}"
proof -
  have "wf E" using assms(2,3) by (simp add: finite_acyclic_wf)
  then show ?thesis using assms(4)
  proof (induction c rule: wf_induct_rule)
    case (less c)
    obtain p where e: "(p, c) \<in> E" and p: "\<sigma> p \<noteq> Some SUCCEEDED"
      using ok less.prems unfolding graph_ok_def none_forgotten_def by blast
    have "p \<in> dom \<sigma>" using ok e by (auto simp: graph_ok_def)
    then obtain st where st: "\<sigma> p = Some st" by auto
    have "st \<noteq> SKIPPED" using ok e st less.prems unfolding graph_ok_def skips_closed_def by fastforce
    moreover have "st \<noteq> FAILED" "st \<noteq> RETRYING"
      using ok st unfolding graph_ok_def settled_def by (metis rangeI)+
    ultimately consider "st = PENDING" | "st \<in> {QUEUED, RUNNING, DEAD_LETTERED}"
      using p st by (cases st) auto
    then show ?case
    proof cases
      case 1
      with less.IH e st show ?thesis by (meson trancl_into_trancl)
    next
      case 2
      with e st show ?thesis by (intro exI [of _ p]) auto
    qed
  qed
qed

text \<open>So a run in which nothing is queued, running or dead-lettered has ended well.\<close>

lemma quiet_run_finished:
  assumes "graph_ok E V \<sigma>" and "finite E" and "acyclic E"
    and "\<forall>c. \<sigma> c \<notin> {Some QUEUED, Some RUNNING, Some DEAD_LETTERED}" and "c \<in> V"
  shows "\<sigma> c \<in> {Some SUCCEEDED, Some SKIPPED}"
proof -
  have "c \<in> dom \<sigma>" using assms(1,5) by (simp add: graph_ok_def)
  then obtain st where st: "\<sigma> c = Some st" by auto
  moreover have "\<sigma> c \<noteq> Some PENDING" using waiting_has_active_ancestor [OF assms(1-3)] assms(4) by blast
  moreover have "st \<noteq> FAILED" "st \<noteq> RETRYING"
    using assms(1) st unfolding graph_ok_def settled_def by (metis rangeI)+
  ultimately show ?thesis using assms(4) by (cases st) auto
qed

end
