(* ===== verification/Worker_Refinement.thy ===== *)
theory Worker_Refinement
  imports Worker_Runtime Run_Spec
begin

section \<open>The runtime refines the specification of a run\<close>

text \<open>
  The abstract state of an execution is read off its rows (\<open>run_view\<close>). On a database whose node
  executions have unique ids and one row per node of an execution (\<open>nodes_ok\<close>), the cascade is
  \<open>apply_skips\<close>, the loop over the children is \<open>apply_ready\<close>, recording a success is \<open>succeed\<close>,
  and none of them raises. Rows of other executions are untouched throughout.
\<close>

subsection \<open>Reading a run\<close>

definition run_view :: "uuid \<Rightarrow> database \<Rightarrow> view" where
  "run_view x db nid = map_option ne_status (row_get ne_node_id nid (execution_rows x db))"

definition node_keys :: "NodeExecution list \<Rightarrow> (uuid \<times> uuid \<times> string \<times> int) list" where
  "node_keys rs = map (\<lambda>n. (ne_id n, ne_execution_id n, ne_node_id n, ne_max_attempts n)) rs"

definition nodes_ok :: "database \<Rightarrow> bool" where
  "nodes_ok db \<longleftrightarrow> distinct (map ne_id (node_executions db)) \<and>
     (\<forall>x. distinct (map ne_node_id (execution_rows x db)))"

lemma execution_rows_by_keys:
  "map (\<lambda>n. (ne_node_id n, ne_id n)) (execution_rows x db) =
   map (\<lambda>(i, e, nid, m). (nid, i)) (filter (\<lambda>(i, e, nid, m). e = x) (node_keys (node_executions db)))"
  by (simp add: execution_rows_def node_keys_def filter_map comp_def)

lemma index_by_keys:
  assumes "node_keys (node_executions db') = node_keys (node_executions db)"
  shows "node_exec_by_node_id (execution_rows x db') = node_exec_by_node_id (execution_rows x db)"
  unfolding node_exec_by_node_id_def execution_rows_by_keys assms ..

lemma nodes_ok_keys:
  "nodes_ok db \<longleftrightarrow> distinct (map fst (node_keys (node_executions db))) \<and>
     (\<forall>x. distinct (map (\<lambda>(i, e, nid, m). nid) (filter (\<lambda>(i, e, nid, m). e = x) (node_keys (node_executions db)))))"
  by (simp add: nodes_ok_def node_keys_def execution_rows_def filter_map comp_def)

lemma nodes_ok_by_keys:
  assumes "node_keys (node_executions db') = node_keys (node_executions db)"
  shows "nodes_ok db' \<longleftrightarrow> nodes_ok db"
  unfolding nodes_ok_keys assms ..

lemma execution_rows_ids:
  "nodes_ok db \<Longrightarrow> distinct (map ne_id (execution_rows x db))"
  by (simp add: nodes_ok_def execution_rows_def distinct_map_filter)

lemma in_execution_rows: "n \<in> set (execution_rows x db) \<longleftrightarrow> n \<in> set (node_executions db) \<and> ne_execution_id n = x"
  by (auto simp: execution_rows_def)

lemma map_of_rev_distinct: "distinct (map fst kvs) \<Longrightarrow> map_of (rev kvs) = map_of kvs"
  by (subst map_of_inject_set) (simp_all add: rev_map [symmetric])

text \<open>Looking a node up through the dictionary is finding its row among those of the execution.\<close>

lemma node_lookup_index:
  assumes "nodes_ok (sdb s)"
  shows "node_lookup (node_exec_by_node_id (execution_rows x (sdb s))) nid s =
    row_get ne_node_id nid (execution_rows x (sdb s))"
proof -
  let ?R = "execution_rows x (sdb s)"
  have "map_of (map (\<lambda>n. (ne_node_id n, ne_id n)) R) nid = map_option ne_id (row_get ne_node_id nid R)" for R
    by (induction R) auto
  from this [of ?R] have "map_of (map (\<lambda>n. (ne_node_id n, ne_id n)) ?R) nid = map_option ne_id (row_get ne_node_id nid ?R)" .
  moreover have "map_of (node_exec_by_node_id ?R) nid = map_of (map (\<lambda>n. (ne_node_id n, ne_id n)) ?R) nid"
    using assms by (simp add: node_exec_by_node_id_def nodes_ok_def map_of_rev_distinct comp_def)
  moreover have "row_get ne_id (ne_id n) (node_executions (sdb s)) = Some n"
    if "row_get ne_node_id nid ?R = Some n" for n
    using assms row_get_Some [OF that] by (intro row_get_distinct) (auto simp: nodes_ok_def in_execution_rows)
  ultimately show ?thesis by (auto simp: node_lookup_def split: option.splits)
qed

lemma run_view_lookup:
  assumes "nodes_ok (sdb s)"
  shows "map_option ne_status (node_lookup (node_exec_by_node_id (execution_rows x (sdb s))) nid s) =
    run_view x (sdb s) nid"
  by (simp add: node_lookup_index [OF assms] run_view_def)

subsection \<open>Writing one row\<close>

lemma execution_rows_modify_other:
  assumes "nodes_ok db" and "n \<in> set (node_executions db)" and "ne_execution_id n \<noteq> y"
    and "\<And>n. ne_execution_id (f n) = ne_execution_id n"
  shows "filter (\<lambda>n. ne_execution_id n = y) (row_modify ne_id (ne_id n) f (node_executions db)) = execution_rows y db"
proof -
  have "ne_id r = ne_id n \<Longrightarrow> r = n" if "r \<in> set (node_executions db)" for r
    using assms(1,2) that by (auto simp: nodes_ok_def distinct_map inj_on_def)
  then have "filter (\<lambda>n. ne_execution_id n = y) (row_modify ne_id (ne_id n) f rs) = filter (\<lambda>n. ne_execution_id n = y) rs"
    if "set rs \<subseteq> set (node_executions db)" for rs
    using that assms(3,4) by (induction rs) auto
  then show ?thesis by (simp add: execution_rows_def)
qed

lemma execution_rows_modify:
  assumes "\<And>n. ne_execution_id (f n) = ne_execution_id n"
  shows "filter (\<lambda>n. ne_execution_id n = x) (row_modify ne_id i f rs) =
    row_modify ne_id i f (filter (\<lambda>n. ne_execution_id n = x) rs)"
  using assms by (induction rs) auto

lemma row_get_modify_node:
  assumes "distinct (map ne_id R)" and "distinct (map ne_node_id R)" and "n \<in> set R"
    and "\<And>n. ne_node_id (f n) = ne_node_id n"
  shows "row_get ne_node_id nid (row_modify ne_id (ne_id n) f R) =
    (if nid = ne_node_id n then Some (f n) else row_get ne_node_id nid R)"
  using assms
proof (induction R)
  case (Cons r R)
  show ?case
  proof (cases "r = n")
    case True
    then have "row_modify ne_id (ne_id n) f R = R"
      using Cons.prems(1) by (auto simp: row_modify_def image_iff intro!: map_idI)
    with True Cons.prems show ?thesis by simp
  next
    case False
    then have "n \<in> set R" "ne_id r \<noteq> ne_id n" "ne_node_id r \<noteq> ne_node_id n"
      using Cons.prems(1-3) by (auto simp: image_iff)
    with False Cons show ?thesis by (cases "nid = ne_node_id n") auto
  qed
qed simp

text \<open>
  What a write to row \<open>n\<close> that keeps its keys does: the other executions, the keys, and the view
  of its own execution.
\<close>

lemma modify_node_effect:
  assumes ok: "nodes_ok db" and n: "n \<in> set (node_executions db)"
    and f: "\<And>n. ne_id (f n) = ne_id n \<and> ne_execution_id (f n) = ne_execution_id n \<and>
              ne_node_id (f n) = ne_node_id n \<and> ne_max_attempts (f n) = ne_max_attempts n"
    and db': "node_executions db' = row_modify ne_id (ne_id n) f (node_executions db)"
  shows "nodes_ok db'"
    and "node_keys (node_executions db') = node_keys (node_executions db)"
    and "y \<noteq> ne_execution_id n \<Longrightarrow> execution_rows y db' = execution_rows y db"
    and "run_view (ne_execution_id n) db' = (run_view (ne_execution_id n) db)(ne_node_id n \<mapsto> ne_status (f n))"
proof -
  show keys: "node_keys (node_executions db') = node_keys (node_executions db)"
    unfolding db' node_keys_def by (rule map_row_modify) (use f in auto)
  then show "nodes_ok db'" using ok nodes_ok_by_keys by blast
  show "execution_rows y db' = execution_rows y db" if "y \<noteq> ne_execution_id n"
    unfolding execution_rows_def [of y db'] db'
    using execution_rows_modify_other [OF ok n, of y f] f that by auto
  have "execution_rows (ne_execution_id n) db' = row_modify ne_id (ne_id n) f (execution_rows (ne_execution_id n) db)"
    unfolding execution_rows_def db' by (rule execution_rows_modify) (use f in auto)
  moreover have "n \<in> set (execution_rows (ne_execution_id n) db)" using n by (simp add: in_execution_rows)
  ultimately show "run_view (ne_execution_id n) db' = (run_view (ne_execution_id n) db)(ne_node_id n \<mapsto> ne_status (f n))"
    using ok execution_rows_ids [OF ok] f
    by (auto simp: run_view_def nodes_ok_def row_get_modify_node fun_eq_iff)
qed

text \<open>A node transition on a well-formed database: total when the guard holds, and its effect.\<close>

lemma transition_node_effect:
  assumes ok: "nodes_ok (sdb s)" and n: "n \<in> set (node_executions (sdb s))" and st: "ne_status n = from_status"
  obtains s' where "transition_node_status (ne_id n) from_status to_status s = Inr (set_node_status to_status (now s) n, s')"
    and "nodes_ok (sdb s')" and "node_keys (node_executions (sdb s')) = node_keys (node_executions (sdb s))"
    and "sdb s' = (sdb s)\<lparr>node_executions := row_modify ne_id (ne_id n) (set_node_status to_status (now s)) (node_executions (sdb s))\<rparr>"
    and "\<And>y. y \<noteq> ne_execution_id n \<Longrightarrow> execution_rows y (sdb s') = execution_rows y (sdb s)"
    and "run_view (ne_execution_id n) (sdb s') = (run_view (ne_execution_id n) (sdb s))(ne_node_id n \<mapsto> to_status)"
    and "pinned s' = pinned s" and "now s' = now s" and "uuids s' = uuids s" and "used s' = used s"
proof -
  have g: "row_get ne_id (ne_id n) (node_executions (sdb s)) = Some n"
    using ok n by (auto simp: nodes_ok_def intro: row_get_distinct)
  have d: "distinct (map ne_id (node_executions (sdb s)))" using ok by (simp add: nodes_ok_def)
  from transition_node_status_ok [OF d g st, of to_status] obtain s' where
    t: "transition_node_status (ne_id n) from_status to_status s = Inr (set_node_status to_status (now s) n, s')"
    by blast
  note fr = transition_node_status_frame [OF t]
  have rows: "node_executions (sdb s') = row_modify ne_id (ne_id n) (set_node_status to_status (now s)) (node_executions (sdb s))"
    using fr(1) by simp
  note eff = modify_node_effect [OF ok n _ rows]
  show thesis
    by (rule that [OF t eff(1) eff(2) fr(1) eff(3) _ fr(2-5)]) (use eff(4) in auto)
qed

subsection \<open>Rows that advance\<close>

text \<open>
  The cascade and the loop over the children only ever move waiting rows of the execution at hand
  to SKIPPED or to QUEUED, each at most once.
\<close>

definition advance :: "uuid \<Rightarrow> time \<Rightarrow> NodeExecution \<Rightarrow> NodeExecution \<Rightarrow> bool" where
  "advance x t r r' \<longleftrightarrow> r' = r \<or>
     ne_execution_id r = x \<and> ne_status r = PENDING \<and>
     (r' = set_node_status SKIPPED t r \<or> r' = set_node_status QUEUED t r)"

definition advances :: "uuid \<Rightarrow> session \<Rightarrow> session \<Rightarrow> bool" where
  "advances x s s' \<longleftrightarrow>
     list_all2 (advance x (now s)) (node_executions (sdb s)) (node_executions (sdb s')) \<and>
     sdb s' = (sdb s)\<lparr>node_executions := node_executions (sdb s')\<rparr> \<and>
     pinned s' = pinned s \<and> now s' = now s \<and> uuids s' = uuids s \<and> used s' = used s"

lemma advance_trans: "advance x t a b \<Longrightarrow> advance x t b c \<Longrightarrow> advance x t a c"
  unfolding advance_def by auto

lemma advances_refl [simp]: "advances x s s"
  by (simp add: advances_def advance_def list_all2_refl)

lemma advances_trans: "advances x s s1 \<Longrightarrow> advances x s1 s2 \<Longrightarrow> advances x s s2"
  unfolding advances_def
  by (cases "sdb s"; cases "sdb s1"; cases "sdb s2") (auto intro: list_all2_trans [OF advance_trans])

lemma list_all2_row_modify:
  assumes "\<And>r. P r r" and "\<And>r. r \<in> set rs \<Longrightarrow> key r = k \<Longrightarrow> P r (f r)"
  shows "list_all2 P rs (row_modify key k f rs)"
  using assms by (induction rs) auto

lemma advance_keys: "list_all2 (advance x t) rs rs' \<Longrightarrow> node_keys rs' = node_keys rs"
  unfolding node_keys_def by (induction rule: list_all2_induct) (auto simp: advance_def)

lemma advance_fields:
  "advance x t r r' \<Longrightarrow> ne_execution_id r' = ne_execution_id r \<and> (ne_execution_id r \<noteq> x \<longrightarrow> r' = r)"
  by (auto simp: advance_def)

lemma advance_other_rows:
  assumes "y \<noteq> x"
  shows "list_all2 (advance x t) rs rs' \<Longrightarrow>
   filter (\<lambda>n. ne_execution_id n = y) rs' = filter (\<lambda>n. ne_execution_id n = y) rs"
proof (induction rule: list_all2_induct)
  case (Cons r rs r' rs')
  with advance_fields [OF Cons.hyps(1)] assms show ?case by (cases "ne_execution_id r = y") simp_all
qed simp

lemma advances_keys: "advances x s s' \<Longrightarrow> node_keys (node_executions (sdb s')) = node_keys (node_executions (sdb s))"
  unfolding advances_def by (blast dest: advance_keys)

lemma advances_nodes_ok: "advances x s s' \<Longrightarrow> nodes_ok (sdb s') \<longleftrightarrow> nodes_ok (sdb s)"
  by (intro nodes_ok_by_keys advances_keys)

lemma advances_index:
  "advances x s s' \<Longrightarrow>
   node_exec_by_node_id (execution_rows y (sdb s')) = node_exec_by_node_id (execution_rows y (sdb s))"
  by (intro index_by_keys advances_keys)

lemma transition_advances:
  assumes ok: "nodes_ok (sdb s)" and n: "n \<in> set (execution_rows x (sdb s))" and st: "ne_status n = PENDING"
    and to: "to_status = SKIPPED \<or> to_status = QUEUED"
  obtains s' where "transition_node_status (ne_id n) PENDING to_status s = Inr (set_node_status to_status (now s) n, s')"
    and "advances x s s'" and "run_view x (sdb s') = (run_view x (sdb s))(ne_node_id n \<mapsto> to_status)"
    and "set_node_status to_status (now s) n \<in> set (execution_rows x (sdb s'))"
proof -
  have n': "n \<in> set (node_executions (sdb s))" and x: "ne_execution_id n = x"
    using n by (auto simp: in_execution_rows)
  obtain s' where t: "transition_node_status (ne_id n) PENDING to_status s = Inr (set_node_status to_status (now s) n, s')"
    and db: "sdb s' = (sdb s)\<lparr>node_executions := row_modify ne_id (ne_id n) (set_node_status to_status (now s)) (node_executions (sdb s))\<rparr>"
    and view: "run_view (ne_execution_id n) (sdb s') = (run_view (ne_execution_id n) (sdb s))(ne_node_id n \<mapsto> to_status)"
    and rest: "pinned s' = pinned s" "now s' = now s" "uuids s' = uuids s" "used s' = used s"
    using transition_node_effect [OF ok n' st, of to_status] by metis
  have uniq: "r = n" if "r \<in> set (node_executions (sdb s))" "ne_id r = ne_id n" for r
    using ok n' that by (auto simp: nodes_ok_def distinct_map inj_on_def)
  have "list_all2 (advance x (now s)) (node_executions (sdb s)) (node_executions (sdb s'))"
    unfolding db by (simp, rule list_all2_row_modify) (use uniq st x to in \<open>auto simp: advance_def\<close>)
  then have "advances x s s'" using db rest by (simp add: advances_def)
  moreover have "set_node_status to_status (now s) n \<in> set (execution_rows x (sdb s'))"
    using n' x by (auto simp: db in_execution_rows in_set_row_modify intro!: bexI [of _ n])
  ultimately show thesis using t view x that by blast
qed

subsection \<open>The cascade\<close>

lemma set_enqueue: "set (enqueue cs q) = set q \<union> set cs"
  unfolding enqueue_def by (induction cs arbitrary: q) auto

lemma edge_rel_children: "{c. (n, c) \<in> edge_rel d} = set (child_ids d n)"
  by (auto simp: edge_rel_def in_child_ids)

lemma edge_rel_parent: "(p, c) \<in> edge_rel d \<longleftrightarrow> p \<in> set (parent_ids d c)"
  by (auto simp: edge_rel_def in_parent_ids)

lemma skip_cascade_refines:
  assumes "nodes_ok (sdb s)" and "idx = node_exec_by_node_id (execution_rows x (sdb s))"
  shows "\<exists>s'. skip_cascade d idx q s = Inr s' \<and> advances x s s' \<and>
    run_view x (sdb s') = apply_skips (edge_rel d) (set q) (run_view x (sdb s))"
  using assms
proof (induction d idx q s rule: skip_cascade.induct)
  case (1 d idx s)
  then show ?case by simp
next
  case (2 d idx c q s)
  let ?E = "edge_rel d" and ?v = "run_view x (sdb s)"
  note look = node_lookup_index [OF 2(4), of x c, folded 2(5)]
  show ?case
  proof (cases "?v c = Some PENDING")
    case False
    have "\<exists>s'. skip_cascade d idx q s = Inr s' \<and> advances x s s' \<and> run_view x (sdb s') = apply_skips ?E (set q) ?v"
    proof (cases "node_lookup idx c s")
      case None
      then show ?thesis using 2(1,4,5) by blast
    next
      case (Some n)
      then have "ne_status n \<noteq> PENDING" using False look by (simp add: run_view_def)
      then show ?thesis using Some 2(3,4,5) by blast
    qed
    moreover have "skip_cascade d idx (c # q) s = skip_cascade d idx q s"
      using False look by (auto simp: run_view_def split: option.splits)
    ultimately show ?thesis using False by (simp add: apply_skips_drop)
  next
    case True
    then obtain n where n: "node_lookup idx c s = Some n" and st: "ne_status n = PENDING"
      using look by (auto simp: run_view_def)
    have nx: "n \<in> set (execution_rows x (sdb s))" and nid: "ne_node_id n = c"
      using n look row_get_Some [of ne_node_id c "execution_rows x (sdb s)" n] by auto
    from transition_advances [OF 2(4) nx st] obtain s1 where
      t: "transition_node_status (ne_id n) PENDING SKIPPED s = Inr (set_node_status SKIPPED (now s) n, s1)"
      and adv: "advances x s s1" and view: "run_view x (sdb s1) = ?v(c \<mapsto> SKIPPED)" using nid by metis
    have "\<exists>s'. skip_cascade d idx (enqueue (child_ids d c) q) s1 = Inr s' \<and> advances x s1 s' \<and>
        run_view x (sdb s') = apply_skips ?E (set (enqueue (child_ids d c) q)) (run_view x (sdb s1))"
      using 2(2) [OF n st t] 2(4,5) adv advances_nodes_ok advances_index by auto
    then obtain s' where s': "skip_cascade d idx (enqueue (child_ids d c) q) s1 = Inr s'" "advances x s1 s'"
      "run_view x (sdb s') = apply_skips ?E (set q \<union> set (child_ids d c)) (?v(c \<mapsto> SKIPPED))"
      by (auto simp: set_enqueue view)
    have "skip_cascade d idx (c # q) s = Inr s'" using n st t s'(1) by simp
    moreover have "run_view x (sdb s') = apply_skips ?E (set (c # q)) ?v"
      using s'(3) apply_skips_take [where \<sigma> = ?v and c = c and E = ?E and S = "set q", OF True] by (simp add: edge_rel_children)
    ultimately show ?thesis using adv s'(2) advances_trans by blast
  qed
qed

subsection \<open>The children\<close>

definition ready :: "WorkflowDefinition \<Rightarrow> view \<Rightarrow> string \<Rightarrow> bool" where
  "ready d \<sigma> c \<longleftrightarrow> \<sigma> c = Some PENDING \<and> (\<forall>p \<in> set (parent_ids d c). \<sigma> p = Some SUCCEEDED)"

definition parents_known :: "WorkflowDefinition \<Rightarrow> view \<Rightarrow> string list \<Rightarrow> bool" where
  "parents_known d \<sigma> cs \<longleftrightarrow> (\<forall>c \<in> set cs. \<forall>p \<in> set (parent_ids d c). \<sigma> p \<noteq> None)"

lemma parents_succeeded_ok:
  assumes "nodes_ok (sdb s)" and "idx = node_exec_by_node_id (execution_rows x (sdb s))"
    and "\<forall>p \<in> set ps. run_view x (sdb s) p \<noteq> None"
  shows "parents_succeeded idx ps s = Inr (\<forall>p \<in> set ps. run_view x (sdb s) p = Some SUCCEEDED)"
  using assms(3)
proof (induction ps)
  case (Cons p ps)
  then obtain n where "node_lookup idx p s = Some n" "run_view x (sdb s) p = Some (ne_status n)"
    using node_lookup_index [OF assms(1), of x p, folded assms(2)] by (auto simp: run_view_def)
  with Cons show ?case by simp
qed simp

lemma advances_keeps_row:
  assumes "advances x s s'" and "n \<in> set (execution_rows x (sdb s))" and "ne_status n \<noteq> PENDING"
  shows "n \<in> set (execution_rows x (sdb s'))"
proof -
  have "list_all2 (advance x t) rs rs' \<Longrightarrow> n \<in> set rs \<Longrightarrow> n \<in> set rs'" for t rs rs'
    by (induction rule: list_all2_induct) (use assms(3) in \<open>auto simp: advance_def\<close>)
  then show ?thesis using assms(1,2) unfolding advances_def in_execution_rows by blast
qed

lemma ready_after_queued:
  assumes "\<sigma> c = Some PENDING"
  shows "ready d (\<sigma>(c \<mapsto> QUEUED)) b \<longleftrightarrow> b \<noteq> c \<and> ready d \<sigma> b"
  using assms by (auto simp: ready_def)

text \<open>One child: passed over, or queued before the rest.\<close>

lemma queue_children_skip:
  assumes "nodes_ok (sdb s)" and "idx = node_exec_by_node_id (execution_rows x (sdb s))"
    and "\<forall>p \<in> set (parent_ids d c). run_view x (sdb s) p \<noteq> None" and "\<not> ready d (run_view x (sdb s)) c"
  shows "queue_children d idx (c # cs) s = queue_children d idx cs s"
  using assms(4) node_lookup_index [OF assms(1), of x c, folded assms(2)] parents_succeeded_ok [OF assms(1-3)]
  by (auto simp: ready_def run_view_def split: option.splits)

lemma queue_children_take:
  assumes "nodes_ok (sdb s)" and "idx = node_exec_by_node_id (execution_rows x (sdb s))"
    and "\<forall>p \<in> set (parent_ids d c). run_view x (sdb s) p \<noteq> None" and "ready d (run_view x (sdb s)) c"
  obtains n s1 where "\<And>cs. queue_children d idx (c # cs) s = rbind (queue_children d idx cs s1) (\<lambda>(rest, s2). Inr (n # rest, s2))"
    and "advances x s s1" and "run_view x (sdb s1) = (run_view x (sdb s))(c \<mapsto> QUEUED)"
    and "n \<in> set (execution_rows x (sdb s1))" and "ne_node_id n = c" and "ne_status n = QUEUED"
proof -
  note look = node_lookup_index [OF assms(1), of x c, folded assms(2)]
  from assms(4) obtain m where m: "node_lookup idx c s = Some m" and st: "ne_status m = PENDING"
    using look by (auto simp: ready_def run_view_def)
  have mx: "m \<in> set (execution_rows x (sdb s))" and mid: "ne_node_id m = c"
    using m look row_get_Some [of ne_node_id c "execution_rows x (sdb s)" m] by auto
  let ?n = "set_node_status QUEUED (now s) m"
  from transition_advances [OF assms(1) mx st] obtain s1 where
    t: "transition_node_status (ne_id m) PENDING QUEUED s = Inr (?n, s1)"
    and s1: "advances x s s1" "run_view x (sdb s1) = (run_view x (sdb s))(c \<mapsto> QUEUED)" "?n \<in> set (execution_rows x (sdb s1))"
    using mid by metis
  have "queue_children d idx (c # cs) s = rbind (queue_children d idx cs s1) (\<lambda>(rest, s2). Inr (?n # rest, s2))" for cs
    using m st t parents_succeeded_ok [OF assms(1-3)] assms(4) by (simp add: ready_def)
  from that [OF this s1] show thesis using mid by simp
qed

lemma queue_children_refines:
  assumes "nodes_ok (sdb s)" and "idx = node_exec_by_node_id (execution_rows x (sdb s))"
    and "parents_known d (run_view x (sdb s)) cs"
  shows "\<exists>queued s'. queue_children d idx cs s = Inr (queued, s') \<and> advances x s s' \<and>
    run_view x (sdb s') =
      (\<lambda>c. if c \<in> set cs \<and> ready d (run_view x (sdb s)) c then Some QUEUED else run_view x (sdb s) c) \<and>
    set queued \<subseteq> set (execution_rows x (sdb s')) \<and> (\<forall>n \<in> set queued. ne_status n = QUEUED) \<and>
    ne_node_id ` set queued = {c \<in> set cs. ready d (run_view x (sdb s)) c} \<and> distinct (map ne_node_id queued)"
  using assms
proof (induction cs arbitrary: s)
  case Nil
  then show ?case by auto
next
  case (Cons c cs)
  let ?v = "run_view x (sdb s)"
  have pk: "parents_known d ?v cs" "\<forall>p \<in> set (parent_ids d c). ?v p \<noteq> None"
    using Cons.prems(3) by (auto simp: parents_known_def)
  show ?case
  proof (cases "ready d ?v c")
    case False
    have "{b \<in> set (c # cs). ready d ?v b} = {b \<in> set cs. ready d ?v b}"
      "(\<lambda>b. if b \<in> set (c # cs) \<and> ready d ?v b then Some QUEUED else ?v b) =
        (\<lambda>b. if b \<in> set cs \<and> ready d ?v b then Some QUEUED else ?v b)" using False by auto
    then show ?thesis using Cons.IH [OF Cons.prems(1,2) pk(1)] queue_children_skip [OF Cons.prems(1,2) pk(2) False] by presburger
  next
    case True
    from queue_children_take [OF Cons.prems(1,2) pk(2) True] obtain n s1 where
      q: "queue_children d idx (c # cs) s = rbind (queue_children d idx cs s1) (\<lambda>(rest, s2). Inr (n # rest, s2))"
      and adv: "advances x s s1" and view: "run_view x (sdb s1) = ?v(c \<mapsto> QUEUED)"
      and new: "n \<in> set (execution_rows x (sdb s1))" and n: "ne_node_id n = c" "ne_status n = QUEUED" by metis
    have pk1: "parents_known d (run_view x (sdb s1)) cs"
      using pk(1) unfolding parents_known_def view by (metis fun_upd_apply option.distinct(1))
    have ok1: "nodes_ok (sdb s1)" and idx1: "idx = node_exec_by_node_id (execution_rows x (sdb s1))"
      using Cons.prems(1,2) advances_nodes_ok [OF adv] advances_index [OF adv, of x] by simp_all
    have pend: "?v c = Some PENDING" using True by (simp add: ready_def)
    note rdy = ready_after_queued [where \<sigma> = ?v and c = c and d = d, OF pend]
    from Cons.IH [OF ok1 idx1 pk1, unfolded view] obtain queued s' where IH: "queue_children d idx cs s1 = Inr (queued, s')" "advances x s1 s'"
      "run_view x (sdb s') = (\<lambda>b. if b \<in> set cs \<and> ready d (?v(c \<mapsto> QUEUED)) b then Some QUEUED else (?v(c \<mapsto> QUEUED)) b)"
      "set queued \<subseteq> set (execution_rows x (sdb s'))" "\<forall>n \<in> set queued. ne_status n = QUEUED"
      "ne_node_id ` set queued = {b \<in> set cs. ready d (?v(c \<mapsto> QUEUED)) b}" "distinct (map ne_node_id queued)"
      by (elim exE conjE) (rule that)
    have "run_view x (sdb s') = (\<lambda>b. if b \<in> set (c # cs) \<and> ready d ?v b then Some QUEUED else ?v b)"
      using True by (auto simp: IH(3) rdy)
    moreover have "n \<in> set (execution_rows x (sdb s'))" using advances_keeps_row [OF IH(2) new] n(2) by simp
    moreover have "ne_node_id ` set (n # queued) = {b \<in> set (c # cs). ready d ?v b}" using IH(6) True n(1) by (auto simp: rdy)
    moreover have "distinct (map ne_node_id (n # queued))" using IH(6,7) n(1) by (auto simp: rdy)
    ultimately show ?thesis using IH(1,4,5) n(2) q advances_trans [OF adv IH(2)] by auto
  qed
qed

subsection \<open>Downstream of a success\<close>

definition branch_skips :: "WorkflowDefinition \<Rightarrow> string \<Rightarrow> string list \<Rightarrow> string set" where
  "branch_skips d nid skip_ids = (if child_ids d nid = [] then {} else set skip_ids)"

lemma apply_skips_known: "\<sigma> p \<noteq> None \<Longrightarrow> apply_skips E S \<sigma> p \<noteq> None"
  by (simp add: apply_skips_def)

lemma queue_downstream_refines:
  assumes ok: "nodes_ok (sdb s)" and idx: "idx = node_exec_by_node_id (execution_rows x (sdb s))"
    and known: "\<forall>p c. (p, c) \<in> edge_rel d \<longrightarrow> run_view x (sdb s) p \<noteq> None"
    and skips: "child_ids d (ne_node_id node) = [] \<or> condition_skip_ids node_def res = Inr skip_ids"
    and \<sigma>_def: "\<sigma> = apply_skips (edge_rel d) (branch_skips d (ne_node_id node) skip_ids) (run_view x (sdb s))"
  shows "\<exists>queued s'. queue_downstream_nodes d node_def node idx res s = Inr (queued, s') \<and> advances x s s' \<and>
    run_view x (sdb s') = apply_ready (edge_rel d) (ne_node_id node) \<sigma> \<and>
    set queued \<subseteq> set (execution_rows x (sdb s')) \<and> (\<forall>n \<in> set queued. ne_status n = QUEUED) \<and>
    ne_node_id ` set queued = {c. (ne_node_id node, c) \<in> edge_rel d \<and> ready d \<sigma> c} \<and>
    distinct (map ne_node_id queued)"
proof (cases "child_ids d (ne_node_id node) = []")
  case True
  then have none: "(ne_node_id node, c) \<notin> edge_rel d" for c
    using edge_rel_children [of "ne_node_id node" d] by auto
  have "\<sigma> = run_view x (sdb s)" using True by (simp add: \<sigma>_def branch_skips_def)
  then show ?thesis using True none
    by (auto simp: queue_downstream_nodes_def apply_ready_def intro!: exI [of _ "[]"] exI [of _ s])
next
  case False
  obtain s1 where c: "skip_cascade d idx skip_ids s = Inr s1" and adv: "advances x s s1"
    and v1: "run_view x (sdb s1) = \<sigma>"
    using skip_cascade_refines [OF ok idx, of d skip_ids] False unfolding \<sigma>_def branch_skips_def by auto
  have ok1: "nodes_ok (sdb s1)" and idx1: "idx = node_exec_by_node_id (execution_rows x (sdb s1))"
    using ok idx advances_nodes_ok [OF adv] advances_index [OF adv, of x] by simp_all
  have pk: "parents_known d (run_view x (sdb s1)) (child_ids d (ne_node_id node))"
    unfolding parents_known_def v1 \<sigma>_def by (intro ballI apply_skips_known) (use known edge_rel_parent in blast)
  from queue_children_refines [OF ok1 idx1 pk, unfolded v1] obtain queued s' where
    q: "queue_children d idx (child_ids d (ne_node_id node)) s1 = Inr (queued, s')" and adv': "advances x s1 s'"
    and v': "run_view x (sdb s') = (\<lambda>c. if c \<in> set (child_ids d (ne_node_id node)) \<and> ready d \<sigma> c then Some QUEUED else \<sigma> c)"
    and r: "set queued \<subseteq> set (execution_rows x (sdb s'))" "\<forall>n \<in> set queued. ne_status n = QUEUED"
      "ne_node_id ` set queued = {c \<in> set (child_ids d (ne_node_id node)). ready d \<sigma> c}" "distinct (map ne_node_id queued)"
    by (elim exE conjE) (rule that)
  have "queue_downstream_nodes d node_def node idx res s = Inr (queued, s')"
    using False skips c q by (simp add: queue_downstream_nodes_def)
  moreover have "run_view x (sdb s') = apply_ready (edge_rel d) (ne_node_id node) \<sigma>"
    unfolding v' apply_ready_def ready_def edge_rel_parent child_parent by (auto intro!: ext)
  moreover have "{c \<in> set (child_ids d (ne_node_id node)). ready d \<sigma> c} =
      {c. (ne_node_id node, c) \<in> edge_rel d \<and> ready d \<sigma> c}"
    using edge_rel_children [of "ne_node_id node" d] by auto
  ultimately show ?thesis using r advances_trans [OF adv adv'] by metis
qed

subsection \<open>Finishing the execution\<close>

definition final_status :: "NodeExecution list \<Rightarrow> ExecutionStatus" where
  "final_status rows = (if list_ex (\<lambda>n. ne_status n \<in> {FAILED, DEAD_LETTERED}) rows then X_FAILED else X_SUCCEEDED)"

definition finishes :: "Execution \<Rightarrow> session \<Rightarrow> bool" where
  "finishes e s \<longleftrightarrow> list_all is_terminal (execution_rows (ex_id e) (sdb s)) \<and> ex_status (held_execution e s) = X_RUNNING"

definition held_ok :: "uuid \<Rightarrow> session \<Rightarrow> bool" where
  "held_ok x s \<longleftrightarrow> distinct (map ex_id (executions (sdb s))) \<and>
     row_get ex_id x (executions (sdb s)) \<noteq> None \<and> row_get ex_id x (pinned s) \<noteq> None"

lemma transition_held:
  assumes "held_ok (ex_id e) s" and "ex_status (held_execution e s) = from_status"
  obtains e' s' where "transition_execution_status (ex_id e) from_status to_status s = Inr (e', s')"
proof -
  obtain r p where "row_get ex_id (ex_id e) (executions (sdb s)) = Some r" "row_get ex_id (ex_id e) (pinned s) = Some p"
    using assms(1) by (auto simp: held_ok_def)
  then show thesis
    using transition_execution_status_ok [of s "ex_id e" r from_status to_status] assms that
    by (auto simp: held_ok_def held_execution_def)
qed

lemma finish_execution_effect:
  assumes "held_ok (ex_id e) s"
  shows "\<exists>s'. finish_execution e s = Inr s' \<and>
    sdb s' = (sdb s)\<lparr>executions :=
      (if finishes e s
       then row_modify ex_id (ex_id e) (set_execution_status (final_status (execution_rows (ex_id e) (sdb s))) (now s)) (executions (sdb s))
       else executions (sdb s))\<rparr> \<and>
    now s' = now s \<and> uuids s' = uuids s \<and> used s' = used s"
proof (cases "finishes e s")
  case True
  let ?st = "final_status (execution_rows (ex_id e) (sdb s))"
  from True have "ex_status (held_execution e s) = X_RUNNING" by (simp add: finishes_def)
  then obtain e' s' where t: "transition_execution_status (ex_id e) X_RUNNING ?st s = Inr (e', s')"
    using assms transition_held by blast
  have "finish_execution e s = Inr s'"
    using True t unfolding finish_execution_def finishes_def final_status_def Let_def by simp
  then show ?thesis using True transition_execution_status_frame [OF t] by simp
next
  case False
  then have "finish_execution e s = Inr s"
    unfolding finish_execution_def finishes_def Let_def by (simp only: if_False)
  with False show ?thesis by simp
qed

end
