(* ===== verification/Completion.thy ===== *)
theory Completion
  imports Worker_Refinement
begin

section \<open>Completing a job\<close>

text \<open>
  What \<open>complete_unit\<close> does to the database when a worker comes back with a result, on every
  branch: a success (\<open>complete_success\<close>), a failure with attempts left (\<open>complete_retry\<close>), a
  failure without (\<open>complete_dead\<close>), and a node that is no longer running. Each lemma gives the
  rows of the node table exactly, so that invariants follow without opening the definitions again.
\<close>

subsection \<open>The situation of a job\<close>

text \<open>
  The worker holds the execution object, the rows are well-formed, the node is running, and every
  parent an edge names has a row.
\<close>

definition job_ok :: "job_context \<Rightarrow> NodeExecution \<Rightarrow> session \<Rightarrow> bool" where
  "job_ok jc n s \<longleftrightarrow>
     nodes_ok (sdb s) \<and> held_ok (ex_id (jc_execution jc)) s \<and>
     n \<in> set (execution_rows (ex_id (jc_execution jc)) (sdb s)) \<and> ne_status n = RUNNING \<and>
     (\<forall>p c. (p, c) \<in> edge_rel (jc_definition jc) \<longrightarrow> run_view (ex_id (jc_execution jc)) (sdb s) p \<noteq> None)"

lemma add_log_rows [simp]:
  "execution_rows x (sdb (add_log a b l t m e s)) = execution_rows x (sdb s)"
  "nodes_ok (sdb (add_log a b l t m e s)) = nodes_ok (sdb s)"
  "run_view x (sdb (add_log a b l t m e s)) = run_view x (sdb s)"
  by (simp_all add: execution_rows_def nodes_ok_def run_view_def fun_eq_iff)

lemma find_row:
  "nodes_ok db \<Longrightarrow> n \<in> set (execution_rows x db) \<Longrightarrow>
   find (\<lambda>r. ne_id r = ne_id n) (execution_rows x db) = Some n"
  using row_get_distinct [OF execution_rows_ids, of db n x] by (simp add: row_get_def)

lemma run_view_row:
  "nodes_ok db \<Longrightarrow> n \<in> set (execution_rows x db) \<Longrightarrow> run_view x db (ne_node_id n) = Some (ne_status n)"
  using row_get_distinct [of ne_node_id "execution_rows x db" n] by (simp add: run_view_def nodes_ok_def)

lemma same_nodes:
  assumes "node_executions db' = node_executions db"
  shows "execution_rows x db' = execution_rows x db" and "nodes_ok db' = nodes_ok db" and "run_view x db' = run_view x db"
  using assms by (simp_all add: execution_rows_def nodes_ok_def run_view_def fun_eq_iff)

subsection \<open>Recording the end of an attempt\<close>

text \<open>
  Both branches first write the payload or the error into the row and then move it out of RUNNING.
\<close>

definition end_attempt :: "(NodeExecution \<Rightarrow> NodeExecution) \<Rightarrow> NodeExecutionStatus \<Rightarrow> time \<Rightarrow> NodeExecution \<Rightarrow> NodeExecution" where
  "end_attempt g st t n = set_node_status st t (g n)"

lemma row_modify_compose:
  assumes "\<And>n. ne_id (f n) = ne_id n"
  shows "row_modify ne_id i g (row_modify ne_id i f rs) = row_modify ne_id i (g \<circ> f) rs"
  using assms by (induction rs) auto

lemma end_attempt_effect:
  assumes ok: "nodes_ok (sdb s)" and n: "n \<in> set (node_executions (sdb s))" and st: "ne_status n = RUNNING"
    and g: "\<And>n. ne_id (g n) = ne_id n \<and> ne_execution_id (g n) = ne_execution_id n \<and> ne_node_id (g n) = ne_node_id n \<and>
              ne_max_attempts (g n) = ne_max_attempts n \<and> ne_status (g n) = ne_status n"
  obtains s' where
    "transition_node_status (ne_id n) RUNNING to_status
       (modify_db (node_executions_update (row_modify ne_id (ne_id n) g)) s) = Inr (end_attempt g to_status (now s) n, s')"
    and "sdb s' = (sdb s)\<lparr>node_executions := row_modify ne_id (ne_id n) (end_attempt g to_status (now s)) (node_executions (sdb s))\<rparr>"
    and "nodes_ok (sdb s')" and "node_keys (node_executions (sdb s')) = node_keys (node_executions (sdb s))"
    and "\<And>y. y \<noteq> ne_execution_id n \<Longrightarrow> execution_rows y (sdb s') = execution_rows y (sdb s)"
    and "run_view (ne_execution_id n) (sdb s') = (run_view (ne_execution_id n) (sdb s))(ne_node_id n \<mapsto> to_status)"
    and "pinned s' = pinned s" and "now s' = now s" and "uuids s' = uuids s" and "used s' = used s"
proof -
  let ?s0 = "modify_db (node_executions_update (row_modify ne_id (ne_id n) g)) s"
  have rows0: "node_executions (sdb ?s0) = row_modify ne_id (ne_id n) g (node_executions (sdb s))" by simp
  note e0 = modify_node_effect [OF ok n _ rows0]
  have k0: "node_keys (node_executions (sdb ?s0)) = node_keys (node_executions (sdb s))"
    and ok0: "nodes_ok (sdb ?s0)" using e0(1,2) g by blast+
  have v0: "run_view (ne_execution_id n) (sdb ?s0) = (run_view (ne_execution_id n) (sdb s))(ne_node_id n \<mapsto> RUNNING)"
    using e0(4) g st by auto
  have n0: "g n \<in> set (node_executions (sdb ?s0))" using n by (auto simp: in_set_row_modify intro!: bexI [of _ n])
  have st0: "ne_status (g n) = RUNNING" using g st by simp
  have gn: "ne_id (g n) = ne_id n" "ne_execution_id (g n) = ne_execution_id n" "ne_node_id (g n) = ne_node_id n"
    using g by auto
  from transition_node_effect [OF ok0 n0 st0, of to_status] obtain s' where
    t: "transition_node_status (ne_id n) RUNNING to_status ?s0 = Inr (set_node_status to_status (now ?s0) (g n), s')"
    and a: "nodes_ok (sdb s')" "node_keys (node_executions (sdb s')) = node_keys (node_executions (sdb ?s0))"
    and db: "sdb s' = (sdb ?s0)\<lparr>node_executions := row_modify ne_id (ne_id n) (set_node_status to_status (now ?s0)) (node_executions (sdb ?s0))\<rparr>"
    and o: "\<And>y. y \<noteq> ne_execution_id n \<Longrightarrow> execution_rows y (sdb s') = execution_rows y (sdb ?s0)"
    and v: "run_view (ne_execution_id n) (sdb s') = (run_view (ne_execution_id n) (sdb ?s0))(ne_node_id n \<mapsto> to_status)"
    and r: "pinned s' = pinned ?s0" "now s' = now ?s0" "uuids s' = uuids ?s0" "used s' = used ?s0"
    unfolding gn by blast
  show thesis
  proof (rule that)
    show "transition_node_status (ne_id n) RUNNING to_status ?s0 = Inr (end_attempt g to_status (now s) n, s')"
      using t by (simp add: end_attempt_def)
    have "set_node_status to_status (now s) \<circ> g = end_attempt g to_status (now s)"
      by (simp add: end_attempt_def fun_eq_iff)
    then show "sdb s' = (sdb s)\<lparr>node_executions := row_modify ne_id (ne_id n) (end_attempt g to_status (now s)) (node_executions (sdb s))\<rparr>"
      using db g by (simp add: row_modify_compose)
    show "execution_rows y (sdb s') = execution_rows y (sdb s)" if "y \<noteq> ne_execution_id n" for y
      using o [OF that] e0(3) [of y] g that by auto
    show "run_view (ne_execution_id n) (sdb s') = (run_view (ne_execution_id n) (sdb s))(ne_node_id n \<mapsto> to_status)"
      using v v0 by simp
  qed (use a k0 r in simp_all)
qed

lemma set_output_fields [simp]:
  "ne_id (set_output v n) = ne_id n" "ne_execution_id (set_output v n) = ne_execution_id n"
  "ne_node_id (set_output v n) = ne_node_id n" "ne_max_attempts (set_output v n) = ne_max_attempts n"
  "ne_status (set_output v n) = ne_status n" "ne_attempt (set_output v n) = ne_attempt n"
  "ne_output_payload (set_output v n) = Some v"
  by (simp_all add: set_output_def)

lemma set_error_fields [simp]:
  "ne_id (set_error v n) = ne_id n" "ne_execution_id (set_error v n) = ne_execution_id n"
  "ne_node_id (set_error v n) = ne_node_id n" "ne_max_attempts (set_error v n) = ne_max_attempts n"
  "ne_status (set_error v n) = ne_status n" "ne_attempt (set_error v n) = ne_attempt n"
  "ne_error_message (set_error v n) = v" "ne_redis_message_id (set_error v n) = ne_redis_message_id n"
  by (simp_all add: set_error_def)

subsection \<open>Success\<close>

text \<open>The node table after a success: the row of the node has succeeded, others have advanced.\<close>

definition success_row :: "uuid \<Rightarrow> uuid \<Rightarrow> jdict \<Rightarrow> time \<Rightarrow> NodeExecution \<Rightarrow> NodeExecution \<Rightarrow> bool" where
  "success_row x i out t r r' \<longleftrightarrow>
     (if ne_id r = i then r' = end_attempt (set_output out) SUCCEEDED t r else advance x t r r')"

definition queued_children :: "WorkflowDefinition \<Rightarrow> string \<Rightarrow> view \<Rightarrow> string set" where
  "queued_children d nid \<sigma> = {c. (nid, c) \<in> edge_rel d \<and> ready d \<sigma> c}"

lemma list_all2_after_modify:
  assumes "list_all2 (advance x t) (row_modify ne_id i f rs) rs'" and "\<And>r. r \<in> set rs \<Longrightarrow> ne_id r = i \<Longrightarrow> ne_status (f r) \<noteq> PENDING"
  shows "list_all2 (\<lambda>r r'. if ne_id r = i then r' = f r else advance x t r r') rs rs'"
proof -
  have "list_all2 (\<lambda>r r'. advance x t (if ne_id r = i then f r else r) r') rs rs'"
    using assms(1) by (simp add: row_modify_def list_all2_map1)
  then show ?thesis
    by (rule list.rel_mono_strong) (use assms(2) in \<open>auto simp: advance_def split: if_splits\<close>)
qed

lemma success_marked:
  assumes j: "job_ok jc n s" and suc: "r_success res" and x: "x = ex_id (jc_execution jc)"
  obtains s2 where
    "record_result jc n idx res s = queue_downstream_nodes (jc_definition jc) (jc_node_def jc)
       (end_attempt (set_output (r_output res)) SUCCEEDED (now s) n) idx res s2"
    and "node_executions (sdb s2) = row_modify ne_id (ne_id n) (end_attempt (set_output (r_output res)) SUCCEEDED (now s)) (node_executions (sdb s))"
    and "nodes_ok (sdb s2)" and "node_keys (node_executions (sdb s2)) = node_keys (node_executions (sdb s))"
    and "run_view x (sdb s2) = (run_view x (sdb s))(ne_node_id n \<mapsto> SUCCEEDED)"
    and "executions (sdb s2) = executions (sdb s)" and "dead_letter_jobs (sdb s2) = dead_letter_jobs (sdb s)"
    and "workflows (sdb s2) = workflows (sdb s)" and "workflow_versions (sdb s2) = workflow_versions (sdb s)"
    and "pinned s2 = pinned s" and "now s2 = now s"
proof -
  let ?out = "set_output (r_output res)" let ?n = "end_attempt ?out SUCCEEDED (now s) n"
  have ok: "nodes_ok (sdb s)" and st: "ne_status n = RUNNING" and n: "n \<in> set (node_executions (sdb s))" and xn: "ne_execution_id n = x"
    using j by (auto simp: job_ok_def x in_execution_rows)
  have g: "\<And>m. ne_id (?out m) = ne_id m \<and> ne_execution_id (?out m) = ne_execution_id m \<and> ne_node_id (?out m) = ne_node_id m \<and>
      ne_max_attempts (?out m) = ne_max_attempts m \<and> ne_status (?out m) = ne_status m" by simp
  obtain s1 where
    t: "transition_node_status (ne_id n) RUNNING SUCCEEDED
       (modify_db (node_executions_update (row_modify ne_id (ne_id n) ?out)) s) = Inr (?n, s1)"
    and db: "sdb s1 = (sdb s)\<lparr>node_executions := row_modify ne_id (ne_id n) (end_attempt ?out SUCCEEDED (now s)) (node_executions (sdb s))\<rparr>"
    and ok1: "nodes_ok (sdb s1)" and keys: "node_keys (node_executions (sdb s1)) = node_keys (node_executions (sdb s))"
    and view: "run_view (ne_execution_id n) (sdb s1) = (run_view (ne_execution_id n) (sdb s))(ne_node_id n \<mapsto> SUCCEEDED)"
    and rest: "pinned s1 = pinned s" "now s1 = now s"
    by (rule end_attempt_effect [OF ok n st g, of SUCCEEDED])
  show thesis
    by (rule that [of "node_succeeded (ne_execution_id ?n) (ne_id ?n) (ne_node_id ?n) s1"])
      (use suc t db ok1 keys view [unfolded xn] rest in \<open>simp_all add: record_result_def node_succeeded_def\<close>)
qed

lemma record_success:
  assumes j: "job_ok jc n s" and suc: "r_success res" and sk: "child_ids (jc_definition jc) (ne_node_id n) = [] \<or> condition_skip_ids (jc_node_def jc) res = Inr skip_ids"
    and x: "x = ex_id (jc_execution jc)" and idx: "idx = node_exec_by_node_id (execution_rows x (sdb s))"
    and \<sigma>: "\<sigma> = apply_skips (edge_rel (jc_definition jc)) (branch_skips (jc_definition jc) (ne_node_id n) skip_ids)
            ((run_view x (sdb s))(ne_node_id n \<mapsto> SUCCEEDED))"
  shows "\<exists>queued s'. record_result jc n idx res s = Inr (queued, s') \<and>
    list_all2 (success_row x (ne_id n) (r_output res) (now s)) (node_executions (sdb s)) (node_executions (sdb s')) \<and>
    run_view x (sdb s') = apply_ready (edge_rel (jc_definition jc)) (ne_node_id n) \<sigma> \<and>
    executions (sdb s') = executions (sdb s) \<and> dead_letter_jobs (sdb s') = dead_letter_jobs (sdb s) \<and>
    workflows (sdb s') = workflows (sdb s) \<and> workflow_versions (sdb s') = workflow_versions (sdb s) \<and>
    node_keys (node_executions (sdb s')) = node_keys (node_executions (sdb s)) \<and> pinned s' = pinned s \<and> now s' = now s \<and>
    set queued \<subseteq> set (execution_rows x (sdb s')) \<and> (\<forall>n \<in> set queued. ne_status n = QUEUED) \<and>
    ne_node_id ` set queued = queued_children (jc_definition jc) (ne_node_id n) \<sigma> \<and> distinct (map ne_node_id queued)"
proof -
  let ?d = "jc_definition jc" and ?f = "end_attempt (set_output (r_output res)) SUCCEEDED (now s)"
  let ?E = "edge_rel ?d" and ?n = "?f n"
  obtain s2 where rr: "record_result jc n idx res s = queue_downstream_nodes ?d (jc_node_def jc) ?n idx res s2"
    and rows: "node_executions (sdb s2) = row_modify ne_id (ne_id n) ?f (node_executions (sdb s))"
    and ok2: "nodes_ok (sdb s2)" and keys: "node_keys (node_executions (sdb s2)) = node_keys (node_executions (sdb s))"
    and v2: "run_view x (sdb s2) = (run_view x (sdb s))(ne_node_id n \<mapsto> SUCCEEDED)"
    and rest: "executions (sdb s2) = executions (sdb s)" "dead_letter_jobs (sdb s2) = dead_letter_jobs (sdb s)"
      "workflows (sdb s2) = workflows (sdb s)" "workflow_versions (sdb s2) = workflow_versions (sdb s)" "pinned s2 = pinned s" "now s2 = now s"
    by (rule success_marked [OF j suc x, of idx])
  have nid: "ne_node_id ?n = ne_node_id n" by (simp add: end_attempt_def)
  have known2: "\<forall>p c. (p, c) \<in> ?E \<longrightarrow> run_view x (sdb s2) p \<noteq> None" unfolding v2 using j by (simp add: job_ok_def x)
  have idx2: "idx = node_exec_by_node_id (execution_rows x (sdb s2))" using idx index_by_keys [OF keys, of x] by simp
  have \<sigma>2: "\<sigma> = apply_skips ?E (branch_skips ?d (ne_node_id ?n) skip_ids) (run_view x (sdb s2))"
    by (subst v2, subst nid) (rule \<sigma>)
  from sk have sk': "child_ids ?d (ne_node_id ?n) = [] \<or> condition_skip_ids (jc_node_def jc) res = Inr skip_ids"
    by (simp add: nid)
  from queue_downstream_refines [OF ok2 idx2 known2 sk' \<sigma>2, folded queued_children_def] obtain queued s' where
    q: "queue_downstream_nodes ?d (jc_node_def jc) ?n idx res s2 = Inr (queued, s')" and adv: "advances x s2 s'"
    and v': "run_view x (sdb s') = apply_ready ?E (ne_node_id ?n) \<sigma>"
    and r: "set queued \<subseteq> set (execution_rows x (sdb s'))" "\<forall>n \<in> set queued. ne_status n = QUEUED"
      "ne_node_id ` set queued = queued_children ?d (ne_node_id ?n) \<sigma>" "distinct (map ne_node_id queued)"
    by (elim exE conjE) (rule that)
  have "list_all2 (advance x (now s)) (row_modify ne_id (ne_id n) ?f (node_executions (sdb s))) (node_executions (sdb s'))"
    using adv rows rest by (simp add: advances_def)
  then have "list_all2 (success_row x (ne_id n) (r_output res) (now s)) (node_executions (sdb s)) (node_executions (sdb s'))"
    unfolding success_row_def by (rule list_all2_after_modify) (simp add: end_attempt_def)
  moreover have "sdb s' = (sdb s2)\<lparr>node_executions := node_executions (sdb s')\<rparr>" using adv by (simp add: advances_def)
  then have "executions (sdb s') = executions (sdb s2)" "dead_letter_jobs (sdb s') = dead_letter_jobs (sdb s2)"
    "workflows (sdb s') = workflows (sdb s2)" "workflow_versions (sdb s') = workflow_versions (sdb s2)"
    by (metis database.select_convs database.update_convs database.surjective)+
  moreover have "pinned s' = pinned s" "now s' = now s" using adv rest by (simp_all add: advances_def)
  ultimately show ?thesis using rr q v' [unfolded nid] r [unfolded nid] rest advances_keys [OF adv] keys by auto
qed

subsection \<open>Failure\<close>

definition retry_row :: "string option \<Rightarrow> time \<Rightarrow> NodeExecution \<Rightarrow> NodeExecution" where
  "retry_row err t n = set_node_status QUEUED t (set_node_status RETRYING t (end_attempt (set_error err) FAILED t n))"

definition dead_row :: "string option \<Rightarrow> time \<Rightarrow> NodeExecution \<Rightarrow> NodeExecution" where
  "dead_row err t n = set_node_status DEAD_LETTERED t (end_attempt (set_error err) FAILED t n)"

lemma end_row_fields [simp]:
  "ne_id (retry_row err t n) = ne_id n" "ne_id (dead_row err t n) = ne_id n"
  "ne_execution_id (retry_row err t n) = ne_execution_id n" "ne_execution_id (dead_row err t n) = ne_execution_id n"
  "ne_node_id (retry_row err t n) = ne_node_id n" "ne_node_id (dead_row err t n) = ne_node_id n"
  "ne_max_attempts (retry_row err t n) = ne_max_attempts n" "ne_max_attempts (dead_row err t n) = ne_max_attempts n"
  "ne_status (retry_row err t n) = QUEUED" "ne_status (dead_row err t n) = DEAD_LETTERED"
  "ne_attempt (retry_row err t n) = ne_attempt n + 1" "ne_attempt (dead_row err t n) = ne_attempt n"
  by (simp_all add: retry_row_def dead_row_def end_attempt_def)

lemma end_attempt_fields [simp]:
  "ne_id (end_attempt (set_error err) st t n) = ne_id n"
  "ne_execution_id (end_attempt (set_error err) st t n) = ne_execution_id n"
  "ne_node_id (end_attempt (set_error err) st t n) = ne_node_id n"
  "ne_max_attempts (end_attempt (set_error err) st t n) = ne_max_attempts n"
  "ne_status (end_attempt (set_error err) st t n) = st"
  "ne_error_message (end_attempt (set_error err) st t n) = err"
  by (simp_all add: end_attempt_def)

lemma held_execution_id [simp]: "ex_id (held_execution e s) = ex_id e"
  by (auto simp: held_execution_def split: option.splits dest: row_get_Some)

text \<open>After the row has moved to FAILED and the failure is logged.\<close>

lemma fail_attempt:
  assumes ok: "nodes_ok (sdb s)" and n: "n \<in> set (node_executions (sdb s))" and st: "ne_status n = RUNNING"
    and row: "n1 = end_attempt (set_error (r_error res)) FAILED (now s) n" and no: "\<not> r_success res"
  obtains s1 where "record_result jc n idx res s = handle_node_failure (held_execution (jc_execution jc) s) n1 s1"
    and "node_executions (sdb s1) = row_modify ne_id (ne_id n) (end_attempt (set_error (r_error res)) FAILED (now s)) (node_executions (sdb s))"
    and "nodes_ok (sdb s1)" and "n1 \<in> set (node_executions (sdb s1))"
    and "executions (sdb s1) = executions (sdb s)" and "dead_letter_jobs (sdb s1) = dead_letter_jobs (sdb s)"
    and "workflows (sdb s1) = workflows (sdb s)" and "workflow_versions (sdb s1) = workflow_versions (sdb s)"
    and "pinned s1 = pinned s" and "now s1 = now s" and "uuids s1 = uuids s" and "used s1 = Suc (used s)"
proof -
  let ?g = "set_error (r_error res)"
  have g: "\<And>m. ne_id (?g m) = ne_id m \<and> ne_execution_id (?g m) = ne_execution_id m \<and> ne_node_id (?g m) = ne_node_id m \<and>
      ne_max_attempts (?g m) = ne_max_attempts m \<and> ne_status (?g m) = ne_status m" by simp
  obtain s0 where
    t: "transition_node_status (ne_id n) RUNNING FAILED
       (modify_db (node_executions_update (row_modify ne_id (ne_id n) ?g)) s) = Inr (n1, s0)"
    and db: "sdb s0 = (sdb s)\<lparr>node_executions := row_modify ne_id (ne_id n) (end_attempt ?g FAILED (now s)) (node_executions (sdb s))\<rparr>"
    and ok0: "nodes_ok (sdb s0)"
    and rest: "pinned s0 = pinned s" "now s0 = now s" "uuids s0 = uuids s" "used s0 = used s"
    unfolding row by (rule end_attempt_effect [OF ok n st g, of FAILED])
  have in0: "n1 \<in> set (node_executions (sdb s0))"
    unfolding db row using n by (auto simp: in_set_row_modify intro!: bexI [of _ n])
  have "held_execution (jc_execution jc) s0 = held_execution (jc_execution jc) s"
    using rest by (simp add: held_execution_def)
  then show thesis
    using t db ok0 rest in0 no
    by (intro that [of "node_failed (ne_execution_id n1) (ne_id n1) (ne_node_id n1) (ne_error_message n1) s0"])
      (simp_all add: record_result_def node_failed_def)
qed

lemma record_retry:
  assumes j: "job_ok jc n s" and no: "\<not> r_success res" and left: "ne_attempt n < ne_max_attempts n"
  shows "\<exists>s'. record_result jc n idx res s = Inr ([retry_row (r_error res) (now s) n], s') \<and>
    node_executions (sdb s') = row_modify ne_id (ne_id n) (retry_row (r_error res) (now s)) (node_executions (sdb s)) \<and>
    executions (sdb s') = executions (sdb s) \<and> dead_letter_jobs (sdb s') = dead_letter_jobs (sdb s) \<and>
    workflows (sdb s') = workflows (sdb s) \<and> workflow_versions (sdb s') = workflow_versions (sdb s) \<and>
    pinned s' = pinned s \<and> now s' = now s"
proof -
  have ok: "nodes_ok (sdb s)" and n: "n \<in> set (node_executions (sdb s))" and st: "ne_status n = RUNNING"
    using j by (auto simp: job_ok_def in_execution_rows)
  let ?f = "end_attempt (set_error (r_error res)) FAILED (now s)"
  obtain s1 where r: "record_result jc n idx res s = handle_node_failure (held_execution (jc_execution jc) s) (?f n) s1"
    and rows1: "node_executions (sdb s1) = row_modify ne_id (ne_id n) ?f (node_executions (sdb s))"
    and ok1: "nodes_ok (sdb s1)" and n1: "?f n \<in> set (node_executions (sdb s1))"
    and e1: "executions (sdb s1) = executions (sdb s)" "dead_letter_jobs (sdb s1) = dead_letter_jobs (sdb s)"
      "workflows (sdb s1) = workflows (sdb s)" "workflow_versions (sdb s1) = workflow_versions (sdb s)"
    and p1: "pinned s1 = pinned s" and t1: "now s1 = now s"
    by (rule fail_attempt [OF ok n st refl no, where jc = jc and idx = idx])
  have "ne_status (?f n) = FAILED" by simp
  from transition_node_effect [OF ok1 n1 this, of RETRYING] obtain s2 where
    t2: "transition_node_status (ne_id n) FAILED RETRYING s1 = Inr (set_node_status RETRYING (now s) (?f n), s2)"
    and ok2: "nodes_ok (sdb s2)"
    and db2: "sdb s2 = (sdb s1)\<lparr>node_executions := row_modify ne_id (ne_id n) (set_node_status RETRYING (now s)) (node_executions (sdb s1))\<rparr>"
    and p2: "pinned s2 = pinned s1" "now s2 = now s1"
    unfolding t1 by (auto simp: t1)
  have n2: "set_node_status RETRYING (now s) (?f n) \<in> set (node_executions (sdb s2))"
    unfolding db2 using n1 by (auto simp: in_set_row_modify intro!: bexI [of _ "?f n"])
  have "ne_status (set_node_status RETRYING (now s) (?f n)) = RETRYING" by simp
  from transition_node_effect [OF ok2 n2 this, of QUEUED] obtain s3 where
    t3: "transition_node_status (ne_id n) RETRYING QUEUED s2 = Inr (retry_row (r_error res) (now s) n, s3)"
    and db3: "sdb s3 = (sdb s2)\<lparr>node_executions := row_modify ne_id (ne_id n) (set_node_status QUEUED (now s)) (node_executions (sdb s2))\<rparr>"
    and p3: "pinned s3 = pinned s2" "now s3 = now s2"
    using p2 t1 by (auto simp: retry_row_def)
  have rows: "node_executions (sdb s3) = row_modify ne_id (ne_id n) (retry_row (r_error res) (now s)) (node_executions (sdb s))"
    unfolding db3 db2 rows1
    by (simp add: row_modify_compose comp_def retry_row_def [abs_def])
  have att: "ne_attempt (?f n) < ne_max_attempts (?f n)" using left by (simp add: end_attempt_def)
  let ?R = "retry_row (r_error res) (now s) n"
  have "record_result jc n idx res s = Inr ([?R], retry_scheduled (ex_id (jc_execution jc)) (ne_id ?R) (ne_node_id ?R) (ne_attempt ?R) s3)"
    using r t2 t3 att by (simp add: handle_node_failure_def)
  then show ?thesis
    using rows e1 p1 p2 p3 t1 db2 db3 by (simp add: retry_scheduled_def)
qed

lemma dead_letter_written:
  assumes j: "job_ok jc n s" and no: "\<not> r_success res" and left: "\<not> ne_attempt n < ne_max_attempts n"
    and e: "e = held_execution (jc_execution jc) s"
  obtains s4 where
    "record_result jc n idx res s =
      (if ex_status e = X_RUNNING
       then rbind (transition_execution_status (ex_id e) X_RUNNING X_FAILED s4) (\<lambda>(_, s5). Inr ([], s5))
       else Inr ([], s4))"
    and "node_executions (sdb s4) = row_modify ne_id (ne_id n) (dead_row (r_error res) (now s)) (node_executions (sdb s))"
    and "dead_letter_jobs (sdb s4) = dead_letter_jobs (sdb s) @
      [new_dead_letter (uuids s (used s + 2)) e (end_attempt (set_error (r_error res)) FAILED (now s) n) (now s)]"
    and "executions (sdb s4) = executions (sdb s)" and "workflows (sdb s4) = workflows (sdb s)"
    and "workflow_versions (sdb s4) = workflow_versions (sdb s)" and "pinned s4 = pinned s" and "now s4 = now s"
proof -
  have ok: "nodes_ok (sdb s)" and n: "n \<in> set (node_executions (sdb s))" and st: "ne_status n = RUNNING"
    using j by (auto simp: job_ok_def in_execution_rows)
  let ?f = "end_attempt (set_error (r_error res)) FAILED (now s)"
  obtain s1 where r: "record_result jc n idx res s = handle_node_failure e (?f n) s1"
    and rows1: "node_executions (sdb s1) = row_modify ne_id (ne_id n) ?f (node_executions (sdb s))"
    and ok1: "nodes_ok (sdb s1)" and n1: "?f n \<in> set (node_executions (sdb s1))"
    and e1: "executions (sdb s1) = executions (sdb s)" "dead_letter_jobs (sdb s1) = dead_letter_jobs (sdb s)"
      "workflows (sdb s1) = workflows (sdb s)" "workflow_versions (sdb s1) = workflow_versions (sdb s)"
    and p1: "pinned s1 = pinned s" and t1: "now s1 = now s" "uuids s1 = uuids s" "used s1 = Suc (used s)"
    unfolding e by (rule fail_attempt [OF ok n st refl no, where jc = jc and idx = idx])
  have "ne_status (?f n) = FAILED" by simp
  from transition_node_effect [OF ok1 n1 this, of DEAD_LETTERED] obtain s2 where
    t2: "transition_node_status (ne_id n) FAILED DEAD_LETTERED s1 = Inr (dead_row (r_error res) (now s) n, s2)"
    and db2: "sdb s2 = (sdb s1)\<lparr>node_executions := row_modify ne_id (ne_id n) (set_node_status DEAD_LETTERED (now s)) (node_executions (sdb s1))\<rparr>"
    and p2: "pinned s2 = pinned s1" "now s2 = now s1" "uuids s2 = uuids s1" "used s2 = used s1"
    by (auto simp: t1 dead_row_def)
  have rows2: "node_executions (sdb s2) = row_modify ne_id (ne_id n) (dead_row (r_error res) (now s)) (node_executions (sdb s))"
    unfolding db2 rows1 by (simp add: row_modify_compose comp_def dead_row_def [abs_def])
  have att: "\<not> ne_attempt (?f n) < ne_max_attempts (?f n)" using left by (simp add: end_attempt_def)
  let ?s3 = "snd (new_uuid (dead_lettered (ex_id e) (ne_id (?f n)) (ne_node_id (?f n)) (ne_error_message (?f n)) s2))"
  let ?job = "new_dead_letter (uuids s (used s + 2)) e (?f n) (now s)"
  let ?s4 = "modify_db (dead_letter_jobs_update (\<lambda>js. js @ [?job])) ?s3"
  have s3: "sdb ?s3 = sdb (dead_lettered (ex_id e) (ne_id (?f n)) (ne_node_id (?f n)) (ne_error_message (?f n)) s2)"
    "pinned ?s3 = pinned s" "now ?s3 = now s"
    using p1 p2 t1 by (simp_all add: new_uuid_def dead_lettered_def)
  have h: "record_result jc n idx res s =
      (if ex_status e = X_RUNNING
       then rbind (transition_execution_status (ex_id e) X_RUNNING X_FAILED ?s4) (\<lambda>(_, s5). Inr ([], s5))
       else Inr ([], ?s4))"
    using r t2 att p2 t1 by (simp add: handle_node_failure_def new_uuid_def dead_lettered_def Let_def)
  have s4: "node_executions (sdb ?s4) = row_modify ne_id (ne_id n) (dead_row (r_error res) (now s)) (node_executions (sdb s))"
    "dead_letter_jobs (sdb ?s4) = dead_letter_jobs (sdb s) @ [?job]" "executions (sdb ?s4) = executions (sdb s)"
    "workflows (sdb ?s4) = workflows (sdb s)" "workflow_versions (sdb ?s4) = workflow_versions (sdb s)"
    "pinned ?s4 = pinned s" "now ?s4 = now s"
    using rows2 e1 s3 db2 by (simp_all add: dead_lettered_def)
  show thesis by (rule that [OF h s4])
qed

lemma record_dead:
  assumes j: "job_ok jc n s" and no: "\<not> r_success res" and left: "\<not> ne_attempt n < ne_max_attempts n"
    and e: "e = held_execution (jc_execution jc) s"
  shows "\<exists>s'. record_result jc n idx res s = Inr ([], s') \<and>
    node_executions (sdb s') = row_modify ne_id (ne_id n) (dead_row (r_error res) (now s)) (node_executions (sdb s)) \<and>
    dead_letter_jobs (sdb s') = dead_letter_jobs (sdb s) @
      [new_dead_letter (uuids s (used s + 2)) e (end_attempt (set_error (r_error res)) FAILED (now s) n) (now s)] \<and>
    executions (sdb s') =
      (if ex_status e = X_RUNNING then row_modify ex_id (ex_id e) (set_execution_status X_FAILED (now s)) (executions (sdb s))
       else executions (sdb s)) \<and>
    pinned s' =
      (if ex_status e = X_RUNNING then row_modify ex_id (ex_id e) (set_execution_status X_FAILED (now s)) (pinned s)
       else pinned s) \<and>
    workflows (sdb s') = workflows (sdb s) \<and> workflow_versions (sdb s') = workflow_versions (sdb s) \<and> now s' = now s"
proof -
  let ?job = "new_dead_letter (uuids s (used s + 2)) e (end_attempt (set_error (r_error res)) FAILED (now s) n) (now s)"
  obtain s4 where h: "record_result jc n idx res s =
      (if ex_status e = X_RUNNING
       then rbind (transition_execution_status (ex_id e) X_RUNNING X_FAILED s4) (\<lambda>(_, s5). Inr ([], s5))
       else Inr ([], s4))"
    and s4: "node_executions (sdb s4) = row_modify ne_id (ne_id n) (dead_row (r_error res) (now s)) (node_executions (sdb s))"
      "dead_letter_jobs (sdb s4) = dead_letter_jobs (sdb s) @ [?job]" "executions (sdb s4) = executions (sdb s)"
      "workflows (sdb s4) = workflows (sdb s)" "workflow_versions (sdb s4) = workflow_versions (sdb s)"
      "pinned s4 = pinned s" "now s4 = now s"
    by (rule dead_letter_written [OF assms])
  show ?thesis
  proof (cases "ex_status e = X_RUNNING")
    case True
    have "held_ok (ex_id (jc_execution jc)) s4" using j s4 by (simp add: job_ok_def held_ok_def)
    moreover have "held_execution (jc_execution jc) s4 = e" using s4 e by (simp add: held_execution_def)
    ultimately obtain e' s5 where t5: "transition_execution_status (ex_id e) X_RUNNING X_FAILED s4 = Inr (e', s5)"
      using transition_held [of "jc_execution jc" s4 X_RUNNING X_FAILED] True e by auto
    have "record_result jc n idx res s = Inr ([], s5)" unfolding h t5 using True by simp
    then show ?thesis using True transition_execution_status_frame [OF t5] s4 by simp
  next
    case False
    then show ?thesis using h s4 by simp
  qed
qed

subsection \<open>The whole unit\<close>

lemma complete_unit_running:
  assumes "job_ok jc n s" and "x = ex_id (jc_execution jc)"
  shows "complete_unit jc (ne_id n) res s =
    rbind (record_result jc n (node_exec_by_node_id (execution_rows x (sdb s))) res s) (\<lambda>(ns, s1).
    rbind (finish_execution (jc_execution jc) s1) (\<lambda>s2. Inr (Some ns, s2)))"
proof -
  have "find (\<lambda>r. ne_id r = ne_id n) (execution_rows x (sdb s)) = Some n" and "ne_status n = RUNNING"
    using assms find_row [of "sdb s" n x] by (simp_all add: job_ok_def)
  then show ?thesis using assms(2) by (simp add: complete_unit_def Let_def)
qed

definition finished_executions :: "Execution \<Rightarrow> bool \<Rightarrow> time \<Rightarrow> NodeExecution list \<Rightarrow> Execution list \<Rightarrow> Execution list" where
  "finished_executions e running t rows es =
     (if list_all is_terminal rows \<and> running
      then row_modify ex_id (ex_id e) (set_execution_status (final_status rows) t) es else es)"

lemma finish_after_record:
  assumes h: "held_ok (ex_id e) s" and ex: "executions (sdb s1) = executions (sdb s)" and p: "pinned s1 = pinned s"
    and t: "now s1 = now s"
  shows "\<exists>s'. finish_execution e s1 = Inr s' \<and>
    sdb s' = (sdb s1)\<lparr>executions := finished_executions e (ex_status (held_execution e s) = X_RUNNING) (now s)
      (execution_rows (ex_id e) (sdb s1)) (executions (sdb s))\<rparr>"
proof -
  have "held_ok (ex_id e) s1" using h ex p by (simp add: held_ok_def)
  moreover have "held_execution e s1 = held_execution e s" using p by (simp add: held_execution_def)
  ultimately show ?thesis
    using finish_execution_effect [of e s1] ex t unfolding finished_executions_def finishes_def by auto
qed

lemma complete_success:
  assumes j: "job_ok jc n s" and suc: "r_success res" and sk: "child_ids (jc_definition jc) (ne_node_id n) = [] \<or> condition_skip_ids (jc_node_def jc) res = Inr skip_ids"
    and x: "x = ex_id (jc_execution jc)" and S: "S = branch_skips (jc_definition jc) (ne_node_id n) skip_ids"
  shows "\<exists>queued s'. complete_unit jc (ne_id n) res s = Inr (Some queued, s') \<and>
    list_all2 (success_row x (ne_id n) (r_output res) (now s)) (node_executions (sdb s)) (node_executions (sdb s')) \<and>
    run_view x (sdb s') = succeed (edge_rel (jc_definition jc)) (ne_node_id n) S (run_view x (sdb s)) \<and>
    executions (sdb s') = finished_executions (jc_execution jc) (ex_status (held_execution (jc_execution jc) s) = X_RUNNING)
      (now s) (execution_rows x (sdb s')) (executions (sdb s)) \<and>
    dead_letter_jobs (sdb s') = dead_letter_jobs (sdb s) \<and> workflows (sdb s') = workflows (sdb s) \<and>
    workflow_versions (sdb s') = workflow_versions (sdb s) \<and>
    node_keys (node_executions (sdb s')) = node_keys (node_executions (sdb s)) \<and>
    set queued \<subseteq> set (execution_rows x (sdb s')) \<and> (\<forall>n \<in> set queued. ne_status n = QUEUED) \<and>
    ne_node_id ` set queued = queued_children (jc_definition jc) (ne_node_id n)
      (apply_skips (edge_rel (jc_definition jc)) S ((run_view x (sdb s))(ne_node_id n \<mapsto> SUCCEEDED))) \<and>
    distinct (map ne_node_id queued)"
proof -
  from record_success [OF j suc sk x refl refl, folded S, folded succeed_def] obtain queued s1 where
    r: "record_result jc n (node_exec_by_node_id (execution_rows x (sdb s))) res s = Inr (queued, s1)"
    and rows: "list_all2 (success_row x (ne_id n) (r_output res) (now s)) (node_executions (sdb s)) (node_executions (sdb s1))"
    and view: "run_view x (sdb s1) = succeed (edge_rel (jc_definition jc)) (ne_node_id n) S (run_view x (sdb s))"
    and e: "executions (sdb s1) = executions (sdb s)" and t: "dead_letter_jobs (sdb s1) = dead_letter_jobs (sdb s)"
      "workflows (sdb s1) = workflows (sdb s)" "workflow_versions (sdb s1) = workflow_versions (sdb s)"
      "node_keys (node_executions (sdb s1)) = node_keys (node_executions (sdb s))"
    and p: "pinned s1 = pinned s" and nw: "now s1 = now s"
    and q: "set queued \<subseteq> set (execution_rows x (sdb s1))" "\<forall>n \<in> set queued. ne_status n = QUEUED"
      "ne_node_id ` set queued = queued_children (jc_definition jc) (ne_node_id n)
         (apply_skips (edge_rel (jc_definition jc)) S ((run_view x (sdb s))(ne_node_id n \<mapsto> SUCCEEDED)))"
      "distinct (map ne_node_id queued)"
    by (elim exE conjE) (rule that)
  have h: "held_ok (ex_id (jc_execution jc)) s" using j by (simp add: job_ok_def)
  from finish_after_record [OF h e p nw] obtain s' where f: "finish_execution (jc_execution jc) s1 = Inr s'"
    and db: "sdb s' = (sdb s1)\<lparr>executions := finished_executions (jc_execution jc)
      (ex_status (held_execution (jc_execution jc) s) = X_RUNNING) (now s) (execution_rows x (sdb s1)) (executions (sdb s))\<rparr>"
    unfolding x by blast
  have rows': "node_executions (sdb s') = node_executions (sdb s1)" by (simp add: db)
  note same = same_nodes [OF rows']
  have c: "complete_unit jc (ne_id n) res s = Inr (Some queued, s')"
    using r f by (simp add: complete_unit_running [OF j x])
  show ?thesis
    by (intro exI [of _ queued] exI [of _ s'] conjI c)
      (use rows view t q same in \<open>simp_all add: db\<close>)
qed

lemma complete_retry:
  assumes j: "job_ok jc n s" and no: "\<not> r_success res" and left: "ne_attempt n < ne_max_attempts n"
  shows "\<exists>s'. complete_unit jc (ne_id n) res s = Inr (Some [retry_row (r_error res) (now s) n], s') \<and>
    node_executions (sdb s') = row_modify ne_id (ne_id n) (retry_row (r_error res) (now s)) (node_executions (sdb s)) \<and>
    executions (sdb s') = executions (sdb s) \<and> dead_letter_jobs (sdb s') = dead_letter_jobs (sdb s) \<and>
    workflows (sdb s') = workflows (sdb s) \<and> workflow_versions (sdb s') = workflow_versions (sdb s)"
proof -
  let ?x = "ex_id (jc_execution jc)" and ?R = "retry_row (r_error res) (now s)"
  from record_retry [OF j no left, of "node_exec_by_node_id (execution_rows ?x (sdb s))"] obtain s1 where
    r: "record_result jc n (node_exec_by_node_id (execution_rows ?x (sdb s))) res s = Inr ([?R n], s1)"
    and rows: "node_executions (sdb s1) = row_modify ne_id (ne_id n) ?R (node_executions (sdb s))"
    and e: "executions (sdb s1) = executions (sdb s)" and t: "dead_letter_jobs (sdb s1) = dead_letter_jobs (sdb s)"
      "workflows (sdb s1) = workflows (sdb s)" "workflow_versions (sdb s1) = workflow_versions (sdb s)"
    and p: "pinned s1 = pinned s" and nw: "now s1 = now s"
    by (elim exE conjE) (rule that)
  have n: "n \<in> set (node_executions (sdb s))" "ne_execution_id n = ?x" and h: "held_ok ?x s"
    using j by (auto simp: job_ok_def in_execution_rows)
  have "?R n \<in> set (execution_rows ?x (sdb s1))"
    using n by (auto simp: in_execution_rows rows in_set_row_modify intro!: bexI [of _ n])
  then have "\<not> list_all is_terminal (execution_rows ?x (sdb s1))"
    by (auto simp: list_all_iff is_terminal_def TERMINAL_NODE_STATUSES_def intro!: bexI [of _ "?R n"])
  with finish_after_record [OF h e p nw] obtain s' where f: "finish_execution (jc_execution jc) s1 = Inr s'"
    and db: "sdb s' = (sdb s1)\<lparr>executions := executions (sdb s)\<rparr>"
    unfolding finished_executions_def by auto
  have "complete_unit jc (ne_id n) res s = Inr (Some [?R n], s')"
    using r f by (simp add: complete_unit_running [OF j refl])
  then show ?thesis using rows e t by (simp add: db)
qed

lemma complete_dead:
  assumes j: "job_ok jc n s" and no: "\<not> r_success res" and left: "\<not> ne_attempt n < ne_max_attempts n"
    and e: "e = held_execution (jc_execution jc) s"
  shows "\<exists>s'. complete_unit jc (ne_id n) res s = Inr (Some [], s') \<and>
    node_executions (sdb s') = row_modify ne_id (ne_id n) (dead_row (r_error res) (now s)) (node_executions (sdb s)) \<and>
    dead_letter_jobs (sdb s') = dead_letter_jobs (sdb s) @
      [new_dead_letter (uuids s (used s + 2)) e (end_attempt (set_error (r_error res)) FAILED (now s) n) (now s)] \<and>
    executions (sdb s') =
      (if ex_status e = X_RUNNING then row_modify ex_id (ex_id e) (set_execution_status X_FAILED (now s)) (executions (sdb s))
       else executions (sdb s)) \<and>
    workflows (sdb s') = workflows (sdb s) \<and> workflow_versions (sdb s') = workflow_versions (sdb s)"
proof -
  let ?x = "ex_id (jc_execution jc)"
  from record_dead [OF j no left e, of "node_exec_by_node_id (execution_rows ?x (sdb s))"] obtain s1 where
    r: "record_result jc n (node_exec_by_node_id (execution_rows ?x (sdb s))) res s = Inr ([], s1)"
    and rows: "node_executions (sdb s1) = row_modify ne_id (ne_id n) (dead_row (r_error res) (now s)) (node_executions (sdb s))"
    and d: "dead_letter_jobs (sdb s1) = dead_letter_jobs (sdb s) @
      [new_dead_letter (uuids s (used s + 2)) e (end_attempt (set_error (r_error res)) FAILED (now s) n) (now s)]"
    and ex: "executions (sdb s1) =
      (if ex_status e = X_RUNNING then row_modify ex_id (ex_id e) (set_execution_status X_FAILED (now s)) (executions (sdb s))
       else executions (sdb s))"
    and p: "pinned s1 =
      (if ex_status e = X_RUNNING then row_modify ex_id (ex_id e) (set_execution_status X_FAILED (now s)) (pinned s)
       else pinned s)"
    and t: "workflows (sdb s1) = workflows (sdb s)" "workflow_versions (sdb s1) = workflow_versions (sdb s)"
    by (elim exE conjE) (rule that)
  obtain q where q: "row_get ex_id ?x (pinned s) = Some q" using j by (auto simp: job_ok_def held_ok_def)
  then have "e = q" by (simp add: e held_execution_def)
  then have "ex_status (held_execution (jc_execution jc) s1) \<noteq> X_RUNNING"
    using q row_get_Some [OF q] by (auto simp: held_execution_def p row_get_modify)
  then have "finish_execution (jc_execution jc) s1 = Inr s1"
    unfolding finish_execution_def Let_def by (simp only: simp_thms if_False)
  then have "complete_unit jc (ne_id n) res s = Inr (Some [], s1)"
    using r by (simp add: complete_unit_running [OF j refl])
  then show ?thesis using rows d ex t by blast
qed

text \<open>
  The one exception left: a condition node whose configured branch is no hashable value. The unit
  raises, and nothing of it is kept.
\<close>

lemma complete_bad_branch:
  assumes j: "job_ok jc n s" and suc: "r_success res" and ch: "child_ids (jc_definition jc) (ne_node_id n) \<noteq> []"
    and bad: "condition_skip_ids (jc_node_def jc) res = Inl e"
  shows "complete_unit jc (ne_id n) res s = Inl e"
proof -
  let ?out = "set_output (r_output res)"
  have ok: "nodes_ok (sdb s)" and n: "n \<in> set (node_executions (sdb s))" and st: "ne_status n = RUNNING"
    using j by (auto simp: job_ok_def in_execution_rows)
  have g: "\<And>m. ne_id (?out m) = ne_id m \<and> ne_execution_id (?out m) = ne_execution_id m \<and> ne_node_id (?out m) = ne_node_id m \<and>
      ne_max_attempts (?out m) = ne_max_attempts m \<and> ne_status (?out m) = ne_status m" by simp
  obtain s1 where
    "transition_node_status (ne_id n) RUNNING SUCCEEDED
       (modify_db (node_executions_update (row_modify ne_id (ne_id n) ?out)) s) = Inr (end_attempt ?out SUCCEEDED (now s) n, s1)"
    by (rule end_attempt_effect [OF ok n st g, of SUCCEEDED])
  moreover have "ne_node_id (end_attempt ?out SUCCEEDED (now s) n) = ne_node_id n" by (simp add: end_attempt_def)
  ultimately show ?thesis
    using suc ch bad by (simp add: complete_unit_running [OF j refl] record_result_def queue_downstream_nodes_def)
qed

end
