(* ===== verification/Workers.thy ===== *)
theory Workers
  imports Session
begin

section \<open>Workers: registration, heartbeats, and the spawn limit\<close>

text \<open>
  \<open>app/services/worker_service.py\<close>, \<open>app/worker/heartbeat.py\<close> and the task registry of
  \<open>app/worker/background.py\<close>. A service method is a unit of work on the session followed by its
  commit; \<open>updated_at\<close> of a row is maintained by the column's \<open>onupdate\<close>.
\<close>

subsection \<open>The worker service\<close>

definition new_worker :: "uuid \<Rightarrow> string \<Rightarrow> string \<Rightarrow> uuid option \<Rightarrow> time \<Rightarrow> Worker" where
  "new_worker i worker_name hostname owner t =
     \<lparr>wk_id = i, wk_worker_name = worker_name, wk_status = W_STARTING, wk_last_heartbeat_at = Some t,
      wk_current_job_id = None, wk_metadata = Some [(''hostname'', JStr hostname)],
      wk_owner_api_key_id = owner, wk_created_at = t, wk_updated_at = t\<rparr>"

definition restart_worker :: "string \<Rightarrow> time \<Rightarrow> Worker \<Rightarrow> Worker" where
  "restart_worker hostname t k =
     k\<lparr>wk_status := W_STARTING, wk_last_heartbeat_at := Some t, wk_current_job_id := None,
       wk_metadata := Some (AList.update ''hostname'' (JStr hostname)
         (case wk_metadata k of None \<Rightarrow> [] | Some d \<Rightarrow> d)),
       wk_updated_at := t\<rparr>"

definition register_worker ::
  "string \<Rightarrow> string \<Rightarrow> uuid option \<Rightarrow> session \<Rightarrow> (Worker \<times> session) result" where
  "register_worker worker_name hostname owner s =
     rbind (scalar_one_or_none
       (filter (\<lambda>k. wk_worker_name k = worker_name \<and>
          (case owner of None \<Rightarrow> True | Some i \<Rightarrow> wk_owner_api_key_id k = Some i)) (workers (sdb s)))) (\<lambda>found.
     case found of
       None \<Rightarrow>
         (let (i, s1) = new_uuid s;
              k = new_worker i worker_name hostname owner (now s1)
          in if list_ex (\<lambda>r. wk_worker_name r = worker_name) (workers (sdb s1))
             then Inl (IntegrityError ''workers_worker_name_key'')
             else Inr (k, modify_db (workers_update (\<lambda>ks. ks @ [k])) s1))
     | Some k \<Rightarrow>
         Inr (restart_worker hostname (now s) k,
              modify_db (workers_update (row_modify wk_id (wk_id k) (restart_worker hostname (now s)))) s))"

definition beat :: "WorkerStatus \<Rightarrow> string option \<Rightarrow> time \<Rightarrow> Worker \<Rightarrow> Worker" where
  "beat status current_job_id t k =
     k\<lparr>wk_status := status, wk_last_heartbeat_at := Some t, wk_current_job_id := current_job_id, wk_updated_at := t\<rparr>"

definition update_heartbeat :: "uuid \<Rightarrow> WorkerStatus \<Rightarrow> string option \<Rightarrow> session \<Rightarrow> session" where
  "update_heartbeat worker_id status current_job_id s =
     (case row_get wk_id worker_id (workers (sdb s)) of
        None \<Rightarrow> s
      | Some _ \<Rightarrow>
          modify_db (workers_update (row_modify wk_id worker_id (beat status current_job_id (now s)))) s)"

definition mark_offline :: "uuid \<Rightarrow> session \<Rightarrow> session" where
  "mark_offline worker_id s =
     (case row_get wk_id worker_id (workers (sdb s)) of
        None \<Rightarrow> s
      | Some _ \<Rightarrow> modify_db (workers_update (row_modify wk_id worker_id (beat W_OFFLINE None (now s)))) s)"

text \<open>\<open>or_(owner_api_key_id == owner, owner_api_key_id.is_(None))\<close>\<close>

definition visible_worker :: "uuid \<Rightarrow> Worker \<Rightarrow> bool" where
  "visible_worker owner k \<longleftrightarrow> wk_owner_api_key_id k = Some owner \<or> wk_owner_api_key_id k = None"

definition list_workers :: "uuid \<Rightarrow> nat \<Rightarrow> nat \<Rightarrow> database \<Rightarrow> Worker list" where
  "list_workers owner limit offset db =
     page limit offset (order_desc_nullslast wk_last_heartbeat_at (filter (visible_worker owner) (workers db)))"

definition get_worker :: "uuid \<Rightarrow> uuid option \<Rightarrow> database \<Rightarrow> Worker option result" where
  "get_worker worker_id owner db =
     scalar_one_or_none (filter (\<lambda>k. wk_id k = worker_id \<and>
       (case owner of None \<Rightarrow> True | Some i \<Rightarrow> visible_worker i k)) (workers db))"

definition require_worker :: "uuid \<Rightarrow> uuid \<Rightarrow> database \<Rightarrow> Worker result" where
  "require_worker worker_id owner db =
     rbind (get_worker worker_id (Some owner) db) (\<lambda>found.
     case found of
       None \<Rightarrow> Inl (AppError ''Worker not found'' ''not_found'' 404)
     | Some k \<Rightarrow> Inr k)"

subsection \<open>The heartbeat controller\<close>

record HeartbeatController =
  hb_worker_id :: uuid
  hb_status :: WorkerStatus
  hb_current_job_id :: "string option"

definition new_heartbeat :: "uuid \<Rightarrow> HeartbeatController" where
  "new_heartbeat worker_id = \<lparr>hb_worker_id = worker_id, hb_status = W_STARTING, hb_current_job_id = None\<rparr>"

definition set_status :: "WorkerStatus \<Rightarrow> string option \<Rightarrow> HeartbeatController \<Rightarrow> HeartbeatController" where
  "set_status status current_job_id h =
     (let h1 = h\<lparr>hb_status := status\<rparr> in
      case current_job_id of
        Some j \<Rightarrow> h1\<lparr>hb_current_job_id := Some j\<rparr>
      | None \<Rightarrow> if status \<noteq> W_BUSY then h1\<lparr>hb_current_job_id := None\<rparr> else h1)"

definition snapshot :: "HeartbeatController \<Rightarrow> WorkerStatus \<times> string option" where
  "snapshot h = (hb_status h, hb_current_job_id h)"

text \<open>One turn of \<open>run_heartbeat_loop\<close>: persist the snapshot.\<close>

definition heartbeat_tick :: "HeartbeatController \<Rightarrow> ('q, 'c) world \<Rightarrow> ('q, 'c) world" where
  "heartbeat_tick h w =
     (let (status, job) = snapshot h
      in commit_session (update_heartbeat (hb_worker_id h) status job (open_session w)) w)"

text \<open>A controller that is not busy holds no job.\<close>

definition heartbeat_ok :: "HeartbeatController \<Rightarrow> bool" where
  "heartbeat_ok h \<longleftrightarrow> (hb_status h \<noteq> W_BUSY \<longrightarrow> hb_current_job_id h = None)"

subsection \<open>Background tasks\<close>

text \<open>
  \<open>_active_background_tasks\<close>: the tasks with whether each is done. A task leaves the set when it
  ends (its done callback), so a task that is in the set and done is about to leave.
\<close>

type_synonym tasks = "(nat \<times> bool) list"

definition MAX_SPAWNED_WORKERS :: nat where
  "MAX_SPAWNED_WORKERS = 5"

definition get_active_worker_count :: "tasks \<Rightarrow> nat" where
  "get_active_worker_count ts = length (filter (\<lambda>t. \<not> snd t) ts)"

definition spawn_background_worker_task :: "nat \<Rightarrow> tasks \<Rightarrow> tasks result" where
  "spawn_background_worker_task task ts =
     (if get_active_worker_count ts \<ge> MAX_SPAWNED_WORKERS
      then Inl (AppError ''Maximum background worker limit reached (max 5)'' ''worker_limit_reached'' 429)
      else Inr (ts @ [(task, False)]))"

definition task_done :: "nat \<Rightarrow> tasks \<Rightarrow> tasks" where
  "task_done task ts = filter (\<lambda>t. fst t \<noteq> task) ts"

subsection \<open>Facts\<close>

lemma update_heartbeat_get:
  "row_get wk_id j (workers (sdb (update_heartbeat i st job s))) =
     (if j = i then map_option (beat st job (now s)) (row_get wk_id j (workers (sdb s)))
      else row_get wk_id j (workers (sdb s)))"
  by (auto simp: update_heartbeat_def row_get_modify beat_def split: option.splits)

lemma set_status_ok: "(status = W_BUSY \<or> job = None) \<Longrightarrow> heartbeat_ok (set_status status job h)"
  by (auto simp: heartbeat_ok_def set_status_def Let_def split: option.splits)

lemma spawn_limit:
  assumes "get_active_worker_count ts \<le> MAX_SPAWNED_WORKERS" and "spawn_background_worker_task t ts = Inr ts'"
  shows "get_active_worker_count ts' \<le> MAX_SPAWNED_WORKERS"
  using assms by (auto simp: spawn_background_worker_task_def get_active_worker_count_def split: if_splits)

end
