(* ===== verification/Worker_Loop.thy ===== *)
theory Worker_Loop
  imports Worker_Runtime Workers
begin

section \<open>The consumer loop and the recovery of stale jobs\<close>

text \<open>
  The loops of \<open>app/worker/runtime.py\<close> (\<open>run_worker\<close>) and \<open>app/worker/recovery.py\<close>, one turn each.
  The commands of the consumer group are the record \<open>consumer_api\<close> of functions on the queue state:
  Redis is not part of the sources. A turn of the consumer takes a batch and handles each message;
  a message is acknowledged only after its job has returned.
\<close>

record pending_entry =
  pe_message_id :: string
  pe_consumer :: "string option"
  pe_time_since_delivered :: int

record 'q consumer_api =
  xreadgroup :: "nat \<Rightarrow> 'q \<Rightarrow> (string \<times> fields) list result \<times> 'q"
  xack :: "string \<Rightarrow> 'q \<Rightarrow> unit result \<times> 'q"
  xpending_range :: "nat \<Rightarrow> 'q \<Rightarrow> pending_entry list result \<times> 'q"
  xclaim :: "int \<Rightarrow> string list \<Rightarrow> 'q \<Rightarrow> (string \<times> fields) list result \<times> 'q"

subsection \<open>Recovery of one job\<close>

definition revert_row :: "NodeExecution \<Rightarrow> NodeExecution" where
  "revert_row n = n\<lparr>ne_status := QUEUED\<rparr>"

text \<open>\<open>None\<close>: no such node; otherwise whether the job is to be processed.\<close>

definition recover_unit ::
  "Job \<Rightarrow> string \<Rightarrow> string option \<Rightarrow> string \<Rightarrow> session \<Rightarrow> bool option \<times> session" where
  "recover_unit job redis_message_id previous_worker claiming_worker s =
     (case row_get ne_id (j_node_execution_id job) (node_executions (sdb s)) of
        None \<Rightarrow> (None, s)
      | Some node \<Rightarrow>
          (let s1 = worker_recovered_job (j_execution_id job) (j_node_execution_id job) redis_message_id
                      previous_worker claiming_worker ''pending_idle_timeout_exceeded'' s
           in if is_terminal node then (Some False, s1)
              else if ne_status node = RUNNING
              then (Some True,
                    modify_db (node_executions_update (row_modify ne_id (ne_id node) revert_row)) s1)
              else (Some True, s1)))"

definition process_recovered_job ::
  "ExecutorRegistry \<Rightarrow> (Job \<Rightarrow> 'q \<Rightarrow> string option result \<times> 'q) \<Rightarrow>
   (string \<Rightarrow> Envelope \<Rightarrow> 'c \<Rightarrow> unit result \<times> 'c) \<Rightarrow> fields \<Rightarrow> string \<Rightarrow> string option \<Rightarrow> string \<Rightarrow>
   ('q, 'c) world \<Rightarrow> bool result \<times> ('q, 'c) world" where
  "process_recovered_job registry publish ws_publish fs redis_message_id previous_worker claiming_worker w =
     (case deserialize_job_payload fs of
        Inl e \<Rightarrow> (Inl e, w)
      | Inr job \<Rightarrow>
          (case recover_unit job redis_message_id previous_worker claiming_worker (open_session w) of
             (None, _) \<Rightarrow> (Inr False, w)
           | (Some proceed, s) \<Rightarrow>
               (let (s1, c) = flush_events ws_publish s (channel w);
                    w1 = (commit_session s1 w)\<lparr>channel := c\<rparr>
                in if \<not> proceed then (Inr False, w1)
                   else
                     (case process_job registry publish ws_publish fs w1 of
                        (Inl e, w2) \<Rightarrow> (Inl e, w2)
                      | (Inr _, w2) \<Rightarrow> (Inr True, w2)))))"

subsection \<open>Claiming stale messages\<close>

definition claim_stale_pending ::
  "'q consumer_api \<Rightarrow> int \<Rightarrow> nat \<Rightarrow> 'q \<Rightarrow> (string \<times> fields \<times> string option) list result \<times> 'q" where
  "claim_stale_pending api idle_timeout_ms batch_size q =
     (case xpending_range api batch_size q of
        (Inl e, q1) \<Rightarrow> (Inl e, q1)
      | (Inr pending, q1) \<Rightarrow>
          (let stale = filter (\<lambda>p. pe_time_since_delivered p \<ge> idle_timeout_ms) pending;
               previous_by_id = rev (map (\<lambda>p. (pe_message_id p, pe_consumer p)) stale)
           in if stale = [] then (Inr [], q1)
              else
                (case xclaim api idle_timeout_ms (map pe_message_id stale) q1 of
                   (Inl e, q2) \<Rightarrow> (Inl e, q2)
                 | (Inr claimed, q2) \<Rightarrow>
                     (Inr (map (\<lambda>(i, fs). (i, fs, case map_of previous_by_id i of None \<Rightarrow> None | Some c \<Rightarrow> c)) claimed),
                      q2))))"

text \<open>
  The body of the recovery loop: each claimed job is processed and acknowledged; the first
  exception ends the pass (the loop logs it and goes on to its next turn).
\<close>

fun recover_claimed ::
  "'q consumer_api \<Rightarrow> ExecutorRegistry \<Rightarrow> (Job \<Rightarrow> 'q \<Rightarrow> string option result \<times> 'q) \<Rightarrow>
   (string \<Rightarrow> Envelope \<Rightarrow> 'c \<Rightarrow> unit result \<times> 'c) \<Rightarrow> string \<Rightarrow> (string \<times> fields \<times> string option) list \<Rightarrow>
   ('q, 'c) world \<Rightarrow> unit result \<times> ('q, 'c) world" where
  "recover_claimed api registry publish ws_publish consumer_name [] w = (Inr (), w)"
| "recover_claimed api registry publish ws_publish consumer_name ((message_id, fs, previous) # jobs) w =
     (case process_recovered_job registry publish ws_publish fs message_id previous consumer_name w of
        (Inl e, w1) \<Rightarrow> (Inl e, w1)
      | (Inr _, w1) \<Rightarrow>
          (case xack api message_id (queue w1) of
             (Inl e, q) \<Rightarrow> (Inl e, w1\<lparr>queue := q\<rparr>)
           | (Inr _, q) \<Rightarrow> recover_claimed api registry publish ws_publish consumer_name jobs (w1\<lparr>queue := q\<rparr>)))"

definition recovery_pass ::
  "'q consumer_api \<Rightarrow> ExecutorRegistry \<Rightarrow> (Job \<Rightarrow> 'q \<Rightarrow> string option result \<times> 'q) \<Rightarrow>
   (string \<Rightarrow> Envelope \<Rightarrow> 'c \<Rightarrow> unit result \<times> 'c) \<Rightarrow> string \<Rightarrow> int \<Rightarrow> ('q, 'c) world \<Rightarrow> ('q, 'c) world" where
  "recovery_pass api registry publish ws_publish consumer_name idle_timeout_ms w =
     (case claim_stale_pending api idle_timeout_ms 10 (queue w) of
        (Inl e, q) \<Rightarrow> w\<lparr>queue := q\<rparr>
      | (Inr claimed, q) \<Rightarrow> snd (recover_claimed api registry publish ws_publish consumer_name claimed (w\<lparr>queue := q\<rparr>)))"

subsection \<open>The consumer\<close>

definition process_and_ack ::
  "'q consumer_api \<Rightarrow> ExecutorRegistry \<Rightarrow> (Job \<Rightarrow> 'q \<Rightarrow> string option result \<times> 'q) \<Rightarrow>
   (string \<Rightarrow> Envelope \<Rightarrow> 'c \<Rightarrow> unit result \<times> 'c) \<Rightarrow> string \<times> fields \<Rightarrow>
   HeartbeatController option \<times> ('q, 'c) world \<Rightarrow> unit result \<times> HeartbeatController option \<times> ('q, 'c) world" where
  "process_and_ack api registry publish ws_publish msg hw =
     (case deserialize_job_payload (snd msg) of
        Inl e \<Rightarrow> (Inl e, hw)
      | Inr job \<Rightarrow>
          (let current_job_id = uuid_str (j_node_execution_id job);
               (h1, w1) = (case hw of
                   (None, w) \<Rightarrow> (None, w)
                 | (Some h, w) \<Rightarrow>
                     (Some (set_status W_BUSY (Some current_job_id) h),
                      w\<lparr>channel := broadcast_worker_updated ws_publish (clock w) (Some (j_execution_id job))
                          (hb_worker_id h) (worker_status_value W_BUSY) (Some current_job_id) (channel w)\<rparr>))
           in case process_job registry publish ws_publish (snd msg) w1 of
                (Inl e, w2) \<Rightarrow> (Inl e, h1, w2)
              | (Inr _, w2) \<Rightarrow>
                  (case xack api (fst msg) (queue w2) of
                     (Inl e, q) \<Rightarrow> (Inl e, h1, w2\<lparr>queue := q\<rparr>)
                   | (Inr _, q) \<Rightarrow> (Inr (), h1, w2\<lparr>queue := q\<rparr>))))"

text \<open>
  \<open>asyncio.gather(*tasks, return_exceptions=True)\<close> in the schedule that runs the tasks one after
  the other: an exception of one message does not stop the others.
\<close>

fun process_batch ::
  "'q consumer_api \<Rightarrow> ExecutorRegistry \<Rightarrow> (Job \<Rightarrow> 'q \<Rightarrow> string option result \<times> 'q) \<Rightarrow>
   (string \<Rightarrow> Envelope \<Rightarrow> 'c \<Rightarrow> unit result \<times> 'c) \<Rightarrow> (string \<times> fields) list \<Rightarrow>
   HeartbeatController option \<times> ('q, 'c) world \<Rightarrow> HeartbeatController option \<times> ('q, 'c) world" where
  "process_batch api registry publish ws_publish [] hw = hw"
| "process_batch api registry publish ws_publish (msg # msgs) hw =
     process_batch api registry publish ws_publish msgs
       (snd (process_and_ack api registry publish ws_publish msg hw))"

text \<open>
  One turn of \<open>run_worker\<close>. A timeout of the read, or an empty answer, is a turn without work;
  another exception of the read ends the loop. After a batch the worker is idle again, which is
  announced under a fresh execution id.
\<close>

definition consumer_turn ::
  "'q consumer_api \<Rightarrow> ExecutorRegistry \<Rightarrow> (Job \<Rightarrow> 'q \<Rightarrow> string option result \<times> 'q) \<Rightarrow>
   (string \<Rightarrow> Envelope \<Rightarrow> 'c \<Rightarrow> unit result \<times> 'c) \<Rightarrow> (exn \<Rightarrow> bool) \<Rightarrow> nat \<Rightarrow>
   HeartbeatController option \<times> ('q, 'c) world \<Rightarrow> unit result \<times> HeartbeatController option \<times> ('q, 'c) world" where
  "consumer_turn api registry publish ws_publish is_timeout poll_count hw =
     (case xreadgroup api poll_count (queue (snd hw)) of
        (Inl e, q) \<Rightarrow> (if is_timeout e then Inr () else Inl e, fst hw, (snd hw)\<lparr>queue := q\<rparr>)
      | (Inr messages, q) \<Rightarrow>
          if messages = [] then (Inr (), fst hw, (snd hw)\<lparr>queue := q\<rparr>)
          else
            (case process_batch api registry publish ws_publish messages (fst hw, (snd hw)\<lparr>queue := q\<rparr>) of
               (None, w) \<Rightarrow> (Inr (), None, w)
             | (Some h, w) \<Rightarrow>
                 (Inr (), Some (set_status W_IDLE None h),
                  w\<lparr>channel := broadcast_worker_updated ws_publish (clock w) (Some (ids w (ids_used w)))
                       (hb_worker_id h) (worker_status_value W_IDLE) None (channel w),
                    ids_used := Suc (ids_used w)\<rparr>)))"

end
