(* ===== verification/Dlq.thy ===== *)
theory Dlq
  imports Execution_Engine
begin

section \<open>The dead letter queue\<close>

text \<open>
  \<open>app/services/dlq_service.py\<close>: reading and resolving dead letter jobs of the executions an API
  key owns.
\<close>

definition owned_jobs :: "database \<Rightarrow> uuid \<Rightarrow> DeadLetterJob list" where
  "owned_jobs db owner =
     concat (map (\<lambda>j. map (\<lambda>_. j) (filter (\<lambda>e. ex_id e = dj_execution_id j) (owned db owner))) (dead_letter_jobs db))"

definition list_dlq_jobs :: "uuid \<Rightarrow> nat \<Rightarrow> nat \<Rightarrow> database \<Rightarrow> DeadLetterJob list" where
  "list_dlq_jobs owner limit offset db =
     page limit offset (order_desc_nullslast (\<lambda>j. Some (dj_created_at j)) (owned_jobs db owner))"

definition get_dlq_job :: "uuid \<Rightarrow> uuid \<Rightarrow> database \<Rightarrow> DeadLetterJob option result" where
  "get_dlq_job dlq_id owner db = scalar_one_or_none (filter (\<lambda>j. dj_id j = dlq_id) (owned_jobs db owner))"

definition resolve_dlq_job :: "uuid \<Rightarrow> uuid \<Rightarrow> string option \<Rightarrow> session \<Rightarrow> (DeadLetterJob \<times> session) result" where
  "resolve_dlq_job dlq_id owner resolution_note s =
     rbind (get_dlq_job dlq_id owner (sdb s)) (\<lambda>found.
     case found of
       None \<Rightarrow> Inl (AppError ''Dead letter job not found'' ''not_found'' 404)
     | Some job \<Rightarrow>
         Inr (resolve_job (now s) resolution_note job,
              modify_db (dead_letter_jobs_update (row_modify dj_id dlq_id (resolve_job (now s) resolution_note))) s))"

subsection \<open>Facts\<close>

lemma in_owned:
  "e \<in> set (owned db owner) \<longleftrightarrow>
   e \<in> set (executions db) \<and> (\<exists>w \<in> set (workflows db). wf_id w = ex_workflow_id e \<and> wf_owner_api_key_id w = owner)"
  by (auto simp: owned_def)

lemma in_owned_jobs:
  "j \<in> set (owned_jobs db owner) \<longleftrightarrow>
   j \<in> set (dead_letter_jobs db) \<and> (\<exists>e \<in> set (owned db owner). ex_id e = dj_execution_id j)"
  by (auto simp: owned_jobs_def)

lemma get_dlq_job_Some:
  "get_dlq_job i owner db = Inr (Some j) \<Longrightarrow> j \<in> set (owned_jobs db owner) \<and> dj_id j = i"
  by (auto simp: get_dlq_job_def scalar_one_or_none_Inr dest: filter_singletonD)

text \<open>What a returning retry has found and done.\<close>

lemma retry_unit_Inr:
  assumes "retry_unit x nid owner s = Inr ((e, n'), s')"
  obtains n s1 where "n \<in> set (node_executions (sdb s))" and "ne_execution_id n = x" and "ne_node_id n = nid"
    and "e \<in> set (owned (sdb s) owner)" and "ex_id e = x" and "ne_status n = DEAD_LETTERED"
    and "transition_node_status (ne_id n) DEAD_LETTERED QUEUED s = Inr (n', s1)"
    and "(filter (\<lambda>j. dj_node_execution_id j = ne_id n \<and> dj_resolved_at j = None) (dead_letter_jobs (sdb s1)) = [] \<and> s' = s1) \<or>
      (\<exists>j. filter (\<lambda>j. dj_node_execution_id j = ne_id n \<and> dj_resolved_at j = None) (dead_letter_jobs (sdb s1)) = [j] \<and>
         s' = modify_db (dead_letter_jobs_update (row_modify dj_id (dj_id j) (resolve_job (now s1) (Some ''Manually retried via API'')))) s1)"
proof -
  let ?q = "concat (map (\<lambda>n. concat (map (\<lambda>e. map (\<lambda>_. (n, e))
            (filter (\<lambda>w. wf_id w = ex_workflow_id e \<and> wf_owner_api_key_id w = owner) (workflows (sdb s))))
            (filter (\<lambda>e. ex_id e = ne_execution_id n) (executions (sdb s)))))
          (filter (\<lambda>n. ne_execution_id n = x \<and> ne_node_id n = nid) (node_executions (sdb s))))"
  from assms obtain n s1 dlq where f: "first_row ?q = Some (n, e)" and st: "ne_status n = DEAD_LETTERED"
    and t: "transition_node_status (ne_id n) DEAD_LETTERED QUEUED s = Inr (n', s1)"
    and d: "scalar_one_or_none (filter (\<lambda>j. dj_node_execution_id j = ne_id n \<and> dj_resolved_at j = None) (dead_letter_jobs (sdb s1))) = Inr dlq"
    and s': "s' = (case dlq of None \<Rightarrow> s1 | Some j \<Rightarrow> modify_db (dead_letter_jobs_update (row_modify dj_id (dj_id j) (resolve_job (now s1) (Some ''Manually retried via API'')))) s1)"
    unfolding retry_unit_def by (auto simp: rbind_eq_Inr split: option.splits if_splits)
  have "(n, e) \<in> set ?q" by (rule first_row_in [OF f])
  then have mem: "n \<in> set (node_executions (sdb s))" "ne_execution_id n = x" "ne_node_id n = nid" "e \<in> set (owned (sdb s) owner)" "ex_id e = x"
    by (auto simp: in_owned)
  show thesis
    by (rule that [OF mem st t]) (use d s' in \<open>cases dlq; simp add: scalar_one_or_none_Inr\<close>)
qed

end
