(* ===== verification/System_Invariant.thy ===== *)
theory System_Invariant
  imports Completion Worker_Loop Dlq
begin

section \<open>The system invariant\<close>

text \<open>
  What holds of the durable database between transactions: keys are unique and references closed
  (\<open>tables_ok\<close>), every execution is a run of its workflow version in the sense of \<open>graph_ok\<close>
  (\<open>runs_ok\<close>), attempts and dead letter jobs are accounted for (\<open>rows_ok\<close>), and the status of an
  execution agrees with its nodes (\<open>status_ok\<close>). \<open>acts_ok\<close> ties in what the workers in flight hold.
\<close>

subsection \<open>The parts\<close>

definition letter_key :: "DeadLetterJob \<Rightarrow> uuid \<times> uuid" where
  "letter_key j = (dj_node_execution_id j, dj_execution_id j)"

definition row_key :: "NodeExecution \<Rightarrow> uuid \<times> uuid" where
  "row_key n = (ne_id n, ne_execution_id n)"

definition tables_ok :: "database \<Rightarrow> bool" where
  "tables_ok db \<longleftrightarrow> nodes_ok db \<and> distinct (map ex_id (executions db)) \<and>
     distinct (map wv_id (workflow_versions db)) \<and>
     (\<forall>v \<in> set (workflow_versions db). valid_WorkflowDefinition (wv_definition v)) \<and>
     ne_execution_id ` set (node_executions db) \<subseteq> ex_id ` set (executions db) \<and>
     letter_key ` set (dead_letter_jobs db) \<subseteq> row_key ` set (node_executions db)"

definition run_ok :: "WorkflowDefinition \<Rightarrow> uuid \<Rightarrow> database \<Rightarrow> bool" where
  "run_ok d x db \<longleftrightarrow> acyclic (edge_rel d) \<and> graph_ok (edge_rel d) (set (node_ids d)) (run_view x db)"

definition runs_ok :: "database \<Rightarrow> bool" where
  "runs_ok db \<longleftrightarrow> (\<forall>e \<in> set (executions db). \<exists>v \<in> set (workflow_versions db).
     wv_id v = ex_workflow_version_id e \<and> run_ok (wv_definition v) (ex_id e) db)"

definition dead_letters :: "uuid \<Rightarrow> database \<Rightarrow> DeadLetterJob list" where
  "dead_letters i db = filter (\<lambda>j. dj_node_execution_id j = i) (dead_letter_jobs db)"

definition unresolved :: "DeadLetterJob list \<Rightarrow> nat" where
  "unresolved js = length (filter (\<lambda>j. dj_resolved_at j = None) js)"

text \<open>
  A node that has not been queued has attempt 0. A queued or running node has made at most
  \<open>max_attempts\<close> attempts beyond the number of times it was dead-lettered; a dead-lettered node
  has used up its attempts. Only a dead-lettered node has an unresolved dead letter job, and at
  most one.
\<close>

definition row_ok :: "NodeExecution \<Rightarrow> DeadLetterJob list \<Rightarrow> bool" where
  "row_ok n js \<longleftrightarrow> 1 \<le> ne_max_attempts n \<and>
     (if ne_status n \<in> {PENDING, SKIPPED} then ne_attempt n = 0 else 1 \<le> ne_attempt n) \<and>
     (if ne_status n = DEAD_LETTERED
      then ne_max_attempts n \<le> ne_attempt n \<and> ne_attempt n < ne_max_attempts n + int (length js) \<and> unresolved js \<le> 1
      else ne_attempt n \<le> ne_max_attempts n + int (length js) \<and> unresolved js = 0)"

definition no_new_letters :: "DeadLetterJob list \<Rightarrow> DeadLetterJob list \<Rightarrow> bool" where
  "no_new_letters js js' \<longleftrightarrow> length js' = length js \<and> unresolved js' \<le> unresolved js"

lemma no_new_letters_refl [simp]: "no_new_letters js js"
  by (simp add: no_new_letters_def)

lemma row_ok_mono: "row_ok n js \<Longrightarrow> no_new_letters js js' \<Longrightarrow> row_ok n js'"
  unfolding row_ok_def no_new_letters_def by (auto split: if_splits)

definition rows_ok :: "database \<Rightarrow> bool" where
  "rows_ok db \<longleftrightarrow> (\<forall>n \<in> set (node_executions db). row_ok n (dead_letters (ne_id n) db))"

definition execution_ok :: "Execution \<Rightarrow> NodeExecution list \<Rightarrow> bool" where
  "execution_ok e rows \<longleftrightarrow>
     (ex_status e = X_SUCCEEDED \<longrightarrow> (\<forall>n \<in> set rows. ne_status n \<in> {SUCCEEDED, SKIPPED})) \<and>
     (ex_status e = X_RUNNING \<longrightarrow> (\<forall>n \<in> set rows. ne_status n \<noteq> DEAD_LETTERED) \<and>
        (rows \<noteq> [] \<longrightarrow> (\<exists>n \<in> set rows. \<not> is_terminal n)))"

definition status_ok :: "database \<Rightarrow> bool" where
  "status_ok db \<longleftrightarrow> (\<forall>e \<in> set (executions db). execution_ok e (execution_rows (ex_id e) db))"

definition db_ok :: "database \<Rightarrow> bool" where
  "db_ok db \<longleftrightarrow> tables_ok db \<and> runs_ok db \<and> rows_ok db \<and> status_ok db"

text \<open>
  A worker in flight: the node it runs and the context it has loaded. Its execution object is a
  copy: it may still say RUNNING when the row no longer does, never the other way round.
\<close>

record activity =
  a_node :: uuid
  a_context :: job_context

definition act_ok :: "database \<Rightarrow> activity \<Rightarrow> bool" where
  "act_ok db a \<longleftrightarrow>
     (\<forall>e \<in> set (executions db). ex_id e = ex_id (jc_execution (a_context a)) \<longrightarrow>
        ex_workflow_version_id e = ex_workflow_version_id (jc_execution (a_context a)) \<and>
        (ex_status e = X_RUNNING \<longrightarrow> ex_status (jc_execution (a_context a)) = X_RUNNING) \<and>
        (\<exists>v \<in> set (workflow_versions db). wv_id v = ex_workflow_version_id e \<and>
           wv_definition v = jc_definition (a_context a)))"

lemma letter_nodes:
  assumes "tables_ok db"
  shows "dj_node_execution_id ` set (dead_letter_jobs db) \<subseteq> ne_id ` set (node_executions db)"
proof -
  have "fst ` letter_key ` set (dead_letter_jobs db) \<subseteq> fst ` row_key ` set (node_executions db)"
    using assms by (simp add: tables_ok_def image_mono)
  then show ?thesis by (simp add: image_image letter_key_def row_key_def)
qed

lemmas db_parts = db_ok_def tables_ok_def runs_ok_def rows_ok_def status_ok_def

lemma unresolved_simps [simp]: "unresolved [] = 0"
  "unresolved (js @ ks) = unresolved js + unresolved ks"
  by (simp_all add: unresolved_def)

lemma row_ok_settled: "run_ok d x db \<Longrightarrow> nodes_ok db \<Longrightarrow> n \<in> set (execution_rows x db) \<Longrightarrow> ne_status n \<notin> {FAILED, RETRYING}"
  using run_view_row [of db n x] unfolding run_ok_def graph_ok_def settled_def by (metis insertE rangeI singletonD)

subsection \<open>Moving one node\<close>

text \<open>
  The common case: one row moves between QUEUED, RUNNING and DEAD_LETTERED, everything else that
  the invariant reads stays. The attempts are accounted for separately.
\<close>

definition node_moved :: "NodeExecution \<Rightarrow> (NodeExecution \<Rightarrow> NodeExecution) \<Rightarrow> database \<Rightarrow> database \<Rightarrow> bool" where
  "node_moved n f db db' \<longleftrightarrow>
     n \<in> set (node_executions db) \<and>
     (\<forall>n. ne_id (f n) = ne_id n \<and> ne_execution_id (f n) = ne_execution_id n \<and>
          ne_node_id (f n) = ne_node_id n \<and> ne_max_attempts (f n) = ne_max_attempts n) \<and>
     node_executions db' = row_modify ne_id (ne_id n) f (node_executions db) \<and>
     workflow_versions db' = workflow_versions db"

lemma node_moved_effect:
  assumes "nodes_ok db" and "node_moved n f db db'"
  shows "nodes_ok db'" and "node_keys (node_executions db') = node_keys (node_executions db)"
    and "y \<noteq> ne_execution_id n \<Longrightarrow> execution_rows y db' = execution_rows y db"
    and "run_view (ne_execution_id n) db' = (run_view (ne_execution_id n) db)(ne_node_id n \<mapsto> ne_status (f n))"
  using assms modify_node_effect [of db n f db'] unfolding node_moved_def by blast+

lemma node_moved_other_view:
  assumes "nodes_ok db" and "node_moved n f db db'" and "y \<noteq> ne_execution_id n"
  shows "run_view y db' = run_view y db"
  using node_moved_effect(3) [OF assms] by (simp add: run_view_def fun_eq_iff)

lemma node_moved_rows:
  assumes "nodes_ok db" and "node_moved n f db db'"
  shows "m \<in> set (node_executions db') \<longleftrightarrow> m = f n \<or> m \<in> set (node_executions db) \<and> ne_id m \<noteq> ne_id n"
proof -
  have uniq: "r = n" if "r \<in> set (node_executions db)" "ne_id r = ne_id n" for r
    using assms that by (auto simp: node_moved_def nodes_ok_def distinct_map inj_on_def)
  have n: "n \<in> set (node_executions db)" and rows: "node_executions db' = row_modify ne_id (ne_id n) f (node_executions db)"
    using assms(2) by (simp_all add: node_moved_def)
  have mem: "m \<in> set (node_executions db') \<longleftrightarrow> (\<exists>q \<in> set (node_executions db). m = (if ne_id q = ne_id n then f q else q))"
    unfolding rows by (rule in_set_row_modify)
  show ?thesis
  proof
    assume "m \<in> set (node_executions db')"
    then obtain q where "q \<in> set (node_executions db)" "m = (if ne_id q = ne_id n then f q else q)"
      using mem by blast
    then show "m = f n \<or> m \<in> set (node_executions db) \<and> ne_id m \<noteq> ne_id n"
      using uniq [of q] by (cases "ne_id q = ne_id n") simp_all
  next
    assume "m = f n \<or> m \<in> set (node_executions db) \<and> ne_id m \<noteq> ne_id n"
    then show "m \<in> set (node_executions db')" using mem n by (auto intro: bexI [of _ n] bexI [of _ m])
  qed
qed

lemma keys_ids:
  "node_keys rs' = node_keys rs \<Longrightarrow> row_key ` set rs' = row_key ` set rs \<and> ne_execution_id ` set rs' = ne_execution_id ` set rs"
proof -
  assume k: "node_keys rs' = node_keys rs"
  have "map row_key r = map (\<lambda>(i, x, k). (i, x)) (node_keys r)" "map ne_execution_id r = map (fst \<circ> snd) (node_keys r)" for r
    by (simp_all add: node_keys_def row_key_def comp_def)
  with k have "map row_key rs' = map row_key rs" "map ne_execution_id rs' = map ne_execution_id rs" by metis+
  then show ?thesis by (metis list.set_map)
qed

lemma tables_ok_by_keys:
  assumes "tables_ok db" and "node_keys (node_executions db') = node_keys (node_executions db)"
    and "map ex_id (executions db') = map ex_id (executions db)" and "workflow_versions db' = workflow_versions db"
    and "letter_key ` set (dead_letter_jobs db') \<subseteq> row_key ` set (node_executions db)"
  shows "tables_ok db'"
proof -
  have "row_key ` set (node_executions db') = row_key ` set (node_executions db)"
    "ne_execution_id ` set (node_executions db') = ne_execution_id ` set (node_executions db)"
    using keys_ids [OF assms(2)] by auto
  moreover have "ex_id ` set (executions db') = ex_id ` set (executions db)" by (metis assms(3) list.set_map)
  moreover have "nodes_ok db'" using assms(1,2) nodes_ok_by_keys unfolding tables_ok_def by blast
  ultimately show ?thesis using assms(1,3-5) unfolding tables_ok_def by simp
qed

text \<open>The view of every run after a step that changes only the run of one execution.\<close>

lemma runs_ok_one:
  assumes runs: "runs_ok db" and v: "workflow_versions db' = workflow_versions db"
    and e: "\<And>e'. e' \<in> set (executions db') \<Longrightarrow> \<exists>e \<in> set (executions db). ex_id e = ex_id e' \<and> ex_workflow_version_id e = ex_workflow_version_id e'"
    and others: "\<And>y. y \<noteq> x \<Longrightarrow> run_view y db' = run_view y db"
    and this_run: "\<And>e w. e \<in> set (executions db) \<Longrightarrow> ex_id e = x \<Longrightarrow> w \<in> set (workflow_versions db) \<Longrightarrow>
      wv_id w = ex_workflow_version_id e \<Longrightarrow> run_ok (wv_definition w) x db \<Longrightarrow> run_ok (wv_definition w) x db'"
  shows "runs_ok db'"
  unfolding runs_ok_def v
proof
  fix e' assume "e' \<in> set (executions db')"
  with e obtain e0 where e0: "e0 \<in> set (executions db)" "ex_id e0 = ex_id e'" "ex_workflow_version_id e0 = ex_workflow_version_id e'"
    by metis
  with runs obtain w where w: "w \<in> set (workflow_versions db)" "wv_id w = ex_workflow_version_id e'" "run_ok (wv_definition w) (ex_id e') db"
    unfolding runs_ok_def by metis
  have "run_ok (wv_definition w) (ex_id e') db'"
  proof (cases "ex_id e' = x")
    case False
    then show ?thesis using w(3) others [of "ex_id e'"] by (simp add: run_ok_def)
  qed (use w e0 this_run [of e0 w] in simp)
  with w show "\<exists>v \<in> set (workflow_versions db). wv_id v = ex_workflow_version_id e' \<and> run_ok (wv_definition v) (ex_id e') db'"
    by blast
qed

lemma run_ok_move:
  assumes "nodes_ok db" and mv: "node_moved n f db db'" and "ne_status n \<in> {QUEUED, RUNNING, DEAD_LETTERED}"
    and "ne_status (f n) \<in> {QUEUED, RUNNING, DEAD_LETTERED}" and ok: "run_ok d (ne_execution_id n) db"
  shows "run_ok d (ne_execution_id n) db'"
proof -
  let ?v = "run_view (ne_execution_id n) db"
  have "n \<in> set (execution_rows (ne_execution_id n) db)" using mv by (simp add: node_moved_def in_execution_rows)
  then have "?v (ne_node_id n) = Some (ne_status n)" using assms(1) by (rule run_view_row [rotated])
  moreover have "run_view (ne_execution_id n) db' = ?v(ne_node_id n \<mapsto> ne_status (f n))"
    using node_moved_effect(4) [OF assms(1) mv] .
  ultimately show ?thesis
    using ok assms(3,4) graph_ok_move [of "edge_rel d" "set (node_ids d)" ?v "ne_node_id n" "ne_status n" "ne_status (f n)"]
    unfolding run_ok_def by auto
qed

lemma rows_ok_move:
  assumes ok: "nodes_ok db" and rows: "rows_ok db" and mv: "node_moved n f db db'"
    and others: "\<And>i. i \<noteq> ne_id n \<Longrightarrow> no_new_letters (dead_letters i db) (dead_letters i db')"
    and row: "row_ok (f n) (dead_letters (ne_id n) db')"
  shows "rows_ok db'"
  unfolding rows_ok_def
proof
  fix m assume m: "m \<in> set (node_executions db')"
  have "ne_id (f n) = ne_id n" using mv by (simp add: node_moved_def)
  moreover have "row_ok m (dead_letters (ne_id m) db')" if "m \<in> set (node_executions db)" "ne_id m \<noteq> ne_id n"
    using rows that others [OF that(2)] by (auto simp: rows_ok_def intro: row_ok_mono)
  ultimately show "row_ok m (dead_letters (ne_id m) db')"
    using m node_moved_rows [OF ok mv, of m] row by auto
qed

lemma execution_rows_move:
  assumes ok: "nodes_ok db" and mv: "node_moved n f db db'" and "m \<in> set (execution_rows (ne_execution_id n) db')"
  shows "m = f n \<or> m \<in> set (execution_rows (ne_execution_id n) db)"
  using assms(3) node_moved_rows [OF ok mv, of m] by (auto simp: in_execution_rows)

lemma moved_row_in:
  "nodes_ok db \<Longrightarrow> node_moved n f db db' \<Longrightarrow> f n \<in> set (execution_rows (ne_execution_id n) db')"
  using node_moved_rows [of db n f db' "f n"] by (auto simp: in_execution_rows node_moved_def)

lemma status_ok_move:
  assumes ok: "nodes_ok db" and st: "status_ok db" and mv: "node_moved n f db db'"
    and a: "ne_status n \<in> {QUEUED, RUNNING, DEAD_LETTERED}" and b: "ne_status (f n) \<in> {QUEUED, RUNNING}"
    and e: "executions db' = executions db"
  shows "status_ok db'"
  unfolding status_ok_def e
proof
  fix e assume mem: "e \<in> set (executions db)"
  then have old: "execution_ok e (execution_rows (ex_id e) db)" using st by (simp add: status_ok_def)
  show "execution_ok e (execution_rows (ex_id e) db')"
  proof (cases "ex_id e = ne_execution_id n")
    case False
    then show ?thesis using old node_moved_effect(3) [OF ok mv, of "ex_id e"] by simp
  next
    case True
    have "n \<in> set (execution_rows (ex_id e) db)" using mv True by (simp add: node_moved_def in_execution_rows)
    then have "ex_status e \<noteq> X_SUCCEEDED" using old a by (auto simp: execution_ok_def)
    moreover have "\<not> is_terminal (f n)" using b by (auto simp: is_terminal_def TERMINAL_NODE_STATUSES_def)
    moreover have "\<forall>m \<in> set (execution_rows (ex_id e) db'). ne_status m \<noteq> DEAD_LETTERED" if "ex_status e = X_RUNNING"
      using execution_rows_move [OF ok mv] old that b True unfolding execution_ok_def by fastforce
    ultimately show ?thesis using moved_row_in [OF ok mv] True unfolding execution_ok_def by auto
  qed
qed

lemma db_ok_move:
  assumes ok: "db_ok db" and mv: "node_moved n f db db'"
    and a: "ne_status n \<in> {QUEUED, RUNNING, DEAD_LETTERED}" and b: "ne_status (f n) \<in> {QUEUED, RUNNING}"
    and e: "executions db' = executions db"
    and ids: "letter_key ` set (dead_letter_jobs db') \<subseteq> letter_key ` set (dead_letter_jobs db)"
    and others: "\<And>i. i \<noteq> ne_id n \<Longrightarrow> no_new_letters (dead_letters i db) (dead_letters i db')"
    and row: "row_ok (f n) (dead_letters (ne_id n) db')"
  shows "db_ok db'"
proof -
  have t: "tables_ok db" "runs_ok db" "rows_ok db" "status_ok db" and nk: "nodes_ok db"
    using ok by (auto simp: db_ok_def tables_ok_def)
  have v: "workflow_versions db' = workflow_versions db" using mv by (simp add: node_moved_def)
  have "letter_key ` set (dead_letter_jobs db') \<subseteq> row_key ` set (node_executions db)"
    using ids t(1) unfolding tables_ok_def by (meson order_trans)
  then have "tables_ok db'"
    using tables_ok_by_keys [OF t(1) node_moved_effect(2) [OF nk mv] _ v] e by simp
  moreover have "runs_ok db'"
    using runs_ok_one [OF t(2) v, of "ne_execution_id n"] e node_moved_other_view [OF nk mv] run_ok_move [OF nk mv a] b by auto
  moreover have "rows_ok db'" by (rule rows_ok_move [OF nk t(3) mv others row])
  moreover have "status_ok db'" by (rule status_ok_move [OF nk t(4) mv a b e])
  ultimately show ?thesis by (simp add: db_ok_def)
qed

end
