(* ===== verification/System.thy ===== *)
theory System
  imports System_Invariant
begin

section \<open>The running system\<close>

text \<open>
  The transactions of the engine, the workers, the recovery loop and the dead letter service as
  the moves of one transition system on the durable database, in any order: \<open>sys_step\<close>. Each
  transaction is atomic; between the transactions of one job those of other workers may come. The
  invariant \<open>db_ok\<close> is preserved by every move.
\<close>

subsection \<open>Claiming\<close>

lemma row_ok_status:
  "row_ok n js \<Longrightarrow> ne_status n \<in> {QUEUED, RUNNING} \<Longrightarrow> ne_status m \<in> {QUEUED, RUNNING} \<Longrightarrow>
   ne_attempt m = ne_attempt n \<Longrightarrow> ne_max_attempts m = ne_max_attempts n \<Longrightarrow> row_ok m js"
  by (auto simp: row_ok_def)

lemma claim_moved:
  assumes "claim_unit job s = Inr (Some n', s')"
  obtains n where "ne_id n = j_node_execution_id job" and "ne_status n = QUEUED"
    and "n' = set_node_status RUNNING (now s) n"
    and "node_moved n (set_node_status RUNNING (now s)) (sdb s) (sdb s')"
    and "executions (sdb s') = executions (sdb s)" and "dead_letter_jobs (sdb s') = dead_letter_jobs (sdb s)"
    and "workflows (sdb s') = workflows (sdb s)"
proof -
  from assms obtain m s1 where m: "row_get ne_id (j_node_execution_id job) (node_executions (sdb s)) = Some m"
    and t: "transition_node_status (ne_id m) QUEUED RUNNING s = Inr (n', s1)"
    and s': "s' = node_started (ne_execution_id n') (ne_id n') (ne_node_id n') s1"
    by (auto simp: claim_unit_def rbind_eq_Inr split: option.splits if_splits)
  from t obtain n where n: "filter (\<lambda>r. ne_id r = ne_id m) (node_executions (sdb s)) = [n]" "ne_status n = QUEUED"
    "n' = set_node_status RUNNING (now s) n"
    by (auto simp: transition_node_status_Inr)
  have mem: "n \<in> set (node_executions (sdb s))" "ne_id n = ne_id m" using filter_singletonD [OF n(1)] by auto
  note fr = transition_node_status_frame(1) [OF t]
  show thesis
    using that [of n] mem n row_get_Some [OF m] fr
    by (simp add: node_moved_def s' node_started_def)
qed

lemma db_ok_claim:
  assumes "db_ok (sdb s)" and "claim_unit job s = Inr (r, s')"
  shows "db_ok (sdb s')"
proof (cases r)
  case None
  then show ?thesis using assms by (auto simp: claim_unit_def rbind_eq_Inr split: option.splits if_splits)
next
  case (Some n')
  with assms(2) obtain n where n: "ne_status n = QUEUED"
    and mv: "node_moved n (set_node_status RUNNING (now s)) (sdb s) (sdb s')"
    and e: "executions (sdb s') = executions (sdb s)" and d: "dead_letter_jobs (sdb s') = dead_letter_jobs (sdb s)"
    by (auto elim: claim_moved)
  have "row_ok n (dead_letters (ne_id n) (sdb s))"
    using assms(1) mv by (simp add: db_ok_def rows_ok_def node_moved_def)
  then have "row_ok (set_node_status RUNNING (now s) n) (dead_letters (ne_id n) (sdb s'))"
    using n d by (auto simp: dead_letters_def intro: row_ok_status)
  then show ?thesis using db_ok_move [OF assms(1) mv] n e d by (simp add: dead_letters_def)
qed

subsection \<open>Recovering\<close>

lemma recover_moved:
  assumes "recover_unit job m p c s = (r, s')" and "distinct (map ne_id (node_executions (sdb s)))"
  shows "(node_executions (sdb s') = node_executions (sdb s) \<or>
      (\<exists>n. ne_status n = RUNNING \<and> node_moved n revert_row (sdb s) (sdb s'))) \<and>
    executions (sdb s') = executions (sdb s) \<and> dead_letter_jobs (sdb s') = dead_letter_jobs (sdb s) \<and>
    workflow_versions (sdb s') = workflow_versions (sdb s) \<and> workflows (sdb s') = workflows (sdb s)"
  using assms(1)
  by (auto simp: recover_unit_def Let_def worker_recovered_job_def node_moved_def revert_row_def
      split: option.splits if_splits dest!: row_get_Some)

lemma db_ok_same:
  assumes "db_ok db" and "node_executions db' = node_executions db" and "executions db' = executions db"
    and "dead_letter_jobs db' = dead_letter_jobs db" and "workflow_versions db' = workflow_versions db"
  shows "db_ok db'"
proof -
  note same = same_nodes [OF assms(2)]
  show ?thesis
    using assms same by (simp add: db_parts run_ok_def dead_letters_def)
qed

lemma db_ok_recover:
  assumes "db_ok (sdb s)" and "recover_unit job m p c s = (r, s')"
  shows "db_ok (sdb s')"
proof -
  have "distinct (map ne_id (node_executions (sdb s)))" using assms(1) by (simp add: db_ok_def tables_ok_def nodes_ok_def)
  note rm = recover_moved [OF assms(2) this]
  show ?thesis
  proof (cases "node_executions (sdb s') = node_executions (sdb s)")
    case True
    then show ?thesis using db_ok_same assms(1) rm by blast
  next
    case False
    then obtain n where n: "ne_status n = RUNNING" and mv: "node_moved n revert_row (sdb s) (sdb s')" using rm by blast
    have "row_ok n (dead_letters (ne_id n) (sdb s))"
      using assms(1) mv by (simp add: db_ok_def rows_ok_def node_moved_def)
    then have "row_ok (revert_row n) (dead_letters (ne_id n) (sdb s'))"
      using n rm by (auto simp: dead_letters_def revert_row_def intro: row_ok_status)
    then show ?thesis using db_ok_move [OF assms(1) mv] n rm by (simp add: dead_letters_def revert_row_def)
  qed
qed

subsection \<open>Retrying and resolving\<close>

definition resolves :: "(DeadLetterJob \<Rightarrow> DeadLetterJob) \<Rightarrow> bool" where
  "resolves f \<longleftrightarrow> (\<forall>j. letter_key (f j) = letter_key j \<and> dj_id (f j) = dj_id j \<and> dj_resolved_at (f j) \<noteq> None)"

lemma resolves_resolve_job: "resolves (resolve_job t note)"
  by (simp add: resolves_def resolve_job_def letter_key_def)

lemma resolve_letters:
  assumes "resolves f" and "dead_letter_jobs db' = row_modify dj_id k f (dead_letter_jobs db)"
  shows "no_new_letters (dead_letters i db) (dead_letters i db')"
    and "letter_key ` set (dead_letter_jobs db') = letter_key ` set (dead_letter_jobs db)"
proof -
  have r: "\<And>j. dj_node_execution_id (f j) = dj_node_execution_id j" "\<And>j. dj_resolved_at (f j) = None \<longleftrightarrow> False"
    using assms(1) by (auto simp: resolves_def letter_key_def)
  have "no_new_letters (filter (\<lambda>j. dj_node_execution_id j = i) js) (filter (\<lambda>j. dj_node_execution_id j = i) (row_modify dj_id k f js))" for js
    by (induction js) (auto simp: no_new_letters_def unresolved_def r)
  then show "no_new_letters (dead_letters i db) (dead_letters i db')" by (simp add: dead_letters_def assms(2))
  have "map letter_key (row_modify dj_id k f (dead_letter_jobs db)) = map letter_key (dead_letter_jobs db)"
    by (rule map_row_modify) (use assms(1) in \<open>simp add: resolves_def\<close>)
  then show "letter_key ` set (dead_letter_jobs db') = letter_key ` set (dead_letter_jobs db)"
    unfolding assms(2) by (metis list.set_map)
qed

lemma resolve_all_unresolved:
  assumes "resolves f" and "filter (\<lambda>j. dj_node_execution_id j = i \<and> dj_resolved_at j = None) js = [j]"
  shows "unresolved (filter (\<lambda>j. dj_node_execution_id j = i) (row_modify dj_id (dj_id j) f js)) = 0"
proof -
  have eq: "\<forall>q \<in> set js. dj_node_execution_id q = i \<longrightarrow> dj_resolved_at q = None \<longrightarrow> q = j"
    using assms(2) by (metis (mono_tags, lifting) filter_set list.set(1) list.set(2) mem_Collect_eq set_filter singletonD)
  have "dj_resolved_at q \<noteq> None" if q: "q \<in> set (row_modify dj_id (dj_id j) f js)" "dj_node_execution_id q = i" for q
  proof -
    obtain p where "p \<in> set js" "q = (if dj_id p = dj_id j then f p else p)" using q(1) by (auto simp: in_set_row_modify)
    then show ?thesis using q(2) eq assms(1) by (auto simp: resolves_def letter_key_def split: if_splits)
  qed
  then show ?thesis by (auto simp: unresolved_def filter_empty_conv)
qed

lemma db_ok_retry:
  assumes ok: "db_ok (sdb s)" and "retry_unit x nid owner s = Inr ((e, n'), s')"
  shows "db_ok (sdb s')"
proof -
  let ?f = "set_node_status QUEUED (now s)"
  from assms(2) obtain n s1 where n: "n \<in> set (node_executions (sdb s))" and st: "ne_status n = DEAD_LETTERED"
    and t: "transition_node_status (ne_id n) DEAD_LETTERED QUEUED s = Inr (n', s1)"
    and c: "(filter (\<lambda>j. dj_node_execution_id j = ne_id n \<and> dj_resolved_at j = None) (dead_letter_jobs (sdb s1)) = [] \<and> s' = s1) \<or>
      (\<exists>j. filter (\<lambda>j. dj_node_execution_id j = ne_id n \<and> dj_resolved_at j = None) (dead_letter_jobs (sdb s1)) = [j] \<and>
         s' = modify_db (dead_letter_jobs_update (row_modify dj_id (dj_id j) (resolve_job (now s1) (Some ''Manually retried via API'')))) s1)"
    by (rule retry_unit_Inr)
  note fr = transition_node_status_frame [OF t]
  have d1: "dead_letter_jobs (sdb s1) = dead_letter_jobs (sdb s)" by (simp add: fr(1))
  have mv: "node_moved n ?f (sdb s) (sdb s')" and e: "executions (sdb s') = executions (sdb s)"
    using c n by (auto simp: node_moved_def fr(1))
  have "dead_letter_jobs (sdb s') = dead_letter_jobs (sdb s) \<or>
      (\<exists>k. dead_letter_jobs (sdb s') = row_modify dj_id k (resolve_job (now s1) (Some ''Manually retried via API'')) (dead_letter_jobs (sdb s)))"
    using c d1 by auto
  then have letters: "no_new_letters (dead_letters i (sdb s)) (dead_letters i (sdb s'))"
    and ids: "letter_key ` set (dead_letter_jobs (sdb s')) = letter_key ` set (dead_letter_jobs (sdb s))" for i
    using resolve_letters [OF resolves_resolve_job] by (metis dead_letters_def no_new_letters_refl)+
  have "unresolved (dead_letters (ne_id n) (sdb s')) = 0"
    using c d1 resolve_all_unresolved [OF resolves_resolve_job]
    by (auto simp: dead_letters_def unresolved_def)
  moreover have "row_ok n (dead_letters (ne_id n) (sdb s))" using ok n by (simp add: db_ok_def rows_ok_def)
  ultimately have "row_ok (?f n) (dead_letters (ne_id n) (sdb s'))"
    using letters [of "ne_id n"] st by (auto simp: row_ok_def no_new_letters_def)
  then show ?thesis using db_ok_move [OF ok mv] st e letters ids by simp
qed

lemma db_ok_letters:
  assumes ok: "db_ok db" and "node_executions db' = node_executions db" and "executions db' = executions db"
    and "workflow_versions db' = workflow_versions db"
    and r: "resolves f" and d: "dead_letter_jobs db' = row_modify dj_id k f (dead_letter_jobs db)"
  shows "db_ok db'"
proof -
  note same = same_nodes [OF assms(2)] and rl = resolve_letters [OF r d]
  have "rows_ok db'"
    using ok rl(1) unfolding db_ok_def rows_ok_def assms(2) by (blast intro: row_ok_mono)
  then show ?thesis
    using ok rl(2) same assms(2-4) by (simp add: db_ok_def tables_ok_def runs_ok_def status_ok_def run_ok_def)
qed

lemma db_ok_resolve:
  assumes "db_ok (sdb s)" and "resolve_dlq_job i owner note s = Inr (r, s')"
  shows "db_ok (sdb s')"
proof -
  have "sdb s' = dead_letter_jobs_update (row_modify dj_id i (resolve_job (now s) note)) (sdb s)"
    using assms(2) by (auto simp: resolve_dlq_job_def rbind_eq_Inr split: option.splits)
  then show ?thesis by (intro db_ok_letters [OF assms(1) _ _ _ resolves_resolve_job]) simp_all
qed

end
