(* ===== verification/System_Start.thy ===== *)
theory System_Start
  imports System
begin

section \<open>Starting and deleting executions keeps the invariant\<close>

subsection \<open>What a started execution consists of\<close>

fun new_rows :: "uuid \<Rightarrow> WorkflowDefinition \<Rightarrow> Node list \<Rightarrow> (nat \<Rightarrow> uuid) \<Rightarrow> nat \<Rightarrow> NodeExecution list" where
  "new_rows x d [] u k = []"
| "new_rows x d (n # ns) u k = new_node (u k) x d n # new_rows x d ns u (Suc k)"

definition start_row :: "string list \<Rightarrow> time \<Rightarrow> NodeExecution \<Rightarrow> NodeExecution" where
  "start_row root_ids t r = (if ne_node_id r \<in> set root_ids then set_node_status QUEUED t r else r)"

lemma new_node_fields [simp]:
  "ne_id (new_node i x d n) = i" "ne_execution_id (new_node i x d n) = x" "ne_node_id (new_node i x d n) = n_id n"
  "ne_status (new_node i x d n) = PENDING" "ne_attempt (new_node i x d n) = 0"
  "ne_max_attempts (new_node i x d n) = max_attempts (resolve_retry_policy n d)"
  by (simp_all add: new_node_def)

lemma new_rows_fields:
  "map ne_node_id (new_rows x d ns u k) = map n_id ns"
  "map ne_id (new_rows x d ns u k) = map u [k ..< k + length ns]"
  "r \<in> set (new_rows x d ns u k) \<Longrightarrow> ne_execution_id r = x \<and> ne_status r = PENDING \<and> ne_attempt r = 0 \<and>
     (\<exists>n \<in> set ns. ne_max_attempts r = max_attempts (resolve_retry_policy n d))"
  by (induction ns arbitrary: k) (auto simp: upt_conv_Cons simp del: upt_Suc)

lemma add_nodes_effect:
  assumes "add_nodes x d ns s = (rows, s')"
  shows "rows = new_rows x d ns (uuids s) (used s) \<and>
    sdb s' = (sdb s)\<lparr>node_executions := node_executions (sdb s) @ rows\<rparr> \<and>
    pinned s' = pinned s \<and> now s' = now s \<and> uuids s' = uuids s \<and> used s' = used s + length ns"
  using assms
proof (induction ns arbitrary: s rows s')
  case (Cons n ns)
  let ?s1 = "modify_db (node_executions_update (\<lambda>rs. rs @ [new_node (uuids s (used s)) x d n])) (s\<lparr>used := Suc (used s)\<rparr>)"
  obtain rest s2 where r: "add_nodes x d ns ?s1 = (rest, s2)" by (cases "add_nodes x d ns ?s1")
  have "rows = new_node (uuids s (used s)) x d n # rest" "s' = s2"
    using Cons.prems r by (auto simp: new_uuid_def Let_def)
  then show ?case using Cons.IH [OF r] by simp
qed simp

text \<open>Queueing one root changes its row alone.\<close>

lemma queue_root:
  assumes ids: "distinct (map ne_id (node_executions (sdb s)))" and n: "n \<in> set (node_executions (sdb s))" "ne_status n = PENDING"
  obtains s1 where "transition_node_status (ne_id n) PENDING QUEUED s = Inr (set_node_status QUEUED (now s) n, s1)"
    and "sdb s1 = (sdb s)\<lparr>node_executions := map (\<lambda>r. if r = n then set_node_status QUEUED (now s) r else r) (node_executions (sdb s))\<rparr>"
    and "now s1 = now s" and "pinned s1 = pinned s"
proof -
  have uniq: "r = n" if "r \<in> set (node_executions (sdb s))" "ne_id r = ne_id n" for r
    using ids n that by (auto simp: distinct_map inj_on_def)
  have "row_get ne_id (ne_id n) (node_executions (sdb s)) = Some n" using ids n(1) by (intro row_get_distinct)
  from transition_node_status_ok [OF ids this n(2), of QUEUED] obtain s1 where
    t: "transition_node_status (ne_id n) PENDING QUEUED s = Inr (set_node_status QUEUED (now s) n, s1)" by blast
  have "row_modify ne_id (ne_id n) (set_node_status QUEUED (now s)) (node_executions (sdb s)) =
      map (\<lambda>r. if r = n then set_node_status QUEUED (now s) r else r) (node_executions (sdb s))"
    unfolding row_modify_def using uniq by auto
  then show thesis using that [OF t] transition_node_status_frame [OF t] by simp
qed

lemma queue_roots_effect:
  assumes "distinct (map ne_id (node_executions (sdb s)))" and "distinct (map ne_id R)"
    and "\<And>r. r \<in> set R \<Longrightarrow> r \<in> set (node_executions (sdb s)) \<and> ne_status r = PENDING"
  shows "\<exists>s'. queue_roots root_ids R s =
      Inr (map (set_node_status QUEUED (now s)) (filter (\<lambda>r. ne_node_id r \<in> set root_ids) R), s') \<and>
    sdb s' = (sdb s)\<lparr>node_executions := map (\<lambda>r. if r \<in> set R then start_row root_ids (now s) r else r) (node_executions (sdb s))\<rparr> \<and>
    now s' = now s \<and> pinned s' = pinned s"
  using assms
proof (induction R arbitrary: s)
  case Nil
  then show ?case by simp
next
  case (Cons n ns)
  have n: "n \<in> set (node_executions (sdb s))" "ne_status n = PENDING" using Cons.prems(3) by auto
  show ?case
  proof (cases "ne_node_id n \<in> set root_ids")
    case False
    have "map (\<lambda>r. if r \<in> set (n # ns) then start_row root_ids (now s) r else r) (node_executions (sdb s)) =
        map (\<lambda>r. if r \<in> set ns then start_row root_ids (now s) r else r) (node_executions (sdb s))"
      using False by (auto simp: start_row_def)
    note rows = this
    show ?thesis unfolding rows using Cons.IH [of s] Cons.prems False by simp
  next
    case True
    let ?f = "set_node_status QUEUED (now s)"
    obtain s1 where t: "transition_node_status (ne_id n) PENDING QUEUED s = Inr (?f n, s1)"
      and s1: "sdb s1 = (sdb s)\<lparr>node_executions := map (\<lambda>r. if r = n then ?f r else r) (node_executions (sdb s))\<rparr>"
        "now s1 = now s" "pinned s1 = pinned s" by (rule queue_root [OF Cons.prems(1) n])
    have out: "n \<notin> set ns" "?f n \<notin> set ns" using Cons.prems(2) by (auto simp: image_iff dest!: bspec)
    have "map ne_id (node_executions (sdb s1)) = map ne_id (node_executions (sdb s))" by (auto simp: s1)
    then have "distinct (map ne_id (node_executions (sdb s1)))" using Cons.prems(1) by simp
    moreover have "\<And>r. r \<in> set ns \<Longrightarrow> r \<in> set (node_executions (sdb s1)) \<and> ne_status r = PENDING"
      using Cons.prems(3) out by (auto simp: s1 image_iff)
    moreover have rows: "map (\<lambda>r. if r \<in> set (n # ns) then start_row root_ids (now s) r else r) (node_executions (sdb s)) =
        map (\<lambda>r. if r \<in> set ns then start_row root_ids (now s) r else r) (node_executions (sdb s1))"
      using True out by (auto simp: s1 start_row_def)
    ultimately show ?thesis unfolding rows using Cons.IH [of s1] Cons.prems(2) True t s1 by auto
  qed
qed

text \<open>
  The identifiers a start draws: distinct, and unused in the tables it writes.
\<close>

definition fresh_ids :: "nat \<Rightarrow> session \<Rightarrow> bool" where
  "fresh_ids k s \<longleftrightarrow> distinct (map (uuids s) [used s ..< used s + k]) \<and>
     (\<forall>i \<in> set (map (uuids s) [used s ..< used s + k]). i \<notin> ex_id ` set (executions (sdb s)) \<and> i \<notin> ne_id ` set (node_executions (sdb s)))"

lemma start_unit_version:
  assumes "start_unit reg cmd owner s = Inr r"
  obtains v w q where "v \<in> set (workflow_versions (sdb s))" and "wv_id v = cmd_workflow_version_id cmd"
    and "w \<in> set (workflows (sdb s))" and "wf_id w = wv_workflow_id v" and "wf_owner_api_key_id w = owner"
    and "validate_workflow (wv_definition v) reg = Inr q"
    and "start_unit reg cmd owner s =
      (let d = wv_definition v; (i, s1) = new_uuid s;
           s2 = modify_db (executions_update (\<lambda>rs. rs @ [new_execution i w v cmd])) s1;
           (node_execs, s3) = add_nodes i d (nodes d) s2;
           s4 = execution_started i s3
       in rbind (transition_execution_status i X_CREATED X_RUNNING s4) (\<lambda>(execution, s5).
          rbind (queue_roots (root_nodes q) node_execs s5) (\<lambda>(queued, s6). Inr ((execution, queued), s6))))"
proof -
  let ?rows = "concat (map (\<lambda>v. map (\<lambda>w. (v, w)) (filter (\<lambda>w. wf_id w = wv_workflow_id v) (workflows (sdb s))))
          (filter (\<lambda>v. wv_id v = cmd_workflow_version_id cmd) (workflow_versions (sdb s))))"
  from assms obtain v w where f: "first_row ?rows = Some (v, w)" and o: "wf_owner_api_key_id w = owner"
    by (auto simp: start_unit_def split: option.splits if_splits)
  have "(v, w) \<in> set ?rows" by (rule first_row_in [OF f])
  then have "v \<in> set (workflow_versions (sdb s))" "wv_id v = cmd_workflow_version_id cmd"
    "w \<in> set (workflows (sdb s))" "wf_id w = wv_workflow_id v" by auto
  moreover from assms f o obtain q where "validate_workflow (wv_definition v) reg = Inr q"
    by (auto simp: start_unit_def Let_def rbind_eq_Inr)
  ultimately show thesis using that [of v w q] f o by (simp add: start_unit_def Let_def)
qed

abbreviation fresh_rows :: "uuid \<Rightarrow> WorkflowDefinition \<Rightarrow> session \<Rightarrow> NodeExecution list" where
  "fresh_rows x d s \<equiv> new_rows x d (nodes d) (uuids s) (Suc (used s))"

lemma fresh_rows_ids:
  assumes "fresh_ids (Suc (length (nodes d))) s"
  shows "uuids s (used s) \<notin> ex_id ` set (executions (sdb s))" and "distinct (map ne_id (fresh_rows x d s))"
    and "ne_id ` set (fresh_rows x d s) \<inter> ne_id ` set (node_executions (sdb s)) = {}"
proof -
  let ?ids = "map (uuids s) [Suc (used s) ..< Suc (used s) + length (nodes d)]"
  have ids: "map ne_id (fresh_rows x d s) = ?ids" by (rule new_rows_fields(2))
  have "distinct ?ids" and out: "\<And>i. i \<in> set ?ids \<Longrightarrow> i \<notin> ne_id ` set (node_executions (sdb s))"
    using assms by (auto simp: fresh_ids_def upt_conv_Cons simp del: upt_Suc)
  then show "distinct (map ne_id (fresh_rows x d s))" using ids by simp
  show "ne_id ` set (fresh_rows x d s) \<inter> ne_id ` set (node_executions (sdb s)) = {}"
    using out ids by (metis disjoint_iff list.set_map)
  show "uuids s (used s) \<notin> ex_id ` set (executions (sdb s))"
    using assms by (simp add: fresh_ids_def upt_conv_Cons del: upt_Suc)
qed

text \<open>The first part of a start: the execution and its rows are inserted, and the execution runs.\<close>

lemma start_insert:
  assumes "x \<notin> ex_id ` set (executions (sdb s))" and "pinned s = []"
    and "add_nodes x d (nodes d) (modify_db (executions_update (\<lambda>rs. rs @ [new_execution x w v cmd])) (s\<lparr>used := Suc (used s)\<rparr>)) = (R, s3)"
    and "e = set_execution_status X_RUNNING (now s) (new_execution x w v cmd)"
  shows "R = fresh_rows x d s \<and> (\<exists>s5. transition_execution_status x X_CREATED X_RUNNING (execution_started x s3) = Inr (e, s5) \<and>
    executions (sdb s5) = executions (sdb s) @ [e] \<and> node_executions (sdb s5) = node_executions (sdb s) @ R \<and>
    dead_letter_jobs (sdb s5) = dead_letter_jobs (sdb s) \<and> workflow_versions (sdb s5) = workflow_versions (sdb s) \<and>
    workflows (sdb s5) = workflows (sdb s) \<and> now s5 = now s)"
proof -
  let ?new = "new_execution x w v cmd" and ?s4 = "execution_started x s3"
  have a: "R = fresh_rows x d s" "sdb s3 = (sdb s)\<lparr>executions := executions (sdb s) @ [?new], node_executions := node_executions (sdb s) @ R\<rparr>"
    "pinned s3 = []" "now s3 = now s"
    using add_nodes_effect [OF assms(3)] assms(2) by auto
  have "filter (\<lambda>e. ex_id e = x) (executions (sdb ?s4)) = [?new]"
    using a assms(1) by (auto simp: execution_started_def new_execution_def filter_empty_conv image_iff)
  then have "load_execution x ?s4 = Inr (Some ?new)" using a by (simp add: load_execution_def execution_started_def)
  then obtain s5 where t: "transition_execution_status x X_CREATED X_RUNNING ?s4 = Inr (e, s5)"
    using a assms(4) by (auto simp: transition_execution_status_def execution_started_def Let_def new_execution_def)
  note f5 = transition_execution_status_frame [OF t]
  have "row_modify ex_id x (set_execution_status X_RUNNING (now s)) (executions (sdb s)) = executions (sdb s)"
    using assms(1) by (rule row_modify_none)
  then have "executions (sdb s5) = executions (sdb s) @ [e]"
    using f5(1) a assms(4) by (simp add: execution_started_def new_execution_def)
  then show ?thesis using t f5 a by (simp add: execution_started_def)
qed

text \<open>All that a start does.\<close>

definition started_as :: "ExecutorRegistry \<Rightarrow> StartExecutionCommand \<Rightarrow> uuid \<Rightarrow> session \<Rightarrow> WorkflowVersion \<Rightarrow> Workflow \<Rightarrow>
    ValidationResult \<Rightarrow> Execution \<Rightarrow> session \<Rightarrow> bool" where
  "started_as reg cmd owner s v w q e s' \<longleftrightarrow>
     v \<in> set (workflow_versions (sdb s)) \<and> wv_id v = cmd_workflow_version_id cmd \<and>
     w \<in> set (workflows (sdb s)) \<and> wf_id w = wv_workflow_id v \<and> wf_owner_api_key_id w = owner \<and>
     validate_workflow (wv_definition v) reg = Inr q \<and> fresh_ids (Suc (length (nodes (wv_definition v)))) s \<and>
     e = set_execution_status X_RUNNING (now s) (new_execution (uuids s (used s)) w v cmd) \<and>
     start_unit reg cmd owner s = Inr ((e, map (set_node_status QUEUED (now s))
       (filter (\<lambda>r. ne_node_id r \<in> set (root_nodes q)) (fresh_rows (ex_id e) (wv_definition v) s))), s') \<and>
     executions (sdb s') = executions (sdb s) @ [e] \<and>
     node_executions (sdb s') = node_executions (sdb s) @ map (start_row (root_nodes q) (now s)) (fresh_rows (ex_id e) (wv_definition v) s) \<and>
     dead_letter_jobs (sdb s') = dead_letter_jobs (sdb s) \<and> workflow_versions (sdb s') = workflow_versions (sdb s) \<and>
     workflows (sdb s') = workflows (sdb s)"

lemma started_execution:
  assumes "started_as reg cmd owner s v w q e s'"
  shows "ex_id e = uuids s (used s)" and "ex_workflow_version_id e = wv_id v" and "ex_status e = X_RUNNING"
  using assms by (simp_all add: started_as_def new_execution_def)

lemma start_unit_effect:
  assumes "start_unit reg cmd owner s = Inr r" and ids: "distinct (map ne_id (node_executions (sdb s)))"
    and fresh: "\<And>v. v \<in> set (workflow_versions (sdb s)) \<Longrightarrow> wv_id v = cmd_workflow_version_id cmd \<Longrightarrow>
      fresh_ids (Suc (length (nodes (wv_definition v)))) s" and p: "pinned s = []"
  obtains v w q e s' where "started_as reg cmd owner s v w q e s'"
proof -
  from assms(1) obtain v w q where vw: "v \<in> set (workflow_versions (sdb s))" "wv_id v = cmd_workflow_version_id cmd"
    "w \<in> set (workflows (sdb s))" "wf_id w = wv_workflow_id v" "wf_owner_api_key_id w = owner"
    "validate_workflow (wv_definition v) reg = Inr q"
    and su: "start_unit reg cmd owner s =
      (let d = wv_definition v; (i, s1) = new_uuid s;
           s2 = modify_db (executions_update (\<lambda>rs. rs @ [new_execution i w v cmd])) s1;
           (node_execs, s3) = add_nodes i d (nodes d) s2;
           s4 = execution_started i s3
       in rbind (transition_execution_status i X_CREATED X_RUNNING s4) (\<lambda>(execution, s5).
          rbind (queue_roots (root_nodes q) node_execs s5) (\<lambda>(queued, s6). Inr ((execution, queued), s6))))"
    by (rule start_unit_version)
  note fr = fresh [OF vw(1,2)]
  let ?d = "wv_definition v" and ?x = "uuids s (used s)"
  let ?N = "fresh_rows ?x ?d s" and ?e = "set_execution_status X_RUNNING (now s) (new_execution ?x w v cmd)"
  let ?s2 = "modify_db (executions_update (\<lambda>rs. rs @ [new_execution ?x w v cmd])) (s\<lparr>used := Suc (used s)\<rparr>)"
  note f = fresh_rows_ids(1) [OF fr] fresh_rows_ids(2,3) [OF fr, where x = ?x]
  obtain R s3 where add: "add_nodes ?x ?d (nodes ?d) ?s2 = (R, s3)" by (cases "add_nodes ?x ?d (nodes ?d) ?s2")
  from start_insert [OF f(1) p add refl] obtain s5 where N: "R = ?N"
    and t: "transition_execution_status ?x X_CREATED X_RUNNING (execution_started ?x s3) = Inr (?e, s5)"
    and s5: "executions (sdb s5) = executions (sdb s) @ [?e]" "node_executions (sdb s5) = node_executions (sdb s) @ ?N"
    "dead_letter_jobs (sdb s5) = dead_letter_jobs (sdb s)" "workflow_versions (sdb s5) = workflow_versions (sdb s)"
    "workflows (sdb s5) = workflows (sdb s)" "now s5 = now s" by blast
  have d5: "distinct (map ne_id (node_executions (sdb s5)))" unfolding s5 using ids f(2,3) by auto
  have "r \<in> set (node_executions (sdb s5)) \<and> ne_status r = PENDING" if "r \<in> set ?N" for r
    using that new_rows_fields(3) [OF that] by (simp add: s5)
  from queue_roots_effect [OF d5 f(2) this, of "root_nodes q"] obtain s6 where
    q6: "queue_roots (root_nodes q) ?N s5 = Inr (map (set_node_status QUEUED (now s)) (filter (\<lambda>r. ne_node_id r \<in> set (root_nodes q)) ?N), s6)"
    and db6: "sdb s6 = (sdb s5)\<lparr>node_executions := map (\<lambda>r. if r \<in> set ?N then start_row (root_nodes q) (now s) r else r) (node_executions (sdb s5))\<rparr>"
    unfolding s5(6) by blast
  have "map (\<lambda>r. if r \<in> set ?N then start_row (root_nodes q) (now s) r else r) (node_executions (sdb s)) = node_executions (sdb s)"
    using f(3) by (intro map_idI) auto
  then have "node_executions (sdb s6) = node_executions (sdb s) @ map (start_row (root_nodes q) (now s)) ?N"
    by (simp add: db6 s5)
  moreover have "start_unit reg cmd owner s = Inr ((?e, map (set_node_status QUEUED (now s)) (filter (\<lambda>r. ne_node_id r \<in> set (root_nodes q)) ?N)), s6)"
    unfolding su using add t q6 N by (simp add: new_uuid_def Let_def)
  moreover have "ex_id ?e = ?x" by (simp add: new_execution_def)
  ultimately have "started_as reg cmd owner s v w q ?e s6" using vw fr s5 db6 by (simp add: started_as_def)
  then show thesis by (rule that)
qed

subsection \<open>The invariant after a start\<close>

lemma start_row_fields [simp]:
  "ne_id (start_row rs t r) = ne_id r" "ne_execution_id (start_row rs t r) = ne_execution_id r"
  "ne_node_id (start_row rs t r) = ne_node_id r" "ne_max_attempts (start_row rs t r) = ne_max_attempts r"
  by (simp_all add: start_row_def)

lemma row_get_new_rows:
  "row_get ne_node_id c (map (start_row rs t) (new_rows x d ns u k)) =
   map_option (start_row rs t) (row_get ne_node_id c (new_rows x d ns u k))"
  by (induction ns arbitrary: k) auto

lemma row_get_new_rows_None: "row_get ne_node_id c (new_rows x d ns u k) = None \<longleftrightarrow> c \<notin> n_id ` set ns"
  by (induction ns arbitrary: k) auto

text \<open>The run of a fresh execution starts in the initial state of the specification.\<close>

lemma start_view:
  assumes "execution_rows x db = map (start_row (roots d) t) (new_rows x d (nodes d) u k)"
  shows "run_view x db = initial_view (edge_rel d) (set (node_ids d))"
proof
  fix c
  show "run_view x db c = initial_view (edge_rel d) (set (node_ids d)) c"
  proof (cases "c \<in> set (node_ids d)")
    case False
    then have "row_get ne_node_id c (new_rows x d (nodes d) u k) = None"
      by (simp add: row_get_new_rows_None node_ids_def)
    then show ?thesis using False by (simp add: run_view_def assms row_get_new_rows initial_view_def)
  next
    case True
    then obtain r where r: "row_get ne_node_id c (new_rows x d (nodes d) u k) = Some r"
      using row_get_new_rows_None [of c x d "nodes d" u k] by (auto simp: node_ids_def)
    have "ne_status r = PENDING" "ne_node_id r = c" using row_get_Some [OF r] new_rows_fields(3) by auto
    moreover have "c \<in> set (roots d) \<longleftrightarrow> \<not> (\<exists>p. (p, c) \<in> edge_rel d)"
      using True by (auto simp: roots_def edge_rel_parent)
    ultimately show ?thesis
      using True r by (simp add: run_view_def assms row_get_new_rows initial_view_def start_row_def)
  qed
qed

text \<open>Adding an execution with its rows, part by part of the invariant.\<close>

definition execution_added :: "Execution \<Rightarrow> NodeExecution list \<Rightarrow> database \<Rightarrow> database \<Rightarrow> bool" where
  "execution_added e R db db' \<longleftrightarrow>
     executions db' = executions db @ [e] \<and> node_executions db' = node_executions db @ R \<and>
     dead_letter_jobs db' = dead_letter_jobs db \<and> workflow_versions db' = workflow_versions db \<and>
     ex_id e \<notin> ex_id ` set (executions db) \<and> distinct (map ne_id R) \<and> distinct (map ne_node_id R) \<and>
     ne_id ` set R \<inter> ne_id ` set (node_executions db) = {} \<and>
     (\<forall>r \<in> set R. ne_execution_id r = ex_id e \<and> row_ok r [] \<and> ne_status r \<in> {PENDING, QUEUED})"

lemma added_rows:
  assumes "tables_ok db" and "execution_added e R db db'"
  shows "execution_rows (ex_id e) db' = R" and "y \<noteq> ex_id e \<Longrightarrow> execution_rows y db' = execution_rows y db"
proof -
  have sub: "ne_execution_id ` set (node_executions db) \<subseteq> ex_id ` set (executions db)" using assms(1) by (simp add: tables_ok_def)
  have rows: "node_executions db' = node_executions db @ R" and new: "ex_id e \<notin> ex_id ` set (executions db)"
    and R: "\<And>r. r \<in> set R \<Longrightarrow> ne_execution_id r = ex_id e" using assms(2) by (auto simp: execution_added_def)
  have "ne_execution_id r \<noteq> ex_id e" if "r \<in> set (node_executions db)" for r
    using subsetD [OF sub imageI [OF that]] new by metis
  then show "execution_rows (ex_id e) db' = R" using R by (simp add: execution_rows_def rows filter_empty_conv)
  show "y \<noteq> ex_id e \<Longrightarrow> execution_rows y db' = execution_rows y db"
    using R by (auto simp: execution_rows_def rows filter_empty_conv)
qed

lemma tables_ok_added:
  assumes "tables_ok db" and "execution_added e R db db'"
  shows "tables_ok db'"
proof -
  have nk: "nodes_ok db" using assms(1) by (simp add: tables_ok_def)
  have "nodes_ok db'" unfolding nodes_ok_def
  proof (intro conjI allI)
    show "distinct (map ne_id (node_executions db'))" using nk assms(2) by (auto simp: nodes_ok_def execution_added_def)
    show "distinct (map ne_node_id (execution_rows y db'))" for y
      using nk assms(2) added_rows(1) [OF assms] added_rows(2) [OF assms, of y] by (cases "y = ex_id e") (simp_all add: nodes_ok_def execution_added_def)
  qed
  moreover have "ne_execution_id ` set R \<subseteq> {ex_id e}" using assms(2) by (auto simp: execution_added_def)
  ultimately show ?thesis using assms unfolding tables_ok_def execution_added_def by auto
qed

lemma runs_ok_added:
  assumes "tables_ok db" and "runs_ok db" and "execution_added e R db db'"
    and "v \<in> set (workflow_versions db)" and "wv_id v = ex_workflow_version_id e" and "run_ok (wv_definition v) (ex_id e) db'"
  shows "runs_ok db'"
  unfolding runs_ok_def
proof
  fix e' assume e': "e' \<in> set (executions db')"
  show "\<exists>v \<in> set (workflow_versions db'). wv_id v = ex_workflow_version_id e' \<and> run_ok (wv_definition v) (ex_id e') db'"
  proof (cases "e' = e")
    case True
    then show ?thesis using assms(3-6) by (auto simp: execution_added_def)
  next
    case False
    then have old: "e' \<in> set (executions db)" using e' assms(3) by (auto simp: execution_added_def)
    then have "ex_id e' \<noteq> ex_id e" using assms(3) by (metis imageI execution_added_def)
    then have "run_view (ex_id e') db' = run_view (ex_id e') db"
      using added_rows(2) [OF assms(1,3)] by (simp add: run_view_def fun_eq_iff)
    then show ?thesis using assms(2,3) old by (simp add: runs_ok_def run_ok_def execution_added_def)
  qed
qed

lemma rows_ok_added:
  assumes "tables_ok db" and "rows_ok db" and "execution_added e R db db'"
  shows "rows_ok db'"
  unfolding rows_ok_def
proof
  have dl: "dead_letter_jobs db' = dead_letter_jobs db" using assms(3) by (simp add: execution_added_def)
  fix r assume "r \<in> set (node_executions db')"
  then consider "r \<in> set (node_executions db)" | "r \<in> set R" using assms(3) by (auto simp: execution_added_def)
  then show "row_ok r (dead_letters (ne_id r) db')"
  proof cases
    case 1
    then show ?thesis using assms(2) dl by (simp add: rows_ok_def dead_letters_def)
  next
    case 2
    then have "ne_id r \<notin> ne_id ` set (node_executions db)" using assms(3) by (metis IntI emptyE imageI execution_added_def)
    then have "dj_node_execution_id j \<noteq> ne_id r" if "j \<in> set (dead_letter_jobs db)" for j
      using subsetD [OF letter_nodes [OF assms(1)] imageI [OF that]] by metis
    then have "dead_letters (ne_id r) db' = []" by (simp add: dead_letters_def dl filter_empty_conv)
    then show ?thesis using 2 assms(3) by (simp add: execution_added_def)
  qed
qed

lemma status_ok_added:
  assumes "tables_ok db" and "status_ok db" and "execution_added e R db db'" and "ex_status e = X_RUNNING"
  shows "status_ok db'"
  unfolding status_ok_def
proof
  have R: "\<And>r. r \<in> set R \<Longrightarrow> ne_status r \<in> {PENDING, QUEUED}" using assms(3) by (simp add: execution_added_def)
  fix e' assume e': "e' \<in> set (executions db')"
  show "execution_ok e' (execution_rows (ex_id e') db')"
  proof (cases "e' = e")
    case True
    then show ?thesis using added_rows(1) [OF assms(1,3)] R assms(4)
      by (cases R) (fastforce simp: execution_ok_def is_terminal_def TERMINAL_NODE_STATUSES_def)+
  next
    case False
    then have old: "e' \<in> set (executions db)" using e' assms(3) by (auto simp: execution_added_def)
    then have "ex_id e' \<noteq> ex_id e" using assms(3) by (metis imageI execution_added_def)
    then show ?thesis using assms(2) old added_rows(2) [OF assms(1,3)] by (simp add: status_ok_def)
  qed
qed

lemma db_ok_added:
  assumes "db_ok db" and "execution_added e R db db'" and "v \<in> set (workflow_versions db)" and "wv_id v = ex_workflow_version_id e"
    and "run_ok (wv_definition v) (ex_id e) db'" and "ex_status e = X_RUNNING"
  shows "db_ok db'"
  using assms tables_ok_added runs_ok_added rows_ok_added status_ok_added unfolding db_ok_def by blast

lemma start_row_ok:
  assumes "valid_WorkflowDefinition d" and "r \<in> set (new_rows x d (nodes d) u k)"
  shows "row_ok (start_row rs t r) [] \<and> ne_status (start_row rs t r) \<in> {PENDING, QUEUED}"
proof -
  obtain n where n: "n \<in> set (nodes d)" "ne_max_attempts r = max_attempts (resolve_retry_policy n d)"
    and f: "ne_status r = PENDING" "ne_attempt r = 0" using new_rows_fields(3) [OF assms(2)] by auto
  have "1 \<le> max_attempts (resolve_retry_policy n d)"
    using valid_resolved_policy [OF assms(1) n(1)] by (simp add: valid_RetryPolicy_def)
  then show ?thesis using n f by (auto simp: row_ok_def start_row_def)
qed

lemma started_added:
  assumes "db_ok (sdb s)" and st: "started_as reg cmd owner s v w q e s'"
  shows "execution_added e (map (start_row (root_nodes q) (now s)) (fresh_rows (ex_id e) (wv_definition v) s)) (sdb s) (sdb s')"
proof -
  let ?d = "wv_definition v"
  let ?N = "fresh_rows (ex_id e) ?d s" let ?R = "map (start_row (root_nodes q) (now s)) ?N"
  have wf: "distinct (node_ids ?d)" using st validate_workflow_Inr_iff unfolding started_as_def by blast
  have v: "valid_WorkflowDefinition ?d" using assms(1) st by (auto simp: started_as_def db_ok_def tables_ok_def)
  have fr: "fresh_ids (Suc (length (nodes ?d))) s" using st by (simp add: started_as_def)
  have "map ne_id ?R = map ne_id ?N" by (simp add: comp_def)
  then have "distinct (map ne_id ?R)" "ne_id ` set ?R \<inter> ne_id ` set (node_executions (sdb s)) = {}"
    using fresh_rows_ids(2,3) [OF fr, where x = "ex_id e"] by (simp_all add: comp_def image_image)
  moreover have "map ne_node_id ?R = node_ids ?d"
    using new_rows_fields(1) [of "ex_id e" ?d "nodes ?d"] by (simp add: comp_def node_ids_def)
  moreover have "ne_execution_id r = ex_id e \<and> row_ok r [] \<and> ne_status r \<in> {PENDING, QUEUED}" if m: "r \<in> set ?R" for r
  proof -
    obtain r1 where r1: "r1 \<in> set ?N" "r = start_row (root_nodes q) (now s) r1" using m by auto
    then show ?thesis using start_row_ok [OF v] new_rows_fields(3) [OF r1(1)] by simp
  qed
  moreover have "ex_id e \<notin> ex_id ` set (executions (sdb s))"
    unfolding started_execution(1) [OF st] by (rule fresh_rows_ids(1) [OF fr])
  moreover have "executions (sdb s') = executions (sdb s) @ [e]" "node_executions (sdb s') = node_executions (sdb s) @ ?R"
    "dead_letter_jobs (sdb s') = dead_letter_jobs (sdb s)" "workflow_versions (sdb s') = workflow_versions (sdb s)"
    using st unfolding started_as_def by blast+
  ultimately show ?thesis using wf unfolding execution_added_def by (simp only: simp_thms) blast
qed

lemma db_ok_start:
  assumes ok: "db_ok (sdb s)" and su: "start_unit reg cmd owner s = Inr (r, s')" and p: "pinned s = []"
    and fresh: "\<And>v. v \<in> set (workflow_versions (sdb s)) \<Longrightarrow> wv_id v = cmd_workflow_version_id cmd \<Longrightarrow>
      fresh_ids (Suc (length (nodes (wv_definition v)))) s"
  shows "db_ok (sdb s')"
proof -
  have "distinct (map ne_id (node_executions (sdb s)))" using ok by (simp add: db_ok_def tables_ok_def nodes_ok_def)
  from start_unit_effect [OF su this fresh p] obtain v w q e s1 where st: "started_as reg cmd owner s v w q e s1" .
  let ?d = "wv_definition v"
  have add: "execution_added e (map (start_row (root_nodes q) (now s)) (fresh_rows (ex_id e) ?d s)) (sdb s) (sdb s1)"
    by (rule started_added [OF ok st])
  have val: "validate_workflow ?d reg = Inr q" "v \<in> set (workflow_versions (sdb s))" using st by (simp_all add: started_as_def)
  have wf: "edges_closed ?d" "acyclic (edge_rel ?d)" using val validate_workflow_Inr_iff by blast+
  have "tables_ok (sdb s)" using ok by (simp add: db_ok_def)
  then have "run_view (ex_id e) (sdb s1) = initial_view (edge_rel ?d) (set (node_ids ?d))"
    using start_view [of "ex_id e" "sdb s1" ?d "now s"] added_rows(1) [OF _ add] validate_workflow_result [OF val(1)] by simp
  moreover have "edge_rel ?d \<subseteq> set (node_ids ?d) \<times> set (node_ids ?d)"
    using wf(1) by (auto simp: edges_closed_def edge_rel_def)
  ultimately have "run_ok ?d (ex_id e) (sdb s1)" using wf(2) graph_ok_initial by (simp add: run_ok_def)
  then have "db_ok (sdb s1)" using db_ok_added [OF ok add val(2)] started_execution [OF st] by simp
  then show ?thesis using su st by (simp add: started_as_def)
qed

subsection \<open>Deleting an execution\<close>

lemma delete_rows_execution_rows:
  "execution_rows y (delete_rows x db) = (if y = x then [] else execution_rows y db)"
  by (auto simp: execution_rows_def filter_empty_conv intro!: filter_cong)

lemma letter_row:
  assumes "tables_ok db" and "j \<in> set (dead_letter_jobs db)"
  obtains m where "m \<in> set (node_executions db)" and "ne_id m = dj_node_execution_id j" and "ne_execution_id m = dj_execution_id j"
proof -
  have "letter_key j \<in> row_key ` set (node_executions db)" using assms by (auto simp: tables_ok_def)
  then show thesis using that by (auto simp: letter_key_def row_key_def)
qed

lemma tables_ok_delete_rows:
  assumes "tables_ok db"
  shows "tables_ok (delete_rows x db)"
proof -
  have "distinct (map ne_node_id (execution_rows y (delete_rows x db)))" for y
    using assms by (simp add: tables_ok_def nodes_ok_def delete_rows_execution_rows)
  then have nk: "nodes_ok (delete_rows x db)"
    using assms by (simp add: tables_ok_def nodes_ok_def distinct_map_filter)
  have sub: "ne_execution_id ` set (node_executions db) \<subseteq> ex_id ` set (executions db)"
    using assms by (simp add: tables_ok_def)
  have "ne_execution_id ` set (node_executions (delete_rows x db)) \<subseteq> ex_id ` set (executions (delete_rows x db))"
    using sub by fastforce
  moreover have "letter_key ` set (dead_letter_jobs (delete_rows x db)) \<subseteq> row_key ` set (node_executions (delete_rows x db))"
  proof
    fix k assume "k \<in> letter_key ` set (dead_letter_jobs (delete_rows x db))"
    then obtain j where j: "j \<in> set (dead_letter_jobs db)" "dj_execution_id j \<noteq> x" "k = letter_key j" by auto
    from letter_row [OF assms j(1)] obtain m :: NodeExecution where
      "m \<in> set (node_executions db)" "ne_id m = dj_node_execution_id j" "ne_execution_id m = dj_execution_id j" .
    then show "k \<in> row_key ` set (node_executions (delete_rows x db))"
      using j by (intro image_eqI [of _ _ m]) (simp_all add: letter_key_def row_key_def)
  qed
  ultimately show ?thesis using assms nk by (simp add: tables_ok_def distinct_map_filter)
qed

lemma rows_ok_delete_rows:
  assumes t: "tables_ok db" and "rows_ok db"
  shows "rows_ok (delete_rows x db)"
  unfolding rows_ok_def
proof
  fix m assume m: "m \<in> set (node_executions (delete_rows x db))"
  have "dj_execution_id j \<noteq> x" if j: "j \<in> set (dead_letter_jobs db)" "dj_node_execution_id j = ne_id m" for j
  proof -
    from letter_row [OF t j(1)] obtain r :: NodeExecution where
      r: "r \<in> set (node_executions db)" "ne_id r = ne_id m" "ne_execution_id r = dj_execution_id j" unfolding j(2) .
    have "inj_on ne_id (set (node_executions db))" using t by (simp add: tables_ok_def nodes_ok_def distinct_map)
    then have "r = m" using r m by (auto dest: inj_onD)
    then show ?thesis using r(3) m by auto
  qed
  then have "dead_letters (ne_id m) (delete_rows x db) = dead_letters (ne_id m) db"
    by (auto simp: dead_letters_def intro!: filter_cong)
  then show "row_ok m (dead_letters (ne_id m) (delete_rows x db))" using assms(2) m by (simp add: rows_ok_def)
qed

lemma db_ok_delete_rows:
  assumes "db_ok db"
  shows "db_ok (delete_rows x db)"
proof -
  have t: "tables_ok db" "runs_ok db" "rows_ok db" "status_ok db" using assms by (auto simp: db_ok_def)
  have "runs_ok (delete_rows x db)"
    using t(2) by (auto simp: runs_ok_def run_ok_def run_view_def [abs_def] delete_rows_execution_rows)
  moreover have "status_ok (delete_rows x db)" using t(4) by (auto simp: status_ok_def delete_rows_execution_rows)
  ultimately show ?thesis using t tables_ok_delete_rows rows_ok_delete_rows by (simp add: db_ok_def)
qed

end
