(* ===== verification/System_Complete.thy ===== *)
theory System_Complete
  imports System
begin

section \<open>Completing a job keeps the invariant\<close>

text \<open>
  The three outcomes of \<open>complete_unit\<close> on a database that satisfies the invariant, for a worker
  that holds a possibly outdated execution object.
\<close>

subsection \<open>A worker in flight\<close>

lemma act_version:
  assumes ok: "db_ok db" and a: "act_ok db a" and e: "e \<in> set (executions db)" and x: "ex_id e = ex_id (jc_execution (a_context a))"
    and w: "w \<in> set (workflow_versions db)" "wv_id w = ex_workflow_version_id e"
  shows "wv_definition w = jc_definition (a_context a)"
proof -
  obtain u where u: "u \<in> set (workflow_versions db)" "wv_id u = wv_id w" "wv_definition u = jc_definition (a_context a)"
    using a e x w(2) unfolding act_ok_def by metis
  have "inj_on wv_id (set (workflow_versions db))" using ok by (simp add: db_ok_def tables_ok_def distinct_map)
  then have "u = w" using u(1,2) w(1) by (auto dest: inj_onD)
  with u(3) show ?thesis by simp
qed

lemma act_definition:
  assumes ok: "db_ok db" and a: "act_ok db a" and e: "e \<in> set (executions db)"
    and x: "ex_id e = ex_id (jc_execution (a_context a))"
  shows "run_ok (jc_definition (a_context a)) (ex_id e) db"
proof -
  obtain v where "v \<in> set (workflow_versions db)" "wv_id v = ex_workflow_version_id e" "run_ok (wv_definition v) (ex_id e) db"
    using ok e by (auto simp: db_ok_def runs_ok_def)
  then show ?thesis using act_version [OF ok a e x, of v] by simp
qed

lemma act_job_ok:
  assumes ok: "db_ok (sdb s)" and a: "act_ok (sdb s) a" and p: "pinned s = [jc_execution (a_context a)]"
    and n: "n \<in> set (execution_rows (ex_id (jc_execution (a_context a))) (sdb s))" and st: "ne_status n = RUNNING"
  shows "job_ok (a_context a) n s"
proof -
  let ?x = "ex_id (jc_execution (a_context a))"
  have m: "n \<in> set (node_executions (sdb s))" "ne_execution_id n = ?x"
    using n by (simp_all add: in_execution_rows)
  have sub: "ne_execution_id ` set (node_executions (sdb s)) \<subseteq> ex_id ` set (executions (sdb s))"
    using ok by (simp add: db_ok_def tables_ok_def)
  have "?x \<in> ex_id ` set (executions (sdb s))" unfolding m(2) [symmetric] by (rule subsetD [OF sub imageI [OF m(1)]])
  then obtain e where e: "e \<in> set (executions (sdb s))" "ex_id e = ?x" by auto
  have "row_get ex_id ?x (executions (sdb s)) \<noteq> None" using e by (metis image_eqI row_get_None_iff)
  moreover have "graph_ok (edge_rel (jc_definition (a_context a))) (set (node_ids (jc_definition (a_context a)))) (run_view ?x (sdb s))"
    using act_definition [OF ok a e] e(2) by (simp add: run_ok_def)
  then have "\<forall>p c. (p, c) \<in> edge_rel (jc_definition (a_context a)) \<longrightarrow> run_view ?x (sdb s) p \<noteq> None"
    unfolding graph_ok_def by blast
  ultimately show ?thesis using ok n st p by (simp add: job_ok_def held_ok_def db_ok_def tables_ok_def)
qed

lemma act_held: "pinned s = [jc_execution (a_context a)] \<Longrightarrow> held_execution (jc_execution (a_context a)) s = jc_execution (a_context a)"
  by (simp add: held_execution_def)

subsection \<open>Success\<close>

lemma success_other_rows:
  assumes "list_all2 (success_row x i out t) rs rs'" and "\<And>r. r \<in> set rs \<Longrightarrow> ne_id r = i \<Longrightarrow> ne_execution_id r = x" and "y \<noteq> x"
  shows "filter (\<lambda>n. ne_execution_id n = y) rs' = filter (\<lambda>n. ne_execution_id n = y) rs"
  using assms(1,2)
proof (induction rule: list_all2_induct)
  case (Cons r rs r' rs')
  have IH: "filter (\<lambda>n. ne_execution_id n = y) rs' = filter (\<lambda>n. ne_execution_id n = y) rs" using Cons by simp
  show ?case
  proof (cases "ne_id r = i")
    case True
    then have "ne_execution_id r = x" "ne_execution_id r' = x" using Cons by (auto simp: success_row_def end_attempt_def)
    then show ?thesis using IH assms(3) by simp
  next
    case False
    then have "advance x t r r'" using Cons.hyps(1) by (simp add: success_row_def)
    then show ?thesis using IH advance_fields [of x t r r'] assms(3) by (cases "ne_execution_id r = y") simp_all
  qed
qed simp

lemma success_row_ok:
  assumes "success_row x i out t r r'" and "row_ok r js" and "ne_id r = i \<Longrightarrow> ne_status r = RUNNING"
  shows "row_ok r' js \<and> ne_id r' = ne_id r \<and> ne_status r' \<in> {ne_status r, SUCCEEDED, SKIPPED, QUEUED}"
  using assms by (auto simp: success_row_def end_attempt_def advance_def row_ok_def split: if_splits)

lemma list_all2_in2: "list_all2 P rs rs' \<Longrightarrow> r' \<in> set rs' \<Longrightarrow> \<exists>r \<in> set rs. P r r'"
  by (induction rule: list_all2_induct) auto

lemma finished_execution_ids:
  "map ex_id (finished_executions e b t rows es) = map ex_id es"
  "map ex_workflow_version_id (finished_executions e b t rows es) = map ex_workflow_version_id es"
  by (auto simp: finished_executions_def row_modify_def)

lemma status_ok_success:
  assumes st: "status_ok db" and nk: "nodes_ok db" and n: "n \<in> set (execution_rows x db)" and run: "ne_status n = RUNNING"
    and held: "\<And>e. e \<in> set (executions db) \<Longrightarrow> ex_id e = x \<Longrightarrow> ex_status e = X_RUNNING \<Longrightarrow> running"
    and rows: "\<And>r'. r' \<in> set (execution_rows x db') \<Longrightarrow>
       \<exists>r \<in> set (execution_rows x db). ne_status r' \<in> {ne_status r, SUCCEEDED, SKIPPED, QUEUED}"
    and others: "\<And>y. y \<noteq> x \<Longrightarrow> execution_rows y db' = execution_rows y db"
    and e: "executions db' = finished_executions e0 running t (execution_rows x db') (executions db)" and x: "ex_id e0 = x"
  shows "status_ok db'"
  unfolding status_ok_def
proof
  let ?R = "execution_rows x db'"
  fix e' assume "e' \<in> set (executions db')"
  then obtain q where q: "q \<in> set (executions db)"
    and e': "e' = (if list_all is_terminal ?R \<and> running \<and> ex_id q = x then set_execution_status (final_status ?R) t q else q)"
    unfolding e finished_executions_def x by (auto simp: in_set_row_modify split: if_splits)
  have old: "execution_ok q (execution_rows (ex_id q) db)" using st q by (simp add: status_ok_def)
  have id: "ex_id e' = ex_id q" by (simp add: e')
  show "execution_ok e' (execution_rows (ex_id e') db')"
  proof (cases "ex_id q = x")
    case False
    then show ?thesis using old others [OF False] by (simp add: e' id)
  next
    case True
    have ns: "ex_status q \<noteq> X_SUCCEEDED" using old True n run by (auto simp: execution_ok_def)
    show ?thesis
    proof (cases "list_all is_terminal ?R \<and> running")
      case fin: True
      then show ?thesis
        using True by (auto simp: e' execution_ok_def final_status_def list_all_iff list_ex_iff is_terminal_def
            TERMINAL_NODE_STATUSES_def split: if_splits)
    next
      case nofin: False
      then have "e' = q" by (auto simp: e')
      moreover have "\<not> list_all is_terminal ?R" if "ex_status q = X_RUNNING" using held [OF q True that] nofin by blast
      moreover have "ne_status r' \<noteq> DEAD_LETTERED" if a: "ex_status q = X_RUNNING" and b: "r' \<in> set ?R" for r'
      proof -
        obtain r where "r \<in> set (execution_rows x db)" "ne_status r' \<in> {ne_status r, SUCCEEDED, SKIPPED, QUEUED}"
          using rows [OF b] by blast
        then show ?thesis using old a True by (auto simp: execution_ok_def)
      qed
      ultimately show ?thesis using ns True by (auto simp: execution_ok_def list_all_iff)
    qed
  qed
qed

lemma db_ok_success:
  assumes ok: "db_ok db" and n: "n \<in> set (execution_rows x db)" and run: "ne_status n = RUNNING"
    and dv: "\<And>e w. e \<in> set (executions db) \<Longrightarrow> ex_id e = x \<Longrightarrow> w \<in> set (workflow_versions db) \<Longrightarrow>
      wv_id w = ex_workflow_version_id e \<Longrightarrow> wv_definition w = d"
    and held: "\<And>e. e \<in> set (executions db) \<Longrightarrow> ex_id e = x \<Longrightarrow> ex_status e = X_RUNNING \<Longrightarrow> running"
    and rows: "list_all2 (success_row x (ne_id n) out t) (node_executions db) (node_executions db')"
    and view: "run_view x db' = succeed (edge_rel d) (ne_node_id n) S (run_view x db)"
    and e: "executions db' = finished_executions e0 running t (execution_rows x db') (executions db)" and x: "ex_id e0 = x"
    and dl: "dead_letter_jobs db' = dead_letter_jobs db" and v: "workflow_versions db' = workflow_versions db"
    and keys: "node_keys (node_executions db') = node_keys (node_executions db)"
  shows "db_ok db'"
proof -
  have t: "tables_ok db" "runs_ok db" "rows_ok db" "status_ok db" and nk: "nodes_ok db"
    using ok by (auto simp: db_ok_def tables_ok_def)
  have uniq: "r = n" if "r \<in> set (node_executions db)" "ne_id r = ne_id n" for r
    using nk n that by (auto simp: nodes_ok_def distinct_map inj_on_def in_execution_rows)
  have xn: "ne_execution_id n = x" using n by (simp add: in_execution_rows)
  have others: "execution_rows y db' = execution_rows y db" if "y \<noteq> x" for y
    unfolding execution_rows_def by (rule success_other_rows [OF rows _ that]) (use uniq xn in auto)
  have ids: "map ex_id (executions db') = map ex_id (executions db)"
    "map ex_workflow_version_id (executions db') = map ex_workflow_version_id (executions db)"
    unfolding e by (simp_all add: finished_execution_ids)
  have row: "\<exists>r \<in> set (node_executions db). success_row x (ne_id n) out t r r'" if "r' \<in> set (node_executions db')" for r'
    using list_all2_in2 [OF rows that] .
  have rok: "row_ok r' (dead_letters (ne_id r) db) \<and> ne_id r' = ne_id r \<and> ne_status r' \<in> {ne_status r, SUCCEEDED, SKIPPED, QUEUED}"
    if "r \<in> set (node_executions db)" "success_row x (ne_id n) out t r r'" for r r'
    using success_row_ok [OF that(2)] t(3) that(1) uniq run by (auto simp: rows_ok_def)
  have "tables_ok db'"
    using tables_ok_by_keys [OF t(1) keys ids(1) v] t(1) dl by (simp add: tables_ok_def)
  moreover have "runs_ok db'"
  proof (rule runs_ok_one [OF t(2) v, of x])
    show "\<exists>e \<in> set (executions db). ex_id e = ex_id e' \<and> ex_workflow_version_id e = ex_workflow_version_id e'"
      if "e' \<in> set (executions db')" for e'
      using that unfolding e finished_executions_def by (auto simp: in_set_row_modify split: if_splits)
    show "run_view y db' = run_view y db" if "y \<noteq> x" for y
      using others [OF that] by (simp add: run_view_def fun_eq_iff)
    fix e w assume ew: "e \<in> set (executions db)" "ex_id e = x" "w \<in> set (workflow_versions db)"
      "wv_id w = ex_workflow_version_id e" and r: "run_ok (wv_definition w) x db"
    have "run_view x db (ne_node_id n) = Some RUNNING" using run_view_row [OF nk n] run by simp
    then show "run_ok (wv_definition w) x db'"
      using r dv [OF ew] view by (simp add: run_ok_def graph_ok_succeed)
  qed
  moreover have "rows_ok db'"
    unfolding rows_ok_def using row rok by (metis dead_letters_def dl)
  moreover have "status_ok db'"
  proof (rule status_ok_success [OF t(4) nk n run held _ others e x])
    fix r' assume "r' \<in> set (execution_rows x db')"
    then have r': "r' \<in> set (node_executions db')" "ne_execution_id r' = x" by (auto simp: in_execution_rows)
    then obtain r where r: "r \<in> set (node_executions db)" "success_row x (ne_id n) out t r r'" using row by blast
    have "ne_execution_id r = x"
      using r r'(2) uniq xn advance_fields [of x t r r'] by (auto simp: success_row_def split: if_splits)
    then show "\<exists>r \<in> set (execution_rows x db). ne_status r' \<in> {ne_status r, SUCCEEDED, SKIPPED, QUEUED}"
      using r rok [OF r] by (auto simp: in_execution_rows)
  qed
  ultimately show ?thesis by (simp add: db_ok_def)
qed

subsection \<open>Failure\<close>

lemma db_ok_retry_row:
  assumes ok: "db_ok db" and n: "n \<in> set (node_executions db)" and run: "ne_status n = RUNNING" and left: "ne_attempt n < ne_max_attempts n"
    and rows: "node_executions db' = row_modify ne_id (ne_id n) (retry_row err t) (node_executions db)"
    and e: "executions db' = executions db" and d: "dead_letter_jobs db' = dead_letter_jobs db" and v: "workflow_versions db' = workflow_versions db"
  shows "db_ok db'"
proof -
  have mv: "node_moved n (retry_row err t) db db'" using n rows v by (simp add: node_moved_def)
  have "row_ok n (dead_letters (ne_id n) db)" using ok n by (simp add: db_ok_def rows_ok_def)
  then have "row_ok (retry_row err t n) (dead_letters (ne_id n) db')"
    using run left d by (auto simp: row_ok_def dead_letters_def)
  then show ?thesis using db_ok_move [OF ok mv] run e d by (simp add: dead_letters_def)
qed

lemma status_ok_dead:
  assumes nk: "nodes_ok db" and st: "status_ok db" and mv: "node_moved n f db db'" and run: "ne_status n = RUNNING"
    and held: "\<And>e. e \<in> set (executions db) \<Longrightarrow> ex_id e = ne_execution_id n \<Longrightarrow> ex_status e = X_RUNNING \<Longrightarrow> running"
    and e: "executions db' = (if running then row_modify ex_id (ne_execution_id n) (set_execution_status X_FAILED t) (executions db) else executions db)"
  shows "status_ok db'"
  unfolding status_ok_def
proof
  fix e' assume "e' \<in> set (executions db')"
  then obtain q where q: "q \<in> set (executions db)"
    and e': "e' = (if running \<and> ex_id q = ne_execution_id n then set_execution_status X_FAILED t q else q)"
    unfolding e by (auto simp: in_set_row_modify split: if_splits)
  have old: "execution_ok q (execution_rows (ex_id q) db)" using st q by (simp add: status_ok_def)
  show "execution_ok e' (execution_rows (ex_id e') db')"
  proof (cases "ex_id q = ne_execution_id n")
    case False
    then show ?thesis using old node_moved_effect(3) [OF nk mv False] by (simp add: e')
  next
    case True
    have "n \<in> set (execution_rows (ex_id q) db)" using mv True by (simp add: node_moved_def in_execution_rows)
    then have "ex_status q \<noteq> X_SUCCEEDED" using old run by (auto simp: execution_ok_def)
    moreover have "ex_status q = X_RUNNING \<Longrightarrow> running" using held [OF q True] .
    ultimately show ?thesis using True by (auto simp: e' execution_ok_def)
  qed
qed

lemma db_ok_dead_row:
  assumes ok: "db_ok db" and n: "n \<in> set (node_executions db)" and run: "ne_status n = RUNNING" and left: "\<not> ne_attempt n < ne_max_attempts n"
    and held: "\<And>e. e \<in> set (executions db) \<Longrightarrow> ex_id e = ne_execution_id n \<Longrightarrow> ex_status e = X_RUNNING \<Longrightarrow> running"
    and rows: "node_executions db' = row_modify ne_id (ne_id n) (dead_row err t) (node_executions db)"
    and e: "executions db' = (if running then row_modify ex_id (ne_execution_id n) (set_execution_status X_FAILED t) (executions db) else executions db)"
    and d: "dead_letter_jobs db' = dead_letter_jobs db @ [j]" and k: "letter_key j = row_key n"
    and v: "workflow_versions db' = workflow_versions db"
  shows "db_ok db'"
proof -
  have t: "tables_ok db" "runs_ok db" "rows_ok db" "status_ok db" and nk: "nodes_ok db"
    using ok by (auto simp: db_ok_def tables_ok_def)
  have mv: "node_moved n (dead_row err t) db db'" using n rows v by (simp add: node_moved_def)
  have ids: "map ex_id (executions db') = map ex_id (executions db)"
    unfolding e by (simp add: map_row_modify)
  have j: "dj_node_execution_id j = ne_id n" using k by (simp add: letter_key_def row_key_def)
  have "letter_key ` set (dead_letter_jobs db') \<subseteq> row_key ` set (node_executions db)"
    using t(1) n d k by (auto simp: tables_ok_def)
  then have "tables_ok db'"
    using tables_ok_by_keys [OF t(1) node_moved_effect(2) [OF nk mv] ids v] by blast
  moreover have "runs_ok db'"
  proof (rule runs_ok_one [OF t(2) v, of "ne_execution_id n"])
    show "\<exists>e \<in> set (executions db). ex_id e = ex_id e' \<and> ex_workflow_version_id e = ex_workflow_version_id e'"
      if "e' \<in> set (executions db')" for e'
      using that unfolding e by (auto simp: in_set_row_modify split: if_splits)
    show "run_view y db' = run_view y db" if "y \<noteq> ne_execution_id n" for y
      by (rule node_moved_other_view [OF nk mv that])
  qed (use run_ok_move [OF nk mv] run in simp)
  moreover have "row_ok n (dead_letters (ne_id n) db)" using t(3) n by (simp add: rows_ok_def)
  then have "row_ok (dead_row err t n) (dead_letters (ne_id n) db')"
    using run left d j by (auto simp: row_ok_def dead_letters_def unresolved_def)
  then have "rows_ok db'"
    using rows_ok_move [OF nk t(3) mv] d j by (simp add: dead_letters_def)
  moreover have "status_ok db'" by (rule status_ok_dead [OF nk t(4) mv run held e])
  ultimately show ?thesis by (simp add: db_ok_def)
qed

subsection \<open>Every outcome\<close>

lemma complete_unit_Inr_cases:
  assumes "complete_unit jc i res s = Inr (r, s')"
  obtains "r = None" and "s' = s"
  | n where "n \<in> set (execution_rows (ex_id (jc_execution jc)) (sdb s))" and "ne_id n = i" and "ne_status n = RUNNING"
proof -
  let ?R = "execution_rows (ex_id (jc_execution jc)) (sdb s)"
  from assms obtain n where f: "find (\<lambda>n. ne_id n = i) ?R = Some n"
    by (auto simp: complete_unit_def Let_def split: option.splits)
  then have "n \<in> set ?R" "ne_id n = i" using row_get_Some [of ne_id i ?R n] by (auto simp: row_get_def)
  then show thesis using that assms f by (cases "ne_status n = RUNNING") (auto simp: complete_unit_def Let_def)
qed

lemma db_ok_complete_failure:
  assumes ok: "db_ok (sdb s)" and a: "act_ok (sdb s) a" and p: "pinned s = [jc_execution (a_context a)]"
    and n: "n \<in> set (execution_rows (ex_id (jc_execution (a_context a))) (sdb s))" "ne_status n = RUNNING"
    and c: "complete_unit (a_context a) (ne_id n) res s = Inr (r, s')" and no: "\<not> r_success res"
  shows "db_ok (sdb s')"
proof -
  let ?jc = "a_context a" let ?x = "ex_id (jc_execution ?jc)" and ?run = "ex_status (jc_execution ?jc) = X_RUNNING"
  have j: "job_ok ?jc n s" by (rule act_job_ok [OF ok a p n])
  have row: "n \<in> set (node_executions (sdb s))" and xn: "ne_execution_id n = ?x" using n(1) by (auto simp: in_execution_rows)
  have held: "?run" if "e \<in> set (executions (sdb s))" "ex_id e = ?x" "ex_status e = X_RUNNING" for e
    using a that unfolding act_ok_def by blast
  show ?thesis
  proof (cases "ne_attempt n < ne_max_attempts n")
    case True
    then show ?thesis using complete_retry [OF j no True] c n(2) row ok by (auto intro: db_ok_retry_row)
  next
    case left: False
    let ?job = "new_dead_letter (uuids s (used s + 2)) (jc_execution ?jc) (end_attempt (set_error (r_error res)) FAILED (now s) n) (now s)"
    obtain s1 where "complete_unit ?jc (ne_id n) res s = Inr (Some [], s1)"
      and rows: "node_executions (sdb s1) = row_modify ne_id (ne_id n) (dead_row (r_error res) (now s)) (node_executions (sdb s))"
      and d: "dead_letter_jobs (sdb s1) = dead_letter_jobs (sdb s) @ [?job]"
      and e: "executions (sdb s1) = (if ?run then row_modify ex_id ?x (set_execution_status X_FAILED (now s)) (executions (sdb s)) else executions (sdb s))"
      and v: "workflow_versions (sdb s1) = workflow_versions (sdb s)"
      using complete_dead [OF j no left refl] unfolding act_held [OF p] by blast
    then have s1: "s1 = s'" using c by simp
    have jn: "letter_key ?job = row_key n" using xn by (simp add: new_dead_letter_def letter_key_def row_key_def)
    show ?thesis
      using db_ok_dead_row [OF ok row n(2) left _ rows _ d jn v, where running = ?run] held e xn s1 by simp
  qed
qed

lemma db_ok_complete_success:
  assumes ok: "db_ok (sdb s)" and a: "act_ok (sdb s) a" and p: "pinned s = [jc_execution (a_context a)]"
    and n: "n \<in> set (execution_rows (ex_id (jc_execution (a_context a))) (sdb s))" "ne_status n = RUNNING"
    and c: "complete_unit (a_context a) (ne_id n) res s = Inr (r, s')" and yes: "r_success res"
  shows "db_ok (sdb s')"
proof -
  let ?jc = "a_context a" let ?x = "ex_id (jc_execution ?jc)" and ?run = "ex_status (jc_execution ?jc) = X_RUNNING"
  let ?d = "jc_definition ?jc"
  have j: "job_ok ?jc n s" by (rule act_job_ok [OF ok a p n])
  have held: "?run" if "e \<in> set (executions (sdb s))" "ex_id e = ?x" "ex_status e = X_RUNNING" for e
    using a that unfolding act_ok_def by blast
  obtain skip_ids where sk: "child_ids ?d (ne_node_id n) = [] \<or> condition_skip_ids (jc_node_def ?jc) res = Inr skip_ids"
    using complete_bad_branch [OF j yes] c by (cases "condition_skip_ids (jc_node_def ?jc) res") auto
  from complete_success [OF j yes sk refl refl, unfolded act_held [OF p]] obtain queued s1 where
    c1: "complete_unit ?jc (ne_id n) res s = Inr (Some queued, s1)"
    and f: "list_all2 (success_row ?x (ne_id n) (r_output res) (now s)) (node_executions (sdb s)) (node_executions (sdb s1))"
      "run_view ?x (sdb s1) = succeed (edge_rel ?d) (ne_node_id n) (branch_skips ?d (ne_node_id n) skip_ids) (run_view ?x (sdb s))"
      "executions (sdb s1) = finished_executions (jc_execution ?jc) ?run (now s) (execution_rows ?x (sdb s1)) (executions (sdb s))"
      "dead_letter_jobs (sdb s1) = dead_letter_jobs (sdb s)" "workflow_versions (sdb s1) = workflow_versions (sdb s)"
      "node_keys (node_executions (sdb s1)) = node_keys (node_executions (sdb s))"
    by blast
  have "db_ok (sdb s1)" by (rule db_ok_success [OF ok n act_version [OF ok a] held f(1,2,3) refl f(4,5,6)])
  then show ?thesis using c1 c by simp
qed

lemma db_ok_complete:
  assumes ok: "db_ok (sdb s)" and a: "act_ok (sdb s) a" and p: "pinned s = [jc_execution (a_context a)]"
    and c: "complete_unit (a_context a) i res s = Inr (r, s')"
  shows "db_ok (sdb s')"
  using c
proof (cases rule: complete_unit_Inr_cases)
  case 1
  then show ?thesis using ok by simp
next
  case (2 n)
  then show ?thesis
    using db_ok_complete_failure [OF ok a p 2(1,3)] db_ok_complete_success [OF ok a p 2(1,3)] c by blast
qed

end
