(* ===== verification/Sha256.thy ===== *)
theory Sha256
  imports Py_Text
begin

section \<open>SHA-256\<close>

text \<open>
  What the sources use of \<open>hashlib\<close>: \<open>hashlib.sha256(s.encode("utf-8")).hexdigest()\<close>. The function of
  FIPS 180-4 on words of 32 bits, applied to the UTF-8 bytes of a string whose characters have code
  points below 256.
\<close>

unbundle bit_operations_syntax

type_synonym byte = "8 word"
type_synonym w32 = "32 word"

definition utf8_char :: "char \<Rightarrow> byte list" where
  "utf8_char c =
     (let n = of_char c :: nat in
      if n < 128 then [word_of_nat n] else [word_of_nat (192 + n div 64), word_of_nat (128 + n mod 64)])"

definition utf8 :: "string \<Rightarrow> byte list" where
  "utf8 s = concat (map utf8_char s)"

definition be_bytes :: "nat \<Rightarrow> nat \<Rightarrow> byte list" where
  "be_bytes k n = map (\<lambda>i. word_of_nat (n div 256 ^ i)) (rev [0 ..< k])"

definition pad :: "byte list \<Rightarrow> byte list" where
  "pad bs = bs @ [0x80] @ replicate ((119 - length bs mod 64) mod 64) 0 @ be_bytes 8 (8 * length bs)"

definition be_word :: "byte list \<Rightarrow> w32" where
  "be_word bs = word_of_nat (foldl (\<lambda>a b. 256 * a + unat b) 0 bs)"

fun chunks :: "nat \<Rightarrow> nat \<Rightarrow> 'a list \<Rightarrow> 'a list list" where
  "chunks k 0 xs = []"
| "chunks k (Suc m) xs = take k xs # chunks k m (drop k xs)"

definition rotr :: "nat \<Rightarrow> w32 \<Rightarrow> w32" where
  "rotr n w = drop_bit n w OR push_bit (32 - n) w"

definition K256 :: "w32 list" where
  "K256 = [0x428a2f98, 0x71374491, 0xb5c0fbcf, 0xe9b5dba5, 0x3956c25b, 0x59f111f1,
     0x923f82a4, 0xab1c5ed5, 0xd807aa98, 0x12835b01, 0x243185be, 0x550c7dc3,
     0x72be5d74, 0x80deb1fe, 0x9bdc06a7, 0xc19bf174, 0xe49b69c1, 0xefbe4786,
     0x0fc19dc6, 0x240ca1cc, 0x2de92c6f, 0x4a7484aa, 0x5cb0a9dc, 0x76f988da,
     0x983e5152, 0xa831c66d, 0xb00327c8, 0xbf597fc7, 0xc6e00bf3, 0xd5a79147,
     0x06ca6351, 0x14292967, 0x27b70a85, 0x2e1b2138, 0x4d2c6dfc, 0x53380d13,
     0x650a7354, 0x766a0abb, 0x81c2c92e, 0x92722c85, 0xa2bfe8a1, 0xa81a664b,
     0xc24b8b70, 0xc76c51a3, 0xd192e819, 0xd6990624, 0xf40e3585, 0x106aa070,
     0x19a4c116, 0x1e376c08, 0x2748774c, 0x34b0bcb5, 0x391c0cb3, 0x4ed8aa4a,
     0x5b9cca4f, 0x682e6ff3, 0x748f82ee, 0x78a5636f, 0x84c87814, 0x8cc70208,
     0x90befffa, 0xa4506ceb, 0xbef9a3f7, 0xc67178f2]"

definition H256 :: "w32 list" where
  "H256 = [0x6a09e667, 0xbb67ae85, 0x3c6ef372, 0xa54ff53a,
     0x510e527f, 0x9b05688c, 0x1f83d9ab, 0x5be0cd19]"

fun schedule :: "nat \<Rightarrow> w32 list \<Rightarrow> w32 list" where
  "schedule 0 ws = ws"
| "schedule (Suc n) ws =
     (let k = length ws;
          a = ws ! (k - 15); b = ws ! (k - 2);
          s0 = rotr 7 a XOR rotr 18 a XOR drop_bit 3 a;
          s1 = rotr 17 b XOR rotr 19 b XOR drop_bit 10 b
      in schedule n (ws @ [ws ! (k - 16) + s0 + ws ! (k - 7) + s1]))"

fun round256 :: "w32 list \<Rightarrow> w32 \<times> w32 \<Rightarrow> w32 list" where
  "round256 [a, b, c, d, e, f, g, h] (k, w) =
     (let S1 = rotr 6 e XOR rotr 11 e XOR rotr 25 e;
          ch = (e AND f) XOR (NOT e AND g);
          t1 = h + S1 + ch + k + w;
          S0 = rotr 2 a XOR rotr 13 a XOR rotr 22 a;
          maj = (a AND b) XOR (a AND c) XOR (b AND c)
      in [t1 + (S0 + maj), a, b, c, d + t1, e, f, g])"
| "round256 hs kw = hs"

definition compress :: "w32 list \<Rightarrow> byte list \<Rightarrow> w32 list" where
  "compress hs block =
     map2 (+) hs (foldl round256 hs (zip K256 (schedule 48 (map be_word (chunks 4 16 block)))))"

definition sha256 :: "byte list \<Rightarrow> w32 list" where
  "sha256 bs = (let p = pad bs in foldl compress H256 (chunks 64 (length p div 64) p))"

definition hex_word :: "w32 \<Rightarrow> string" where
  "hex_word w = hex_fixed 8 (unat w)"

definition sha256_hexdigest :: "string \<Rightarrow> string" where
  "sha256_hexdigest s = concat (map hex_word (sha256 (utf8 s)))"

subsection \<open>Shape of the digest\<close>

lemma length_round256 [simp]: "length (round256 hs kw) = length hs"
  by (induction hs kw rule: round256.induct) (simp_all add: Let_def)

lemma length_rounds: "length (foldl round256 hs kws) = length hs"
  by (induction kws arbitrary: hs) simp_all

lemma length_compress [simp]: "length (compress hs b) = length hs"
  by (simp add: compress_def length_rounds)

lemma length_blocks: "length (foldl compress hs bs) = length hs"
  by (induction bs arbitrary: hs) simp_all

lemma length_pad: "64 dvd length (pad bs)"
proof -
  define q r where "q = length bs div 64" and "r = length bs mod 64"
  have l: "length bs = 64 * q + r" and r: "r < 64" by (simp_all add: q_def r_def)
  have "length (pad bs) = 64 * q + r + 9 + (119 - r) mod 64"
    by (simp add: pad_def be_bytes_def l mod_less [OF r])
  moreover have "(119 - r) mod 64 = (if r \<le> 55 then 55 - r else 119 - r)"
  proof (cases "r \<le> 55")
    case True
    then have "119 - r = 55 - r + 64" by simp
    then show ?thesis using True by (simp only: mod_add_self2) simp
  qed (use r in simp)
  ultimately have "length (pad bs) = 64 * (if r \<le> 55 then q + 1 else q + 2)" using r by (cases "r \<le> 55") simp_all
  then show ?thesis by simp
qed

lemma length_sha256_hexdigest: "length (sha256_hexdigest s) = 64"
proof -
  have "length (concat (map hex_word ws)) = 8 * length ws" for ws
    by (induction ws) (simp_all add: hex_word_def)
  moreover have "length (sha256 bs) = 8" for bs
    by (simp add: sha256_def Let_def length_blocks) (simp add: H256_def)
  ultimately show ?thesis by (simp add: sha256_hexdigest_def)
qed

end
