(* ===== verification/Json_Text.thy ===== *)
theory Json_Text
  imports Sha256 Json "HOL-Library.Multiset"
begin

section \<open>JSON text\<close>

text \<open>
  What the sources use of \<open>json.dumps\<close>: with the default separators, and in the canonical form
  (\<open>sort_keys=True, separators=(",", ":")\<close>) that the checksum of a definition hashes. \<open>float_repr\<close>
  stands for \<open>float.__repr__\<close> on finite floats. Strings are written with \<open>ensure_ascii\<close>.
\<close>

definition json_char :: "char \<Rightarrow> string" where
  "json_char c =
     (let n = of_char c :: nat in
      if c = CHR 0x22 then [CHR 0x5C, CHR 0x22]
      else if c = CHR 0x5C then [CHR 0x5C, CHR 0x5C]
      else if n = 10 then [CHR 0x5C, CHR ''n'']
      else if n = 13 then [CHR 0x5C, CHR ''r'']
      else if n = 9 then [CHR 0x5C, CHR ''t'']
      else if n = 12 then [CHR 0x5C, CHR ''f'']
      else if n = 8 then [CHR 0x5C, CHR ''b'']
      else if 32 \<le> n \<and> n \<le> 126 then [c]
      else [CHR 0x5C, CHR ''u''] @ hex_fixed 4 n)"

definition json_string :: "string \<Rightarrow> string" where
  "json_string s = [CHR 0x22] @ concat (map json_char s) @ [CHR 0x22]"

fun json_float :: "(rat \<Rightarrow> string) \<Rightarrow> pyfloat \<Rightarrow> string" where
  "json_float float_repr (Finite r) = float_repr r"
| "json_float float_repr PosInf = ''Infinity''"
| "json_float float_repr NegInf = ''-Infinity''"
| "json_float float_repr NaN = ''NaN''"

fun joined :: "string \<Rightarrow> string list \<Rightarrow> string" where
  "joined sep [] = []"
| "joined sep [x] = x"
| "joined sep (x # y # xs) = x @ sep @ joined sep (y # xs)"

text \<open>\<open>sorted(dct.items())\<close> on distinct keys.\<close>

fun insert_item :: "string \<times> 'a \<Rightarrow> (string \<times> 'a) list \<Rightarrow> (string \<times> 'a) list" where
  "insert_item kv [] = [kv]"
| "insert_item kv (x # xs) = (if str_less (fst x) (fst kv) then x # insert_item kv xs else kv # x # xs)"

definition sort_items :: "(string \<times> 'a) list \<Rightarrow> (string \<times> 'a) list" where
  "sort_items d = foldr insert_item d []"

fun json_dumps :: "(rat \<Rightarrow> string) \<Rightarrow> bool \<Rightarrow> string \<Rightarrow> string \<Rightarrow> json \<Rightarrow> string" where
  "json_dumps fr sort_keys item_sep key_sep JNull = ''null''"
| "json_dumps fr sort_keys item_sep key_sep (JBool b) = (if b then ''true'' else ''false'')"
| "json_dumps fr sort_keys item_sep key_sep (JInt i) = int_str i"
| "json_dumps fr sort_keys item_sep key_sep (JFloat f) = json_float fr f"
| "json_dumps fr sort_keys item_sep key_sep (JStr s) = json_string s"
| "json_dumps fr sort_keys item_sep key_sep (JArr xs) =
     ''['' @ joined item_sep (map (json_dumps fr sort_keys item_sep key_sep) xs) @ '']''"
| "json_dumps fr sort_keys item_sep key_sep (JObj d) =
     (let items = map (\<lambda>kv. (fst kv, json_dumps fr sort_keys item_sep key_sep (snd kv))) d;
          items = (if sort_keys then sort_items items else items)
      in ''{'' @ joined item_sep (map (\<lambda>(k, v). json_string k @ key_sep @ v) items) @ ''}'')"

definition canonical_json :: "(rat \<Rightarrow> string) \<Rightarrow> json \<Rightarrow> string" where
  "canonical_json fr j = json_dumps fr True '','' '':'' j"

subsection \<open>The canonical form does not depend on the order of keys\<close>

lemma insert_item_commute:
  assumes "fst a \<noteq> fst b"
  shows "insert_item a (insert_item b xs) = insert_item b (insert_item a xs)"
proof -
  have ab: "str_less (fst a) (fst b) \<longleftrightarrow> \<not> str_less (fst b) (fst a)"
    using assms str_less_total str_less_trans str_less_irrefl by metis
  show ?thesis
  proof (induction xs)
    case Nil
    then show ?case using ab by auto
  next
    case (Cons x xs)
    have "str_less (fst x) (fst b)" if "str_less (fst x) (fst a)" "str_less (fst a) (fst b)"
      using that str_less_trans by blast
    moreover have "str_less (fst x) (fst a)" if "str_less (fst x) (fst b)" "str_less (fst b) (fst a)"
      using that str_less_trans by blast
    ultimately show ?case using ab Cons by auto
  qed
qed

lemma foldr_insert_item_extract:
  assumes "fst a \<notin> fst ` set xs"
  shows "foldr insert_item (xs @ a # ys) [] = foldr insert_item (a # xs @ ys) []"
  using assms by (induction xs) (simp_all add: insert_item_commute)

lemma sort_items_mset:
  assumes "mset d = mset e" and "distinct (map fst d)"
  shows "sort_items d = sort_items e"
  using assms
proof (induction d arbitrary: e)
  case (Cons a d)
  then have "a \<in> set e" by (metis list.set_intros(1) mset_eq_setD)
  then obtain xs ys where e: "e = xs @ a # ys" by (meson split_list)
  have "mset (map fst (a # d)) = mset (map fst e)" using Cons.prems(1) by (metis mset_map)
  then have "distinct (map fst e)" using Cons.prems(2) by (metis mset_eq_imp_distinct_iff)
  then have a: "fst a \<notin> fst ` set xs" by (auto simp: e)
  have "mset d = mset (xs @ ys)" using Cons.prems(1) e by simp
  then have "sort_items d = sort_items (xs @ ys)" using Cons by simp
  then show ?case using foldr_insert_item_extract [OF a, of ys] e by (simp add: sort_items_def)
qed simp

lemma canonical_json_object:
  assumes "mset d = mset e" and "distinct (map fst d)"
  shows "canonical_json fr (JObj d) = canonical_json fr (JObj e)"
proof -
  let ?f = "\<lambda>kv. (fst kv, json_dumps fr True '','' '':'' (snd kv))"
  have "mset (map ?f d) = mset (map ?f e)" using assms(1) by simp
  then have "sort_items (map ?f d) = sort_items (map ?f e)"
    by (rule sort_items_mset) (use assms(2) in \<open>simp add: comp_def\<close>)
  then show ?thesis by (simp add: canonical_json_def)
qed

end
