(* ===== verification/Workflow_Service.thy ===== *)
theory Workflow_Service
  imports Session Dag_Validator Json_Text
begin

section \<open>Workflows and their versions\<close>

text \<open>
  \<open>app/services/workflow_service.py\<close> and the routes of \<open>app/api/workflows.py\<close>. A service method
  that writes is a unit of work on the session, committed at its end; a query is a function of the
  database. The checksum is the SHA-256 of the canonical JSON text of the dumped definition, with
  \<open>float_repr\<close> for the text of a float. \<open>versions_ok\<close> is the invariant of the two
  tables: a workflow has the versions 1, 2, 3, ... in the order of their creation, and at least one.
\<close>

subsection \<open>The dumped definition\<close>

text \<open>\<open>model_dump(exclude_none=True)\<close>: fields in declaration order, fields that are \<open>None\<close> left out.\<close>

definition optional_field :: "string \<Rightarrow> ('a \<Rightarrow> json) \<Rightarrow> 'a option \<Rightarrow> jdict" where
  "optional_field k f v = (case v of None \<Rightarrow> [] | Some x \<Rightarrow> [(k, f x)])"

definition retry_policy_dump :: "RetryPolicy \<Rightarrow> json" where
  "retry_policy_dump p =
     JObj [(''max_attempts'', JInt (max_attempts p)), (''initial_interval'', JInt (initial_interval p)),
           (''max_interval'', JInt (max_interval p)), (''backoff_multiplier'', JFloat (Finite (backoff_multiplier p)))]"

definition node_dump :: "Node \<Rightarrow> json" where
  "node_dump n =
     JObj ([(''id'', JStr (n_id n)), (''type'', JStr (n_type n)), (''name'', JStr (n_name n)),
            (''config'', JObj (n_config n))] @ optional_field ''retry_policy'' retry_policy_dump (n_retry_policy n))"

definition edge_dump :: "Edge \<Rightarrow> json" where
  "edge_dump e =
     JObj ([(''from_node'', JStr (from_node e)), (''to_node'', JStr (to_node e))] @
       optional_field ''condition'' JStr (e_condition e))"

definition definition_dump :: "WorkflowDefinition \<Rightarrow> json" where
  "definition_dump d =
     JObj ([(''name'', JStr (d_name d)), (''description'', JStr (d_description d)),
            (''nodes'', JArr (map node_dump (nodes d))), (''edges'', JArr (map edge_dump (edges d)))] @
       optional_field ''default_retry_policy'' retry_policy_dump (default_retry_policy d))"

definition generate_checksum :: "(rat \<Rightarrow> string) \<Rightarrow> WorkflowDefinition \<Rightarrow> string" where
  "generate_checksum float_repr d = sha256_hexdigest (canonical_json float_repr (definition_dump d))"

subsection \<open>The service\<close>

definition new_workflow :: "uuid \<Rightarrow> uuid \<Rightarrow> string \<Rightarrow> string \<Rightarrow> time \<Rightarrow> Workflow" where
  "new_workflow i owner name description t =
     \<lparr>wf_id = i, wf_owner_api_key_id = owner, wf_name = name, wf_description = Some description,
      wf_created_at = t, wf_updated_at = t\<rparr>"

definition new_version :: "(rat \<Rightarrow> string) \<Rightarrow> uuid \<Rightarrow> uuid \<Rightarrow> int \<Rightarrow> WorkflowDefinition \<Rightarrow> time \<Rightarrow> WorkflowVersion" where
  "new_version float_repr i workflow_id version_number d t =
     \<lparr>wv_id = i, wv_workflow_id = workflow_id, wv_version_number = version_number, wv_definition = d,
      wv_checksum = generate_checksum float_repr d, wv_created_at = t\<rparr>"

lemma new_version_fields [simp]:
  "wv_id (new_version float_repr i w k d t) = i" "wv_workflow_id (new_version float_repr i w k d t) = w"
  "wv_version_number (new_version float_repr i w k d t) = k" "wv_definition (new_version float_repr i w k d t) = d"
  by (simp_all add: new_version_def)

text \<open>
  The flush of the new workflow checks the foreign key to its owner.
\<close>

definition create_workflow ::
  "(rat \<Rightarrow> string) \<Rightarrow> ExecutorRegistry \<Rightarrow> string \<Rightarrow> string \<Rightarrow> WorkflowDefinition \<Rightarrow> uuid \<Rightarrow> session \<Rightarrow>
   ((Workflow \<times> WorkflowVersion) \<times> session) result" where
  "create_workflow float_repr registry name description d owner s =
     rbind (validate_workflow d registry) (\<lambda>validation_result.
     if \<not> valid validation_result then Inl (app_error ''Invalid workflow definition'' ''invalid_workflow'')
     else
       (let (i, s1) = new_uuid s;
            workflow = new_workflow i owner name description (now s1)
        in if owner \<notin> ak_id ` set (api_keys (sdb s1)) then Inl (IntegrityError ''workflows_owner_api_key_id_fkey'')
           else
             (let s2 = modify_db (workflows_update (\<lambda>rs. rs @ [workflow])) s1;
                  (j, s3) = new_uuid s2;
                  version = new_version float_repr j i 1 d (now s3)
              in Inr ((workflow, version), modify_db (workflow_versions_update (\<lambda>rs. rs @ [version])) s3))))"

definition version_numbers :: "uuid \<Rightarrow> database \<Rightarrow> int list" where
  "version_numbers workflow_id db =
     map wv_version_number (filter (\<lambda>v. wv_workflow_id v = workflow_id) (workflow_versions db))"

text \<open>\<open>func.max(version_number)\<close>: \<open>NULL\<close> when there is no row.\<close>

definition max_version :: "uuid \<Rightarrow> database \<Rightarrow> int option" where
  "max_version workflow_id db =
     (case version_numbers workflow_id db of [] \<Rightarrow> None | ks \<Rightarrow> Some (foldr max ks (hd ks)))"

definition owned_workflows :: "uuid \<Rightarrow> database \<Rightarrow> Workflow list" where
  "owned_workflows owner db = filter (\<lambda>w. wf_owner_api_key_id w = owner) (workflows db)"

definition find_workflow :: "uuid \<Rightarrow> uuid \<Rightarrow> database \<Rightarrow> Workflow option result" where
  "find_workflow workflow_id owner db =
     scalar_one_or_none (filter (\<lambda>w. wf_id w = workflow_id) (owned_workflows owner db))"

definition list_workflows :: "uuid \<Rightarrow> nat \<Rightarrow> nat \<Rightarrow> database \<Rightarrow> (Workflow \<times> int option) list" where
  "list_workflows owner limit offset db =
     map (\<lambda>w. (w, max_version (wf_id w) db))
       (page limit offset (order_desc_nullslast (\<lambda>w. Some (wf_created_at w)) (owned_workflows owner db)))"

definition get_workflow :: "uuid \<Rightarrow> uuid \<Rightarrow> database \<Rightarrow> (Workflow \<times> WorkflowVersion list) option result" where
  "get_workflow workflow_id owner db =
     rbind (find_workflow workflow_id owner db) (\<lambda>found.
     case found of
       None \<Rightarrow> Inr None
     | Some w \<Rightarrow> Inr (Some (w, filter (\<lambda>v. wv_workflow_id v = wf_id w) (workflow_versions db))))"

definition touch_workflow :: "time \<Rightarrow> Workflow \<Rightarrow> Workflow" where
  "touch_workflow t w = w\<lparr>wf_updated_at := t\<rparr>"

definition create_workflow_version ::
  "(rat \<Rightarrow> string) \<Rightarrow> ExecutorRegistry \<Rightarrow> uuid \<Rightarrow> WorkflowDefinition \<Rightarrow> uuid \<Rightarrow> session \<Rightarrow>
   (WorkflowVersion \<times> session) result" where
  "create_workflow_version float_repr registry workflow_id d owner s =
     rbind (find_workflow workflow_id owner (sdb s)) (\<lambda>workflow.
     case workflow of
       None \<Rightarrow> Inl (AppError ''Workflow not found'' ''not_found'' 404)
     | Some _ \<Rightarrow>
         rbind (validate_workflow d registry) (\<lambda>validation_result.
         if \<not> valid validation_result then Inl (app_error ''Invalid workflow definition'' ''invalid_workflow'')
         else
           (let new_version_number = (case max_version workflow_id (sdb s) of None \<Rightarrow> 0 | Some k \<Rightarrow> k) + 1;
                (j, s1) = new_uuid s;
                version = new_version float_repr j workflow_id new_version_number d (now s1)
            in Inr (version,
                 modify_db (workflow_versions_update (\<lambda>rs. rs @ [version]))
                   (modify_db (workflows_update (row_modify wf_id workflow_id (touch_workflow (now s1)))) s1)))))"

text \<open>
  \<open>session.delete(workflow)\<close> cascades to the versions. The executions of a deleted version are
  disassociated by setting \<open>workflow_version_id\<close> to NULL, which the column does not allow; an
  execution that still refers to the workflow violates its foreign key.
\<close>

definition delete_workflow :: "uuid \<Rightarrow> uuid \<Rightarrow> session \<Rightarrow> (bool \<times> session) result" where
  "delete_workflow workflow_id owner s =
     rbind (find_workflow workflow_id owner (sdb s)) (\<lambda>workflow.
     case workflow of
       None \<Rightarrow> Inr (False, s)
     | Some _ \<Rightarrow>
         (let gone = map wv_id (filter (\<lambda>v. wv_workflow_id v = workflow_id) (workflow_versions (sdb s)))
          in if list_ex (\<lambda>e. ex_workflow_version_id e \<in> set gone) (executions (sdb s))
             then Inl (IntegrityError ''executions.workflow_version_id'')
             else if list_ex (\<lambda>e. ex_workflow_id e = workflow_id) (executions (sdb s))
             then Inl (IntegrityError ''executions_workflow_id_fkey'')
             else Inr (True,
               modify_db (\<lambda>db. db\<lparr>workflow_versions := filter (\<lambda>v. wv_workflow_id v \<noteq> workflow_id) (workflow_versions db),
                                 workflows := filter (\<lambda>w. wf_id w \<noteq> workflow_id) (workflows db)\<rparr>) s)))"

subsection \<open>The routes\<close>

record WorkflowDetailResponse =
  wr_workflow :: Workflow
  wr_versions :: "WorkflowVersion list"

text \<open>\<open>versions.sort(key=..., reverse=True)\<close> keeps the order of equal elements.\<close>

definition get_workflow_route :: "uuid \<Rightarrow> uuid \<Rightarrow> database \<Rightarrow> WorkflowDetailResponse result" where
  "get_workflow_route workflow_id owner db =
     rbind (get_workflow workflow_id owner db) (\<lambda>found.
     case found of
       None \<Rightarrow> Inl (AppError ''Workflow not found'' ''not_found'' 404)
     | Some (w, vs) \<Rightarrow>
         Inr \<lparr>wr_workflow = w, wr_versions = sort_key (\<lambda>v. - wv_version_number v) vs\<rparr>)"

definition delete_workflow_route :: "uuid \<Rightarrow> uuid \<Rightarrow> ('q, 'c) world \<Rightarrow> unit result \<times> ('q, 'c) world" where
  "delete_workflow_route workflow_id owner w =
     (case in_session (delete_workflow workflow_id owner) w of
        (Inl e, w') \<Rightarrow> (Inl e, w')
      | (Inr deleted, w') \<Rightarrow>
          if deleted then (Inr (), w')
          else (Inl (AppError ''Workflow not found'' ''not_found'' 404), w'))"

subsection \<open>The invariant of the two tables\<close>

definition numbered :: "int list \<Rightarrow> bool" where
  "numbered ks \<longleftrightarrow> ks \<noteq> [] \<and> ks = map int [1 ..< Suc (length ks)]"

definition versions_ok :: "database \<Rightarrow> bool" where
  "versions_ok db \<longleftrightarrow> distinct (map wf_id (workflows db)) \<and>
     wv_workflow_id ` set (workflow_versions db) \<subseteq> wf_id ` set (workflows db) \<and>
     (\<forall>i \<in> wf_id ` set (workflows db). numbered (version_numbers i db))"

lemma numbered_one: "numbered [1]"
  by (simp add: numbered_def)

lemma numbered_snoc: "numbered ks \<Longrightarrow> numbered (ks @ [int (length ks) + 1])"
  by (auto simp: numbered_def)

lemma foldr_max_base: "(a::int) \<ge> b \<Longrightarrow> foldr max xs a = max a (foldr max xs b)"
  by (induction xs) auto

lemma foldr_max_upto: "foldr max (map int [1 ..< Suc (Suc k)]) 1 = int (Suc k)"
proof (induction k)
  case (Suc k)
  have "foldr max (map int [1 ..< Suc (Suc (Suc k))]) 1 = foldr max (map int [1 ..< Suc (Suc k)]) (int (Suc (Suc k)))"
    by (subst upt_Suc) (simp del: upt_Suc)
  also have "\<dots> = max (int (Suc (Suc k))) (int (Suc k))"
    using foldr_max_base [of 1 "int (Suc (Suc k))"] Suc by (simp del: upt_Suc)
  finally show ?case by simp
qed simp

lemma max_version_ok:
  assumes "versions_ok db" and "w \<in> set (workflows db)"
  shows "max_version (wf_id w) db = Some (int (length (version_numbers (wf_id w) db)))"
proof -
  let ?ks = "version_numbers (wf_id w) db"
  obtain k where l: "length ?ks = Suc k" and k: "?ks = map int [1 ..< Suc (Suc k)]"
    using assms by (metis Suc_pred imageI length_greater_0_conv numbered_def versions_ok_def)
  have hd: "hd ?ks = 1" unfolding k by (simp add: upt_conv_Cons del: upt_Suc)
  have "max_version (wf_id w) db = Some (foldr max ?ks (hd ?ks))"
    using l by (cases ?ks) (simp_all add: max_version_def)
  then show ?thesis unfolding hd l using foldr_max_upto [of k] k by simp
qed

lemma find_workflow_Some:
  "find_workflow i owner db = Inr (Some w) \<Longrightarrow> w \<in> set (workflows db) \<and> wf_id w = i \<and> wf_owner_api_key_id w = owner"
  by (auto simp: find_workflow_def owned_workflows_def scalar_one_or_none_Inr dest!: filter_singletonD)

lemma create_workflow_Inr:
  assumes "create_workflow float_repr reg name desc d owner s = Inr ((w, v), s')"
  obtains "validate_workflow d reg \<noteq> Inl e" and "owner \<in> ak_id ` set (api_keys (sdb s))"
    and "w = new_workflow (uuids s (used s)) owner name desc (now s)"
    and "v = new_version float_repr (uuids s (Suc (used s))) (wf_id w) 1 d (now s)"
    and "sdb s' = (sdb s)\<lparr>workflows := workflows (sdb s) @ [w], workflow_versions := workflow_versions (sdb s) @ [v]\<rparr>"
  using assms
  by (auto simp: create_workflow_def rbind_eq_Inr new_uuid_def Let_def modify_db_def new_workflow_def split: if_splits)

lemma create_workflow_version_Inr:
  assumes "create_workflow_version float_repr reg i d owner s = Inr (v, s')"
  obtains w where "w \<in> set (workflows (sdb s))" and "wf_id w = i" and "wf_owner_api_key_id w = owner"
    and "validate_workflow d reg \<noteq> Inl e"
    and "v = new_version float_repr (uuids s (used s)) i ((case max_version i (sdb s) of None \<Rightarrow> 0 | Some k \<Rightarrow> k) + 1) d (now s)"
    and "sdb s' = (sdb s)\<lparr>workflows := row_modify wf_id i (touch_workflow (now s)) (workflows (sdb s)),
           workflow_versions := workflow_versions (sdb s) @ [v]\<rparr>"
proof -
  from assms obtain w q where f: "find_workflow i owner (sdb s) = Inr (Some w)" and q: "validate_workflow d reg = Inr q" "valid q"
    by (auto simp: create_workflow_version_def rbind_eq_Inr split: option.splits if_splits)
  show thesis
    by (rule that [of w])
      (use assms f q find_workflow_Some [OF f] in \<open>auto simp: create_workflow_version_def new_uuid_def Let_def modify_db_def\<close>)
qed

lemma delete_workflow_Inr:
  assumes "delete_workflow i owner s = Inr (b, s')"
  obtains "\<not> b" and "s' = s"
  | w where "b" and "w \<in> set (workflows (sdb s))" and "wf_id w = i" and "wf_owner_api_key_id w = owner"
    and "\<And>e. e \<in> set (executions (sdb s)) \<Longrightarrow> ex_workflow_id e \<noteq> i"
    and "\<And>e v. e \<in> set (executions (sdb s)) \<Longrightarrow> v \<in> set (workflow_versions (sdb s)) \<Longrightarrow> wv_workflow_id v = i \<Longrightarrow>
           ex_workflow_version_id e \<noteq> wv_id v"
    and "sdb s' = (sdb s)\<lparr>workflow_versions := filter (\<lambda>v. wv_workflow_id v \<noteq> i) (workflow_versions (sdb s)),
           workflows := filter (\<lambda>w. wf_id w \<noteq> i) (workflows (sdb s))\<rparr>"
proof -
  from assms obtain f where f: "find_workflow i owner (sdb s) = Inr f"
    by (auto simp: delete_workflow_def rbind_eq_Inr)
  show thesis
  proof (cases f)
    case None
    then show ?thesis using assms f that(1) by (simp add: delete_workflow_def)
  next
    case (Some w)
    note w = find_workflow_Some [OF f [unfolded Some]]
    have "\<not> list_ex (\<lambda>e. ex_workflow_version_id e \<in> set (map wv_id (filter (\<lambda>v. wv_workflow_id v = i) (workflow_versions (sdb s))))) (executions (sdb s))"
      "\<not> list_ex (\<lambda>e. ex_workflow_id e = i) (executions (sdb s))" "b"
      "s' = modify_db (\<lambda>db. db\<lparr>workflow_versions := filter (\<lambda>v. wv_workflow_id v \<noteq> i) (workflow_versions db),
                                 workflows := filter (\<lambda>w. wf_id w \<noteq> i) (workflows db)\<rparr>) s"
      using assms f Some by (auto simp: delete_workflow_def Let_def split: if_splits)
    then show ?thesis using w by (intro that(2) [of w]) (auto simp: list_ex_iff)
  qed
qed

lemma versions_ok_create:
  assumes ok: "versions_ok (sdb s)" and "create_workflow float_repr reg name desc d owner s = Inr ((w, v), s')"
    and fresh: "uuids s (used s) \<notin> wf_id ` set (workflows (sdb s))"
  shows "versions_ok (sdb s')"
proof -
  from assms(2) have w: "wf_id w = uuids s (used s)" and v: "wv_workflow_id v = wf_id w" "wv_version_number v = 1"
    and db: "sdb s' = (sdb s)\<lparr>workflows := workflows (sdb s) @ [w], workflow_versions := workflow_versions (sdb s) @ [v]\<rparr>"
    by (auto elim!: create_workflow_Inr simp: new_workflow_def new_version_def)
  have sub: "wv_workflow_id ` set (workflow_versions (sdb s)) \<subseteq> wf_id ` set (workflows (sdb s))"
    using ok by (simp add: versions_ok_def)
  have "wv_workflow_id x \<noteq> wf_id w" if "x \<in> set (workflow_versions (sdb s))" for x
    using subsetD [OF sub imageI [OF that]] fresh w by metis
  then have "version_numbers (wf_id w) (sdb s') = [1]"
    using v by (simp add: version_numbers_def db filter_empty_conv)
  moreover have "version_numbers i (sdb s') = version_numbers i (sdb s)" if "i \<noteq> wf_id w" for i
    using that v by (simp add: version_numbers_def db)
  ultimately have "numbered (version_numbers i (sdb s'))" if "i \<in> wf_id ` set (workflows (sdb s'))" for i
    using ok that numbered_one by (cases "i = wf_id w") (auto simp: versions_ok_def db)
  then show ?thesis using ok fresh w v sub by (auto simp: versions_ok_def db)
qed

lemma versions_ok_add:
  assumes ok: "versions_ok (sdb s)" and "create_workflow_version float_repr reg i d owner s = Inr (v, s')"
  shows "versions_ok (sdb s')"
proof -
  from assms(2) obtain w where w: "w \<in> set (workflows (sdb s))" "wf_id w = i"
    and v: "wv_workflow_id v = i" "wv_version_number v = (case max_version i (sdb s) of None \<Rightarrow> 0 | Some k \<Rightarrow> k) + 1"
    and db: "sdb s' = (sdb s)\<lparr>workflows := row_modify wf_id i (touch_workflow (now s)) (workflows (sdb s)),
           workflow_versions := workflow_versions (sdb s) @ [v]\<rparr>"
    by (auto elim!: create_workflow_version_Inr simp: new_version_def)
  let ?ks = "version_numbers i (sdb s)"
  have "max_version i (sdb s) = Some (int (length ?ks))" using max_version_ok [OF ok w(1)] w(2) by simp
  then have own: "version_numbers i (sdb s') = ?ks @ [int (length ?ks) + 1]" using v by (simp add: version_numbers_def db)
  have other: "j \<noteq> i \<Longrightarrow> version_numbers j (sdb s') = version_numbers j (sdb s)" for j
    using v by (simp add: version_numbers_def db)
  have "map wf_id (workflows (sdb s')) = map wf_id (workflows (sdb s))"
    by (simp add: db map_row_modify touch_workflow_def)
  then have ids: "map wf_id (workflows (sdb s')) = map wf_id (workflows (sdb s))"
    "wf_id ` set (workflows (sdb s')) = wf_id ` set (workflows (sdb s))" by (simp, metis list.set_map)
  have k: "numbered ?ks" using ok w by (auto simp: versions_ok_def)
  have "numbered (version_numbers j (sdb s'))" if j: "j \<in> wf_id ` set (workflows (sdb s))" for j
  proof (cases "j = i")
    case True
    then show ?thesis using own numbered_snoc [OF k] by simp
  next
    case False
    then show ?thesis using ok j other [OF False] unfolding versions_ok_def by metis
  qed
  then show ?thesis using ok w v ids unfolding versions_ok_def by (auto simp: db)
qed

lemma versions_ok_delete:
  assumes ok: "versions_ok (sdb s)" and "delete_workflow i owner s = Inr (b, s')"
  shows "versions_ok (sdb s')"
  using assms(2)
proof (cases rule: delete_workflow_Inr)
  case (2 w)
  have same: "version_numbers j (sdb s') = version_numbers j (sdb s)" if "j \<noteq> i" for j
    unfolding version_numbers_def 2(7) using that by (auto intro!: arg_cong [where f = "map wv_version_number"] filter_cong)
  have n: "numbered (version_numbers j (sdb s'))" if "j \<in> wf_id ` set (workflows (sdb s'))" for j
  proof -
    have "j \<noteq> i" "j \<in> wf_id ` set (workflows (sdb s))" using that unfolding 2(7) by auto
    then show ?thesis using ok same unfolding versions_ok_def by metis
  qed
  have sub: "wv_workflow_id ` set (workflow_versions (sdb s)) \<subseteq> wf_id ` set (workflows (sdb s))"
    using ok by (simp add: versions_ok_def)
  have "wv_workflow_id ` set (workflow_versions (sdb s')) \<subseteq> wf_id ` set (workflows (sdb s'))"
    using sub unfolding 2(7) by (fastforce simp: image_iff subset_iff)
  moreover have "distinct (map wf_id (workflows (sdb s')))" using ok unfolding 2(7) by (simp add: versions_ok_def distinct_map_filter)
  ultimately show ?thesis using n unfolding versions_ok_def by blast
qed (use ok in simp)

end
