(* ===== verification/Reachability.thy ===== *)
theory Reachability
  imports System_Start System_Complete Workflow_Service
begin

section \<open>The running system and what holds in every reachable state\<close>

text \<open>
  A state of the system is the durable database and the set of workers in flight. The moves of
  \<open>sys_step\<close> are the committed transactions of the code, in any order: the workflow service, the
  engine's start, retry and delete, the worker's claim, load and completion (with whatever result
  its executor gives), the loss of a worker, the recovery of a stale job, the storing of a message
  id, and the resolution of a dead letter job. A session in a move is any session on the current
  database, so the clock and the stream of uuids are arbitrary but for freshness.
\<close>

type_synonym sys = "database \<times> activity set"

definition held_ids :: "activity set \<Rightarrow> uuid set" where
  "held_ids A = (\<lambda>a. ex_id (jc_execution (a_context a))) ` A"

inductive sys_step :: "(rat \<Rightarrow> string) \<Rightarrow> ExecutorRegistry \<Rightarrow> sys \<Rightarrow> sys \<Rightarrow> bool"
  for float_repr :: "rat \<Rightarrow> string" and registry :: ExecutorRegistry where
  create: "create_workflow float_repr registry name description d owner s = Inr (r, s') \<Longrightarrow> valid_WorkflowDefinition d \<Longrightarrow>
     uuids s (Suc (used s)) \<notin> wv_id ` set (workflow_versions (sdb s)) \<Longrightarrow>
     sys_step float_repr registry (sdb s, A) (sdb s', A)"
| add_version: "create_workflow_version float_repr registry i d owner s = Inr (r, s') \<Longrightarrow> valid_WorkflowDefinition d \<Longrightarrow>
     uuids s (used s) \<notin> wv_id ` set (workflow_versions (sdb s)) \<Longrightarrow>
     sys_step float_repr registry (sdb s, A) (sdb s', A)"
| drop_workflow: "delete_workflow i owner s = Inr (b, s') \<Longrightarrow> sys_step float_repr registry (sdb s, A) (sdb s', A)"
| start: "start_unit registry command owner s = Inr (r, s') \<Longrightarrow> pinned s = [] \<Longrightarrow> uuids s (used s) \<notin> held_ids A \<Longrightarrow>
     (\<And>v. v \<in> set (workflow_versions (sdb s)) \<Longrightarrow> wv_id v = cmd_workflow_version_id command \<Longrightarrow>
        fresh_ids (Suc (length (nodes (wv_definition v)))) s) \<Longrightarrow>
     sys_step float_repr registry (sdb s, A) (sdb s', A)"
| claim: "claim_unit job s = Inr (r, s') \<Longrightarrow> sys_step float_repr registry (sdb s, A) (sdb s', A)"
| load: "load_context registry node s = Inr jc \<Longrightarrow>
     sys_step float_repr registry (sdb s, A) (sdb s, insert \<lparr>a_node = ne_id node, a_context = jc\<rparr> A)"
| complete: "a \<in> A \<Longrightarrow> pinned s = [jc_execution (a_context a)] \<Longrightarrow>
     complete_unit (a_context a) (a_node a) res s = Inr (r, s') \<Longrightarrow>
     sys_step float_repr registry (sdb s, A) (sdb s', A - {a})"
| lost: "sys_step float_repr registry (db, A) (db, A - {a})"
| recover: "recover_unit job m p c s = (r, s') \<Longrightarrow> sys_step float_repr registry (sdb s, A) (sdb s', A)"
| stored: "sys_step float_repr registry (sdb s, A) (sdb (store_message_id i m s), A)"
| retry: "retry_unit x n owner s = Inr (r, s') \<Longrightarrow> sys_step float_repr registry (sdb s, A) (sdb s', A)"
| resolve: "resolve_dlq_job i owner note s = Inr (r, s') \<Longrightarrow> sys_step float_repr registry (sdb s, A) (sdb s', A)"
| delete: "delete_unit x owner s = Inr (r, s') \<Longrightarrow> sys_step float_repr registry (sdb s, A) (sdb s', A)"

inductive reachable :: "(rat \<Rightarrow> string) \<Rightarrow> ExecutorRegistry \<Rightarrow> sys \<Rightarrow> bool"
  for float_repr :: "rat \<Rightarrow> string" and registry :: ExecutorRegistry where
  initial: "executions db = [] \<Longrightarrow> node_executions db = [] \<Longrightarrow> dead_letter_jobs db = [] \<Longrightarrow> workflow_versions db = [] \<Longrightarrow>
     reachable float_repr registry (db, {})"
| step: "reachable float_repr registry st \<Longrightarrow> sys_step float_repr registry st st' \<Longrightarrow> reachable float_repr registry st'"

definition sys_ok :: "sys \<Rightarrow> bool" where
  "sys_ok st \<longleftrightarrow> db_ok (fst st) \<and> (\<forall>a \<in> snd st. act_ok (fst st) a)"

subsection \<open>The workflow service\<close>

lemma db_ok_versions:
  assumes ok: "db_ok db" and e: "executions db' = executions db" and n: "node_executions db' = node_executions db"
    and d: "dead_letter_jobs db' = dead_letter_jobs db" and ids: "distinct (map wv_id (workflow_versions db'))"
    and val: "\<And>v. v \<in> set (workflow_versions db') \<Longrightarrow> valid_WorkflowDefinition (wv_definition v)"
    and keep: "\<And>e v. e \<in> set (executions db) \<Longrightarrow> v \<in> set (workflow_versions db) \<Longrightarrow> wv_id v = ex_workflow_version_id e \<Longrightarrow>
      v \<in> set (workflow_versions db')"
  shows "db_ok db'" and "act_ok db a \<Longrightarrow> act_ok db' a"
proof -
  note same = same_nodes [OF n]
  have "runs_ok db'"
    unfolding runs_ok_def e
  proof
    fix e assume m: "e \<in> set (executions db)"
    then obtain v where v: "v \<in> set (workflow_versions db)" "wv_id v = ex_workflow_version_id e" "run_ok (wv_definition v) (ex_id e) db"
      using ok by (auto simp: db_ok_def runs_ok_def)
    then show "\<exists>v \<in> set (workflow_versions db'). wv_id v = ex_workflow_version_id e \<and> run_ok (wv_definition v) (ex_id e) db'"
      using keep [OF m v(1,2)] same by (auto simp: run_ok_def)
  qed
  then show "db_ok db'"
    using ok ids val same by (simp add: db_ok_def tables_ok_def rows_ok_def status_ok_def dead_letters_def e n d)
  show "act_ok db' a" if a: "act_ok db a"
    unfolding act_ok_def e
  proof (intro ballI impI conjI)
    fix q assume q: "q \<in> set (executions db)" "ex_id q = ex_id (jc_execution (a_context a))"
    then show "ex_workflow_version_id q = ex_workflow_version_id (jc_execution (a_context a))"
      "ex_status q = X_RUNNING \<Longrightarrow> ex_status (jc_execution (a_context a)) = X_RUNNING" using a by (auto simp: act_ok_def)
    obtain v where "v \<in> set (workflow_versions db)" "wv_id v = ex_workflow_version_id q" "wv_definition v = jc_definition (a_context a)"
      using a q unfolding act_ok_def by blast
    then show "\<exists>v \<in> set (workflow_versions db'). wv_id v = ex_workflow_version_id q \<and> wv_definition v = jc_definition (a_context a)"
      using keep [OF q(1)] by blast
  qed
qed

lemma sys_ok_versions:
  assumes "sys_ok (db, A)" and "executions db' = executions db" and "node_executions db' = node_executions db"
    and "dead_letter_jobs db' = dead_letter_jobs db" and "distinct (map wv_id (workflow_versions db'))"
    and "\<And>v. v \<in> set (workflow_versions db') \<Longrightarrow> valid_WorkflowDefinition (wv_definition v)"
    and "\<And>e v. e \<in> set (executions db) \<Longrightarrow> v \<in> set (workflow_versions db) \<Longrightarrow> wv_id v = ex_workflow_version_id e \<Longrightarrow>
      v \<in> set (workflow_versions db')"
  shows "sys_ok (db', A)"
  using assms(1) db_ok_versions [OF _ assms(2-7)] by (simp add: sys_ok_def)

lemma sys_ok_new_version:
  assumes ok: "sys_ok (db, A)" and "executions db' = executions db" and "node_executions db' = node_executions db"
    and "dead_letter_jobs db' = dead_letter_jobs db" and v: "workflow_versions db' = workflow_versions db @ [v]"
    and "wv_id v \<notin> wv_id ` set (workflow_versions db)" and "valid_WorkflowDefinition (wv_definition v)"
  shows "sys_ok (db', A)"
proof -
  have "distinct (map wv_id (workflow_versions db))" "\<forall>u \<in> set (workflow_versions db). valid_WorkflowDefinition (wv_definition u)"
    using ok by (simp_all add: sys_ok_def db_ok_def tables_ok_def)
  then show ?thesis by (intro sys_ok_versions [OF ok assms(2-4)]) (use v assms(6,7) in auto)
qed

lemma sys_ok_drop_workflow:
  assumes ok: "sys_ok (sdb s, A)" and "delete_workflow i owner s = Inr (b, s')"
  shows "sys_ok (sdb s', A)"
  using assms(2)
proof (cases rule: delete_workflow_Inr)
  case (2 w)
  have t: "distinct (map wv_id (workflow_versions (sdb s)))"
    "\<forall>u \<in> set (workflow_versions (sdb s)). valid_WorkflowDefinition (wv_definition u)"
    using ok by (simp_all add: sys_ok_def db_ok_def tables_ok_def)
  show ?thesis
  proof (rule sys_ok_versions [OF ok])
    show "v \<in> set (workflow_versions (sdb s'))" if "e \<in> set (executions (sdb s))" "v \<in> set (workflow_versions (sdb s))"
      "wv_id v = ex_workflow_version_id e" for e v
      using that 2(6) [OF that(1,2)] unfolding 2(7) by auto
  qed (use t in \<open>auto simp: 2(7) distinct_map_filter\<close>)
qed (use ok in simp)

subsection \<open>The workers in flight\<close>

text \<open>
  A worker's copy of its execution stays sound when executions only leave RUNNING and keep their
  version, and versions in use are kept.
\<close>

definition executions_follow :: "database \<Rightarrow> database \<Rightarrow> bool" where
  "executions_follow db db' \<longleftrightarrow> workflow_versions db' = workflow_versions db \<and>
     (\<forall>e' \<in> set (executions db'). \<exists>e \<in> set (executions db). ex_id e' = ex_id e \<and>
        ex_workflow_version_id e' = ex_workflow_version_id e \<and> (ex_status e' = X_RUNNING \<longrightarrow> ex_status e = X_RUNNING))"

lemma act_ok_follow:
  assumes "act_ok db a" and "executions_follow db db'"
  shows "act_ok db' a"
  unfolding act_ok_def
proof (intro ballI impI)
  fix e' assume "e' \<in> set (executions db')" and x: "ex_id e' = ex_id (jc_execution (a_context a))"
  then obtain e where "e \<in> set (executions db)" "ex_id e' = ex_id e" "ex_workflow_version_id e' = ex_workflow_version_id e"
    "ex_status e' = X_RUNNING \<longrightarrow> ex_status e = X_RUNNING" using assms(2) by (auto simp: executions_follow_def)
  note e = this
  with x have "ex_id e = ex_id (jc_execution (a_context a))" by simp
  with assms(1) e(1) have "ex_workflow_version_id e = ex_workflow_version_id (jc_execution (a_context a)) \<and>
    (ex_status e = X_RUNNING \<longrightarrow> ex_status (jc_execution (a_context a)) = X_RUNNING) \<and>
    (\<exists>v \<in> set (workflow_versions db). wv_id v = ex_workflow_version_id e \<and> wv_definition v = jc_definition (a_context a))"
    unfolding act_ok_def by blast
  then show "ex_workflow_version_id e' = ex_workflow_version_id (jc_execution (a_context a)) \<and>
    (ex_status e' = X_RUNNING \<longrightarrow> ex_status (jc_execution (a_context a)) = X_RUNNING) \<and>
    (\<exists>v \<in> set (workflow_versions db'). wv_id v = ex_workflow_version_id e' \<and> wv_definition v = jc_definition (a_context a))"
    using assms(2) e(3,4) unfolding executions_follow_def by metis
qed

lemma executions_follow_same:
  "executions db' = executions db \<Longrightarrow> workflow_versions db' = workflow_versions db \<Longrightarrow> executions_follow db db'"
  by (auto simp: executions_follow_def)

lemma executions_follow_modify:
  assumes "executions db' = executions db \<or> (\<exists>k st t. st \<noteq> X_RUNNING \<and>
      executions db' = row_modify ex_id k (set_execution_status st t) (executions db))"
    and "workflow_versions db' = workflow_versions db"
  shows "executions_follow db db'"
  unfolding executions_follow_def
proof (intro conjI ballI)
  fix e' assume "e' \<in> set (executions db')"
  then obtain e where "e \<in> set (executions db)" "e' = e \<or> (\<exists>st t. st \<noteq> X_RUNNING \<and> e' = set_execution_status st t e)"
    using assms(1) unfolding in_set_row_modify by (metis in_set_row_modify)
  then show "\<exists>e \<in> set (executions db). ex_id e' = ex_id e \<and> ex_workflow_version_id e' = ex_workflow_version_id e \<and>
      (ex_status e' = X_RUNNING \<longrightarrow> ex_status e = X_RUNNING)" by (auto intro!: bexI [of _ e])
qed (rule assms(2))

lemma sys_ok_follow:
  "sys_ok (db, A) \<Longrightarrow> executions_follow db db' \<Longrightarrow> db_ok db' \<Longrightarrow> sys_ok (db', A)"
  using act_ok_follow by (auto simp: sys_ok_def)

lemma act_ok_load:
  assumes "db_ok (sdb s)" and "load_context registry node s = Inr jc"
  shows "act_ok (sdb s) \<lparr>a_node = i, a_context = jc\<rparr>"
proof -
  from assms(2) obtain e v where e: "row_get ex_id (ne_execution_id node) (executions (sdb s)) = Some e"
    and v: "row_get wv_id (ex_workflow_version_id e) (workflow_versions (sdb s)) = Some v"
    and jc: "jc_execution jc = e" "jc_definition jc = wv_definition v"
    by (auto simp: load_context_def Let_def rbind_eq_Inr split: option.splits)
  have "q = e" if "q \<in> set (executions (sdb s))" "ex_id q = ex_id e" for q
    using assms(1) that row_get_Some [OF e] by (auto simp: db_ok_def tables_ok_def distinct_map inj_on_def)
  then show ?thesis using row_get_Some [OF v] jc by (auto simp: act_ok_def)
qed

lemma complete_follow:
  assumes ok: "db_ok (sdb s)" and a: "act_ok (sdb s) a" and p: "pinned s = [jc_execution (a_context a)]"
    and c: "complete_unit (a_context a) i res s = Inr (r, s')"
  shows "executions_follow (sdb s) (sdb s')"
  using c
proof (cases rule: complete_unit_Inr_cases)
  case 1
  then show ?thesis by (simp add: executions_follow_same)
next
  case (2 n)
  have j: "job_ok (a_context a) n s" by (rule act_job_ok [OF ok a p 2(1,3)])
  show ?thesis
  proof (cases "r_success res")
    case no: False
    show ?thesis
    proof (cases "ne_attempt n < ne_max_attempts n")
      case True
      show ?thesis using complete_retry [OF j no True] c 2(2) by (auto intro: executions_follow_same)
    next
      case False
      obtain s1 b where "complete_unit (a_context a) (ne_id n) res s = Inr (Some [], s1)"
        and "executions (sdb s1) = (if b then row_modify ex_id (ex_id (jc_execution (a_context a))) (set_execution_status X_FAILED (now s)) (executions (sdb s)) else executions (sdb s))"
        and "workflow_versions (sdb s1) = workflow_versions (sdb s)"
        using complete_dead [OF j no False refl] unfolding held_execution_id by blast
      then show ?thesis using c 2(2) by (intro executions_follow_modify) (auto split: if_splits)
    qed
  next
    case True
    obtain skip_ids where sk: "child_ids (jc_definition (a_context a)) (ne_node_id n) = [] \<or>
        condition_skip_ids (jc_node_def (a_context a)) res = Inr skip_ids"
      using complete_bad_branch [OF j True] c 2(2) by (cases "condition_skip_ids (jc_node_def (a_context a)) res") auto
    from complete_success [OF j True sk refl refl] obtain ns s1 b where
      "complete_unit (a_context a) (ne_id n) res s = Inr (Some ns, s1)"
      and "executions (sdb s1) = finished_executions (jc_execution (a_context a)) b (now s)
             (execution_rows (ex_id (jc_execution (a_context a))) (sdb s1)) (executions (sdb s))"
      and "workflow_versions (sdb s1) = workflow_versions (sdb s)"
      by blast
    moreover have "final_status rows \<noteq> X_RUNNING" for rows by (simp add: final_status_def)
    ultimately show ?thesis using c 2(2)
      by (intro executions_follow_modify) (auto simp: finished_executions_def split: if_splits)
  qed
qed

subsection \<open>Every move keeps the invariant\<close>

lemma sys_ok_start:
  assumes ok: "sys_ok (sdb s, A)" and su: "start_unit registry command owner s = Inr (r, s')" and p: "pinned s = []"
    and held: "uuids s (used s) \<notin> held_ids A"
    and fresh: "\<And>v. v \<in> set (workflow_versions (sdb s)) \<Longrightarrow> wv_id v = cmd_workflow_version_id command \<Longrightarrow>
        fresh_ids (Suc (length (nodes (wv_definition v)))) s"
  shows "sys_ok (sdb s', A)"
proof -
  have db: "db_ok (sdb s)" using ok by (simp add: sys_ok_def)
  then have d: "distinct (map ne_id (node_executions (sdb s)))" by (simp add: db_ok_def tables_ok_def nodes_ok_def)
  from start_unit_effect [OF su d fresh p] obtain v w q e s1 where st: "started_as registry command owner s v w q e s1" .
  have s1: "s1 = s'" and ex: "executions (sdb s1) = executions (sdb s) @ [e]" and vs: "workflow_versions (sdb s1) = workflow_versions (sdb s)"
    using st su by (simp_all add: started_as_def)
  have "act_ok (sdb s') a" if a: "a \<in> A" for a
  proof -
    have "act_ok (sdb s) a" using ok a by (simp add: sys_ok_def)
    moreover have "ex_id e \<noteq> ex_id (jc_execution (a_context a))"
      using held a started_execution(1) [OF st] by (auto simp: held_ids_def)
    ultimately show ?thesis using s1 unfolding act_ok_def ex [unfolded s1] vs [unfolded s1] set_append by (metis UnE empty_iff insert_iff list.set)
  qed
  then show ?thesis using db_ok_start [OF db su p fresh] by (simp add: sys_ok_def)
qed

lemma db_ok_map:
  assumes g: "\<And>n. ne_id (g n) = ne_id n" "\<And>n. ne_execution_id (g n) = ne_execution_id n" "\<And>n. ne_node_id (g n) = ne_node_id n"
      "\<And>n. ne_status (g n) = ne_status n" "\<And>n. ne_attempt (g n) = ne_attempt n" "\<And>n. ne_max_attempts (g n) = ne_max_attempts n"
    and ok: "db_ok db" and rows: "node_executions db' = map g (node_executions db)" and e: "executions db' = executions db"
    and d: "dead_letter_jobs db' = dead_letter_jobs db" and v: "workflow_versions db' = workflow_versions db"
  shows "db_ok db'"
proof -
  have xr: "execution_rows x db' = map g (execution_rows x db)" for x
    by (simp add: execution_rows_def rows filter_map comp_def g)
  have keys: "row_key ` set (node_executions db') = row_key ` set (node_executions db)"
    "ne_execution_id ` set (node_executions db') = ne_execution_id ` set (node_executions db)"
    by (simp_all add: rows image_image g row_key_def)
  have nk: "nodes_ok db'" using ok by (simp add: db_ok_def tables_ok_def nodes_ok_def rows xr comp_def g)
  have "map_option ne_status (row_get ne_node_id c (map g rs)) = map_option ne_status (row_get ne_node_id c rs)" for c rs
    by (induction rs) (simp_all add: g)
  then have view: "run_view x db' = run_view x db" for x by (simp add: run_view_def xr fun_eq_iff)
  have dl: "dead_letters x db' = dead_letters x db" for x by (simp add: dead_letters_def d)
  have "row_ok (g n) js \<longleftrightarrow> row_ok n js" for n js by (simp add: row_ok_def g)
  then have "rows_ok db'" using ok by (simp add: db_ok_def rows_ok_def rows g dl)
  moreover have "execution_ok q (map g rs) = execution_ok q rs" for q rs by (simp add: execution_ok_def is_terminal_def g)
  then have "status_ok db'" using ok by (simp add: db_ok_def status_ok_def xr e)
  moreover have "tables_ok db'" using ok nk unfolding db_ok_def tables_ok_def keys e d v by simp
  moreover have "runs_ok db'" using ok by (simp add: db_ok_def runs_ok_def run_ok_def view e v)
  ultimately show ?thesis by (simp add: db_ok_def)
qed

lemma store_message_id_ok:
  assumes "db_ok (sdb s)"
  shows "db_ok (sdb (store_message_id i m s))" and "executions_follow (sdb s) (sdb (store_message_id i m s))"
proof -
  show "db_ok (sdb (store_message_id i m s))"
    using assms
    by (auto simp: store_message_id_def row_modify_def split: option.splits
        intro: db_ok_map [where g = "\<lambda>n. if ne_id n = i then n\<lparr>ne_redis_message_id := m\<rparr> else n"])
  show "executions_follow (sdb s) (sdb (store_message_id i m s))"
    by (rule executions_follow_same) (auto simp: store_message_id_def split: option.splits)
qed

lemma retry_follow:
  assumes "retry_unit x n owner s = Inr ((e, n'), s')"
  shows "executions_follow (sdb s) (sdb s')"
  using assms
proof (rule retry_unit_Inr)
  fix k s1
  assume t: "transition_node_status (ne_id k) DEAD_LETTERED QUEUED s = Inr (n', s1)"
    and c: "(filter (\<lambda>j. dj_node_execution_id j = ne_id k \<and> dj_resolved_at j = None) (dead_letter_jobs (sdb s1)) = [] \<and> s' = s1) \<or>
      (\<exists>j. filter (\<lambda>j. dj_node_execution_id j = ne_id k \<and> dj_resolved_at j = None) (dead_letter_jobs (sdb s1)) = [j] \<and>
         s' = modify_db (dead_letter_jobs_update (row_modify dj_id (dj_id j) (resolve_job (now s1) (Some ''Manually retried via API'')))) s1)"
  show ?thesis using c transition_node_status_frame(1) [OF t] by (intro executions_follow_same) auto
qed

lemma sys_ok_create:
  assumes ok: "sys_ok (sdb s, A)" and c: "create_workflow float_repr registry name description d owner s = Inr (r, s')"
    and "valid_WorkflowDefinition d" and "uuids s (Suc (used s)) \<notin> wv_id ` set (workflow_versions (sdb s))"
  shows "sys_ok (sdb s', A)"
proof -
  obtain w v where r: "r = (w, v)" by (cases r)
  from c [unfolded r] show ?thesis
  proof (rule create_workflow_Inr)
    assume v: "v = new_version float_repr (uuids s (Suc (used s))) (wf_id w) 1 d (now s)"
      and db: "sdb s' = (sdb s)\<lparr>workflows := workflows (sdb s) @ [w], workflow_versions := workflow_versions (sdb s) @ [v]\<rparr>"
    have "wv_id v = uuids s (Suc (used s))" "wv_definition v = d" by (simp_all add: v)
    then show ?thesis by (intro sys_ok_new_version [OF ok, of "sdb s'" v]) (use assms(3,4) in \<open>simp_all add: db\<close>)
  qed
qed

lemma sys_ok_add_version:
  assumes ok: "sys_ok (sdb s, A)" and c: "create_workflow_version float_repr registry i d owner s = Inr (r, s')"
    and "valid_WorkflowDefinition d" and "uuids s (used s) \<notin> wv_id ` set (workflow_versions (sdb s))"
  shows "sys_ok (sdb s', A)"
  using c
proof (rule create_workflow_version_Inr)
  fix w
  assume v: "r = new_version float_repr (uuids s (used s)) i ((case max_version i (sdb s) of None \<Rightarrow> 0 | Some k \<Rightarrow> k) + 1) d (now s)"
    and db: "sdb s' = (sdb s)\<lparr>workflows := row_modify wf_id i (touch_workflow (now s)) (workflows (sdb s)),
         workflow_versions := workflow_versions (sdb s) @ [r]\<rparr>"
  have "wv_id r = uuids s (used s)" "wv_definition r = d" by (simp_all add: v)
  then show ?thesis by (intro sys_ok_new_version [OF ok, of "sdb s'" r]) (use assms(3,4) in \<open>simp_all add: db\<close>)
qed

lemma claim_follow:
  assumes "claim_unit job s = Inr (r, s')"
  shows "executions_follow (sdb s) (sdb s')"
proof (cases r)
  case None
  then show ?thesis using assms by (auto simp: claim_unit_def rbind_eq_Inr split: option.splits if_splits intro: executions_follow_same)
next
  case (Some n)
  then show ?thesis using assms claim_moved [of job s n s'] by (auto simp: node_moved_def intro: executions_follow_same)
qed

lemma recover_follow:
  assumes "db_ok (sdb s)" and "recover_unit job m p c s = (r, s')"
  shows "executions_follow (sdb s) (sdb s')"
proof -
  have "distinct (map ne_id (node_executions (sdb s)))" using assms(1) by (simp add: db_ok_def tables_ok_def nodes_ok_def)
  then show ?thesis using recover_moved [OF assms(2)] by (auto intro: executions_follow_same)
qed

lemma resolve_follow: "resolve_dlq_job i owner reason s = Inr (r, s') \<Longrightarrow> executions_follow (sdb s) (sdb s')"
  by (rule executions_follow_same) (auto simp: resolve_dlq_job_def rbind_eq_Inr split: option.splits)

lemma delete_follow: "delete_unit x owner s = Inr (r, s') \<Longrightarrow> executions_follow (sdb s) (sdb s')"
  using delete_unit_Inr(1) [of x owner s r s'] by (auto simp: executions_follow_def)

lemma sys_ok_step:
  assumes "sys_step float_repr registry st st'" and "sys_ok st"
  shows "sys_ok st'"
  using assms
proof (induction rule: sys_step.induct)
  case (create name description d owner s r s' A)
  then show ?case using sys_ok_create by blast
next
  case (add_version i d owner s r s' A)
  then show ?case using sys_ok_add_version by blast
next
  case (drop_workflow i owner s b s' A)
  then show ?case using sys_ok_drop_workflow by blast
next
  case (start command owner s r s' A)
  then show ?case using sys_ok_start by blast
next
  case (claim job s r s' A)
  have "db_ok (sdb s')" using claim.prems db_ok_claim [OF _ claim.hyps] by (simp add: sys_ok_def)
  then show ?case using sys_ok_follow [OF claim.prems claim_follow [OF claim.hyps]] by blast
next
  case (load node s jc A)
  then show ?case using act_ok_load by (simp add: sys_ok_def)
next
  case (complete a A s res r s')
  then have "db_ok (sdb s)" "act_ok (sdb s) a" by (simp_all add: sys_ok_def)
  note c = this complete.hyps(2,3)
  have "sys_ok (sdb s', A)" using sys_ok_follow [OF complete.prems complete_follow [OF c] db_ok_complete [OF c]] .
  then show ?case by (simp add: sys_ok_def)
next
  case (lost db A a)
  then show ?case by (simp add: sys_ok_def)
next
  case (recover job m p c s r s' A)
  then have "db_ok (sdb s)" by (simp add: sys_ok_def)
  then show ?case using sys_ok_follow [OF recover.prems] recover_follow db_ok_recover recover.hyps by blast
next
  case (stored s A i m)
  then have "db_ok (sdb s)" by (simp add: sys_ok_def)
  then show ?case by (intro sys_ok_follow [OF stored] store_message_id_ok)
next
  case (retry x n owner s r s' A)
  obtain e n' where r: "r = (e, n')" by (cases r)
  have "db_ok (sdb s')" using retry.prems db_ok_retry [OF _ retry.hyps [unfolded r]] by (simp add: sys_ok_def)
  then show ?case using sys_ok_follow [OF retry.prems retry_follow [OF retry.hyps [unfolded r]]] by blast
next
  case (resolve i owner reason s r s' A)
  have "db_ok (sdb s')" using resolve.prems db_ok_resolve [OF _ resolve.hyps] by (simp add: sys_ok_def)
  then show ?case using sys_ok_follow [OF resolve.prems resolve_follow [OF resolve.hyps]] by blast
next
  case (delete x owner s r s' A)
  have "db_ok (sdb s')" using delete.prems db_ok_delete_rows delete_unit_Inr(1) [OF delete.hyps] by (simp add: sys_ok_def)
  then show ?case using sys_ok_follow [OF delete.prems delete_follow [OF delete.hyps]] by blast
qed

lemma sys_ok_reachable: "reachable float_repr registry st \<Longrightarrow> sys_ok st"
proof (induction rule: reachable.induct)
  case (initial db)
  then show ?case
    by (simp add: sys_ok_def db_ok_def tables_ok_def nodes_ok_def runs_ok_def rows_ok_def status_ok_def execution_rows_def)
next
  case (step st st')
  then show ?case by (metis sys_ok_step)
qed

subsection \<open>What the invariant says\<close>

lemma run_of_execution:
  assumes "db_ok db" and "e \<in> set (executions db)" and "v \<in> set (workflow_versions db)" and "wv_id v = ex_workflow_version_id e"
  shows "run_ok (wv_definition v) (ex_id e) db"
proof -
  obtain u where u: "u \<in> set (workflow_versions db)" "wv_id u = ex_workflow_version_id e" "run_ok (wv_definition u) (ex_id e) db"
    using assms(1,2) by (auto simp: db_ok_def runs_ok_def)
  have "inj_on wv_id (set (workflow_versions db))" using assms(1) by (simp add: db_ok_def tables_ok_def distinct_map)
  then have "u = v" by (rule inj_onD) (use u(1,2) assms(3,4) in simp_all)
  with u(3) show ?thesis by simp
qed

lemma dependency_safe:
  assumes ok: "db_ok db" and e: "e \<in> set (executions db)" and v: "v \<in> set (workflow_versions db)" "wv_id v = ex_workflow_version_id e"
    and n: "n \<in> set (execution_rows (ex_id e) db)" and st: "ne_status n \<notin> {PENDING, SKIPPED}"
    and edge: "(p, ne_node_id n) \<in> edge_rel (wv_definition v)"
  shows "\<exists>m \<in> set (execution_rows (ex_id e) db). ne_node_id m = p \<and> ne_status m = SUCCEEDED"
proof -
  have nk: "nodes_ok db" using ok by (simp add: db_ok_def tables_ok_def)
  have "dependency_ok (edge_rel (wv_definition v)) (run_view (ex_id e) db)"
    using run_of_execution [OF ok e v] by (simp add: run_ok_def graph_ok_def)
  moreover have "run_view (ex_id e) db (ne_node_id n) = Some (ne_status n)" by (rule run_view_row [OF nk n])
  ultimately have "run_view (ex_id e) db p = Some SUCCEEDED" using edge st unfolding dependency_ok_def by auto
  then obtain m where "row_get ne_node_id p (execution_rows (ex_id e) db) = Some m" "ne_status m = SUCCEEDED"
    by (auto simp: run_view_def)
  then show ?thesis using row_get_Some by fastforce
qed

lemma running_progress:
  assumes ok: "db_ok db" and e: "e \<in> set (executions db)" and run: "ex_status e = X_RUNNING" and rows: "execution_rows (ex_id e) db \<noteq> []"
  shows "\<exists>n \<in> set (execution_rows (ex_id e) db). ne_status n \<in> {QUEUED, RUNNING}"
proof -
  have nk: "nodes_ok db" and eo: "execution_ok e (execution_rows (ex_id e) db)"
    using ok e by (simp_all add: db_ok_def tables_ok_def status_ok_def)
  obtain v :: WorkflowVersion where r: "run_ok (wv_definition v) (ex_id e) db" using ok e unfolding db_ok_def runs_ok_def by blast
  obtain n where n: "n \<in> set (execution_rows (ex_id e) db)" "\<not> is_terminal n" using eo run rows by (auto simp: execution_ok_def)
  have "ne_status n \<notin> {FAILED, RETRYING}" by (rule row_ok_settled [OF r nk n(1)])
  then consider "ne_status n \<in> {QUEUED, RUNNING}" | "ne_status n = PENDING"
    using n(2) by (cases "ne_status n") (auto simp: is_terminal_def TERMINAL_NODE_STATUSES_def)
  then show ?thesis
  proof cases
    case 2
    let ?E = "edge_rel (wv_definition v)" and ?s = "run_view (ex_id e) db"
    have "?s (ne_node_id n) = Some PENDING" using run_view_row [OF nk n(1)] 2 by simp
    moreover have "finite ?E" by (simp add: edge_rel_def)
    ultimately obtain a where "?s a \<in> {Some QUEUED, Some RUNNING, Some DEAD_LETTERED}"
      using waiting_has_active_ancestor r unfolding run_ok_def by blast
    then obtain m where "row_get ne_node_id a (execution_rows (ex_id e) db) = Some m" "ne_status m \<in> {QUEUED, RUNNING, DEAD_LETTERED}"
      by (auto simp: run_view_def)
    then show ?thesis using row_get_Some [of ne_node_id a] eo run unfolding execution_ok_def by blast
  qed (use n(1) in blast)
qed

lemma attempts_bounded:
  assumes "db_ok db" and "n \<in> set (node_executions db)"
  shows "ne_attempt n \<le> ne_max_attempts n + int (length (dead_letters (ne_id n) db))"
  using assms by (fastforce simp: db_ok_def rows_ok_def row_ok_def split: if_splits)

end
