(* ===== verification/World_Invariant.thy ===== *)
theory World_Invariant
  imports Reachability
begin

section \<open>Whole operations keep the invariant\<close>

text \<open>
  The operations on the world (a whole job, a started execution, a retry, a recovery pass, a turn
  of the consumer) are sequences of the transactions of \<open>sys_step\<close> with publishing in between. So
  they keep \<open>db_ok\<close> on every path, whatever the queue and the channel do: a publisher that raises
  leaves the transactions committed before it.
\<close>

subsection \<open>Publishing\<close>

lemma publish_nodes_ok:
  assumes "publish_nodes publish x v ns s q = (Inr s', q')" and "db_ok (sdb s)"
  shows "db_ok (sdb s')"
  using assms
proof (induction ns arbitrary: s q)
  case (Cons n ns)
  then show ?case using store_message_id_ok(1) by (auto split: prod.splits sum.splits)
qed simp

lemma publish_phase_ok:
  assumes "publish_phase publish ws_publish x v ns s w = (r, w')" and "db_ok (durable w)"
  shows "db_ok (durable w')"
proof (cases "publish_nodes publish x v ns (resume s w) (queue w)")
  case (Pair res q)
  show ?thesis
  proof (cases res)
    case (Inl e)
    then show ?thesis using assms Pair by (auto simp: publish_phase_def)
  next
    case (Inr s')
    have "db_ok (sdb s')" using publish_nodes_ok [OF Pair [unfolded Inr]] assms(2) by simp
    then show ?thesis using assms(1) Pair Inr by (auto simp: publish_phase_def flush_events_def Let_def)
  qed
qed

lemma flush_events_sdb: "flush_events ws_publish s c = (s1, c1) \<Longrightarrow> sdb s1 = sdb s"
  by (auto simp: flush_events_def)

subsection \<open>A job\<close>

text \<open>
  How a job ends: nothing claimed; claimed and no more (the context does not load, the completion
  raises, or finds the node no longer running); or completed and published.
\<close>

lemma process_job_cases:
  assumes "process_job registry publish ws_publish fs w = (r, w')"
  obtains (idle) "w' = w"
    and "isl r \<or> (\<exists>job s. deserialize_job_payload fs = Inr job \<and> claim_unit job (open_session w) = Inr (None, s))"
  | (claimed) job node s s2 where "claim_unit job (open_session w) = Inr (Some node, s)" and "durable w' = sdb s" and "queue w' = queue w"
    and "sdb s2 = sdb s" and "isl r \<or> (\<exists>jc s3. load_context registry node s2 = Inr jc \<and>
      complete_unit jc (ne_id node) (run_executor jc) (s2\<lparr>pinned := [jc_execution jc]\<rparr>) = Inr (None, s3))"
  | (completed) job node s jc s2 ns s3 w2 where "claim_unit job (open_session w) = Inr (Some node, s)"
    and "load_context registry node s2 = Inr jc" and "sdb s2 = sdb s"
    and "complete_unit jc (ne_id node) (run_executor jc) (s2\<lparr>pinned := [jc_execution jc]\<rparr>) = Inr (Some ns, s3)"
    and "durable w2 = sdb s3" and "queue w2 = queue w"
    and "publish_phase publish ws_publish (ex_id (jc_execution jc)) (ex_workflow_version_id (jc_execution jc)) ns s3 w2 = (r, w')"
    and "deserialize_job_payload fs = Inr job"
proof (cases "rbind (deserialize_job_payload fs) (\<lambda>job. claim_unit job (open_session w))")
  case (Inl e)
  then have "r = Inl e" "w' = w" using assms by (auto simp: process_job_def)
  then show thesis by (intro idle) simp_all
next
  case (Inr cs)
  then obtain job where fs: "deserialize_job_payload fs = Inr job" and job: "claim_unit job (open_session w) = Inr cs" by (auto simp: rbind_eq_Inr)
  obtain c s where cs: "cs = (c, s)" by (cases cs)
  obtain s1 ch where fl: "flush_events ws_publish s (channel w) = (s1, ch)" by (cases "flush_events ws_publish s (channel w)")
  let ?w1 = "(commit_session s1 w)\<lparr>channel := ch\<rparr>" let ?s2 = "resume s1 ?w1"
  note run = assms [unfolded process_job_def Inr cs] and d = flush_events_sdb [OF fl]
  have s2: "sdb ?s2 = sdb s" using d by simp
  show thesis
  proof (cases c)
    case None
    then show thesis using run fs job cs by (intro idle) auto
  next
    case (Some node)
    note job = job [unfolded cs Some]
    have stop: thesis if "w' = ?w1" and "isl r \<or> (\<exists>jc s3. load_context registry node ?s2 = Inr jc \<and>
        complete_unit jc (ne_id node) (run_executor jc) (?s2\<lparr>pinned := [jc_execution jc]\<rparr>) = Inr (None, s3))"
      by (rule claimed [OF job _ _ s2 that(2)]) (use that d in simp_all)
    show thesis
    proof (cases "load_context registry node ?s2")
      case e: (Inl e)
      then show thesis using run Some fl by (intro stop) auto
    next
      case jc: (Inr jc)
      show thesis
      proof (cases "complete_unit jc (ne_id node) (run_executor jc) (?s2\<lparr>pinned := [jc_execution jc]\<rparr>)")
        case (Inl e)
        then show thesis using run Some fl jc by (intro stop) auto
      next
        case comp: (Inr qs)
        obtain q s3 where q: "qs = (q, s3)" by (cases qs)
        show thesis
        proof (cases q)
          case None
          then show thesis using run Some fl jc comp q by (intro stop) auto
        next
          case ns: (Some ns)
          show thesis
            by (rule completed [OF job jc s2 comp [unfolded q ns], of "commit_session s3 ?w1"])
              (use run Some fl jc comp q ns d fs in simp_all)
        qed
      qed
    qed
  qed
qed

lemma process_job_ok:
  assumes ok: "db_ok (durable w)" and "process_job registry publish ws_publish fs w = (r, w')"
  shows "db_ok (durable w')"
  using assms(2)
proof (cases rule: process_job_cases)
  case (claimed job node s s2)
  then show ?thesis using db_ok_claim [OF _ claimed(1)] ok by simp
next
  case (completed job node s jc s2 ns s3 w2)
  have s2: "db_ok (sdb s2)" using db_ok_claim [OF _ completed(1)] completed(3) ok by simp
  have "act_ok (sdb s2) \<lparr>a_node = ne_id node, a_context = jc\<rparr>" using act_ok_load [OF s2 completed(2)] .
  then have "db_ok (sdb s3)"
    using db_ok_complete [of "s2\<lparr>pinned := [jc_execution jc]\<rparr>" "\<lparr>a_node = ne_id node, a_context = jc\<rparr>"] s2 completed(4) by simp
  then show ?thesis using publish_phase_ok [OF completed(7)] completed(5) by simp
qed (use ok in simp)

lemma process_job_snd_ok: "db_ok (durable w) \<Longrightarrow> db_ok (durable (snd (process_job registry publish ws_publish fs w)))"
  by (cases "process_job registry publish ws_publish fs w") (simp add: process_job_ok)

subsection \<open>The engine's operations\<close>

lemma start_execution_ok:
  assumes ok: "db_ok (durable w)" and st: "start_execution registry publish ws_publish command owner w = (r, w')"
    and fresh: "\<And>v. v \<in> set (workflow_versions (durable w)) \<Longrightarrow> wv_id v = cmd_workflow_version_id command \<Longrightarrow>
      fresh_ids (Suc (length (nodes (wv_definition v)))) (open_session w)"
  shows "db_ok (durable w')"
proof (cases "start_unit registry command owner (open_session w)")
  case (Inl e)
  then show ?thesis using ok st by (simp add: start_execution_def)
next
  case (Inr rs)
  obtain e ns s where rs: "rs = ((e, ns), s)" by (metis prod.exhaust)
  have s: "db_ok (sdb s)" using db_ok_start [OF _ Inr [unfolded rs]] ok fresh by simp
  obtain p w1 where p: "publish_phase publish ws_publish (ex_id e) (ex_workflow_version_id e) ns s (commit_session s w) = (p, w1)"
    by (cases "publish_phase publish ws_publish (ex_id e) (ex_workflow_version_id e) ns s (commit_session s w)")
  have "w' = w1" using st Inr rs p by (auto simp: start_execution_def split: sum.splits)
  then show ?thesis using publish_phase_ok [OF p] s by simp
qed

lemma retry_node_ok:
  assumes ok: "db_ok (durable w)" and st: "retry_node publish ws_publish x nid owner w = (r, w')"
  shows "db_ok (durable w')"
proof (cases "retry_unit x nid owner (open_session w)")
  case (Inl e)
  then show ?thesis using ok st by (simp add: retry_node_def)
next
  case (Inr rs)
  obtain e n s where rs: "rs = ((e, n), s)" by (metis prod.exhaust)
  have s: "db_ok (sdb s)" using db_ok_retry [OF _ Inr [unfolded rs]] ok by simp
  obtain p w1 where p: "publish_phase publish ws_publish (ex_id e) (ex_workflow_version_id e) [n] s (commit_session s w) = (p, w1)"
    by (cases "publish_phase publish ws_publish (ex_id e) (ex_workflow_version_id e) [n] s (commit_session s w)")
  have "w' = w1" using st Inr rs p by (auto simp: retry_node_def split: sum.splits)
  then show ?thesis using publish_phase_ok [OF p] s by simp
qed

lemma delete_execution_ok:
  "db_ok (durable w) \<Longrightarrow> delete_execution x owner w = (r, w') \<Longrightarrow> db_ok (durable w')"
  by (cases r) (auto simp: delete_execution_def in_session_Inr in_session_Inl db_ok_delete_rows dest!: delete_unit_Inr(1))

subsection \<open>The loops\<close>

lemma process_recovered_job_ok:
  assumes ok: "db_ok (durable w)" and st: "process_recovered_job registry publish ws_publish fs m p c w = (r, w')"
  shows "db_ok (durable w')"
proof (cases "deserialize_job_payload fs")
  case (Inl e)
  then show ?thesis using ok st by (simp add: process_recovered_job_def)
next
  case (Inr job)
  obtain q s where q: "recover_unit job m p c (open_session w) = (q, s)" by (cases "recover_unit job m p c (open_session w)")
  have s: "db_ok (sdb s)" using db_ok_recover [OF _ q] ok by simp
  obtain s1 ch where fl: "flush_events ws_publish s (channel w) = (s1, ch)" by (cases "flush_events ws_publish s (channel w)")
  let ?w1 = "(commit_session s1 w)\<lparr>channel := ch\<rparr>"
  have w1: "db_ok (durable ?w1)" using s flush_events_sdb [OF fl] by simp
  obtain r2 w2 where p: "process_job registry publish ws_publish fs ?w1 = (r2, w2)"
    by (cases "process_job registry publish ws_publish fs ?w1")
  have "w' = w \<or> w' = ?w1 \<or> w' = w2"
    using st Inr q fl p by (auto simp: process_recovered_job_def Let_def split: option.splits if_splits sum.splits)
  then show ?thesis using ok w1 process_job_ok [OF w1 p] by blast
qed

lemma recover_claimed_ok:
  "db_ok (durable w) \<Longrightarrow> db_ok (durable (snd (recover_claimed api registry publish ws_publish name jobs w)))"
proof (induction jobs arbitrary: w)
  case (Cons job jobs)
  obtain m fs p where job: "job = (m, fs, p)" by (metis prod.exhaust)
  obtain r w1 where r: "process_recovered_job registry publish ws_publish fs m p name w = (r, w1)"
    by (cases "process_recovered_job registry publish ws_publish fs m p name w")
  have "db_ok (durable w1)" by (rule process_recovered_job_ok [OF Cons.prems r])
  then show ?case using Cons.IH by (auto simp: job r split: sum.splits prod.splits)
qed simp

lemma recovery_pass_ok:
  "db_ok (durable w) \<Longrightarrow> db_ok (durable (recovery_pass api registry publish ws_publish name t w))"
  by (auto simp: recovery_pass_def split: sum.splits prod.splits intro!: recover_claimed_ok)

lemma process_and_ack_ok:
  assumes "db_ok (durable (snd hw))"
  shows "db_ok (durable (snd (snd (process_and_ack api registry publish ws_publish msg hw))))"
proof (cases "deserialize_job_payload (snd msg)")
  case (Inl e)
  then show ?thesis using assms by (simp add: process_and_ack_def)
next
  case (Inr job)
  have "db_ok (durable w2)" if "process_job registry publish ws_publish (snd msg) w1 = (r, w2)" "durable w1 = durable (snd hw)" for w1 w2 r
    using process_job_ok that assms by metis
  then show ?thesis using Inr
    by (auto simp: process_and_ack_def Let_def split: sum.splits prod.splits option.splits)
qed

lemma process_batch_ok:
  "db_ok (durable (snd hw)) \<Longrightarrow> db_ok (durable (snd (process_batch api registry publish ws_publish msgs hw)))"
  by (induction msgs arbitrary: hw) (simp_all add: process_and_ack_ok)

lemma consumer_turn_ok:
  assumes "db_ok (durable (snd hw))"
  shows "db_ok (durable (snd (snd (consumer_turn api registry publish ws_publish is_timeout k hw))))"
proof (cases "xreadgroup api k (queue (snd hw))")
  case (Pair r q)
  show ?thesis
  proof (cases r)
    case (Inl e)
    then show ?thesis using assms Pair by (simp add: consumer_turn_def)
  next
    case (Inr ms)
    have "db_ok (durable (snd (process_batch api registry publish ws_publish ms (fst hw, (snd hw)\<lparr>queue := q\<rparr>))))"
      by (rule process_batch_ok) (use assms in simp)
    then show ?thesis using assms Pair Inr by (auto simp: consumer_turn_def split: prod.splits option.splits)
  qed
qed

end
