(* ===== verification/Samples.thy ===== *)
theory Samples
  imports World_Invariant
begin

section \<open>A sample run\<close>

text \<open>
  A concrete history of the system, used where a property is applied to a concrete input: an API
  key, the diamond workflow created, an execution of it started, its root claimed, loaded and
  completed with success. The states are values of the model's own operations.
\<close>

definition sample_repr :: "rat \<Rightarrow> string" where
  "sample_repr r = ''2.0''"

definition sample_key :: APIKey where
  "sample_key = \<lparr>ak_id = 7, ak_name = ''dev'', ak_key_hash = ''h'', ak_is_active = True, ak_last_used_at = None, ak_created_at = 0\<rparr>"

definition keyed_db :: database where
  "keyed_db = empty_database\<lparr>api_keys := [sample_key]\<rparr>"

definition sample_session :: "database \<Rightarrow> nat \<Rightarrow> session" where
  "sample_session db k = \<lparr>sdb = db, staged = [], pinned = [], now = 1000, uuids = (\<lambda>k. word_of_nat k), used = k\<rparr>"

lemma sample_session_simps [simp]:
  "sdb (sample_session db k) = db" "staged (sample_session db k) = []" "pinned (sample_session db k) = []"
  "now (sample_session db k) = 1000" "uuids (sample_session db k) i = word_of_nat i" "used (sample_session db k) = k"
  by (simp_all add: sample_session_def)

definition sample_command :: StartExecutionCommand where
  "sample_command = \<lparr>cmd_workflow_version_id = 2, cmd_input_payload = []\<rparr>"

definition sample_workflow :: Workflow where
  "sample_workflow = new_workflow 1 7 ''diamond'' [] 1000"

definition sample_version :: WorkflowVersion where
  "sample_version = new_version sample_repr 2 1 1 diamond 1000"

lemma sample_rows [simp]:
  "wf_id sample_workflow = 1" "wf_owner_api_key_id sample_workflow = 7"
  "wv_id sample_version = 2" "wv_workflow_id sample_version = 1" "wv_definition sample_version = diamond"
  by (simp_all add: sample_workflow_def sample_version_def new_workflow_def)

subsection \<open>Created\<close>

definition created :: "((Workflow \<times> WorkflowVersion) \<times> session) result" where
  "created = create_workflow sample_repr sample_registry ''diamond'' [] diamond 7 (sample_session keyed_db 1)"

definition created_db :: database where
  "created_db = keyed_db\<lparr>workflows := [sample_workflow], workflow_versions := [sample_version]\<rparr>"

lemma created_eq: "\<exists>s. created = Inr ((sample_workflow, sample_version), s) \<and> sdb s = created_db"
  by (simp add: created_def created_db_def create_workflow_def validate_diamond keyed_db_def new_uuid_def
      empty_database_def modify_db_def sample_key_def sample_workflow_def sample_version_def new_workflow_def Let_def)

lemma created_db_simps [simp]:
  "workflows created_db = [sample_workflow]" "workflow_versions created_db = [sample_version]" "executions created_db = []"
  "node_executions created_db = []" "dead_letter_jobs created_db = []" "api_keys created_db = [sample_key]"
  by (simp_all add: created_db_def keyed_db_def empty_database_def)

subsection \<open>Started\<close>

definition started :: "((Execution \<times> NodeExecution list) \<times> session) result" where
  "started = start_unit sample_registry sample_command 7 (sample_session created_db 10)"

definition started_db :: database where
  "started_db = sdb (snd (projr started))"

definition sample_execution :: Execution where
  "sample_execution = set_execution_status X_RUNNING 1000 (new_execution 10 sample_workflow sample_version sample_command)"

definition sample_row :: "uuid \<Rightarrow> string \<Rightarrow> NodeExecution" where
  "sample_row i n = new_node i 10 diamond (sample_node n)"

lemma diamond_nodes: "nodes diamond = [sample_node ''a'', sample_node ''b'', sample_node ''c'', sample_node ''d'']"
  by (simp add: diamond_def)

lemmas start_eval = start_unit_def first_row_def validate_diamond new_uuid_def diamond_nodes
  execution_started_def transition_execution_status_def load_execution_def Let_def transition_node_status_def

lemma sample_node_simps [simp]: "n_id (sample_node n) = n" "n_type (sample_node n) = ''notification''"
  by (simp_all add: sample_node_def)

lemma sample_execution_simps [simp]:
  "ex_id sample_execution = 10" "ex_status sample_execution = X_RUNNING" "ex_workflow_version_id sample_execution = 2"
  "ex_workflow_id sample_execution = 1"
  by (simp_all add: sample_execution_def new_execution_def)

lemma new_execution_fields [simp]:
  "ex_id (new_execution i w v c) = i" "ex_status (new_execution i w v c) = X_CREATED"
  by (simp_all add: new_execution_def)

lemma started_eq:
  "\<exists>s. started = Inr ((sample_execution, [set_node_status QUEUED 1000 (sample_row 11 ''a'')]), s) \<and> sdb s = started_db \<and>
     executions started_db = [sample_execution] \<and>
     node_executions started_db = [set_node_status QUEUED 1000 (sample_row 11 ''a''), sample_row 12 ''b'', sample_row 13 ''c'', sample_row 14 ''d''] \<and>
     dead_letter_jobs started_db = [] \<and> workflow_versions started_db = [sample_version] \<and> workflows started_db = [sample_workflow]"
  by (simp add: started_db_def started_def start_eval sample_command_def sample_execution_def sample_row_def)

lemma started_db_simps [simp]:
  "executions started_db = [sample_execution]"
  "node_executions started_db = [set_node_status QUEUED 1000 (sample_row 11 ''a''), sample_row 12 ''b'', sample_row 13 ''c'', sample_row 14 ''d'']"
  "dead_letter_jobs started_db = []" "workflow_versions started_db = [sample_version]" "workflows started_db = [sample_workflow]"
  using started_eq by auto

lemma sample_row_simps [simp]:
  "ne_id (sample_row i n) = i" "ne_execution_id (sample_row i n) = 10" "ne_node_id (sample_row i n) = n"
  "ne_status (sample_row i n) = PENDING" "ne_attempt (sample_row i n) = 0" "ne_max_attempts (sample_row i n) = 3"
  by (simp_all add: sample_row_def resolve_retry_policy_def diamond_def sample_node_def DEFAULT_RETRY_POLICY_def)

subsection \<open>Claimed, loaded and completed\<close>

definition sample_job :: Job where
  "sample_job = \<lparr>j_execution_id = 10, j_node_execution_id = 11, j_workflow_version_id = 2, j_node_id = ''a'', j_attempt = 1\<rparr>"

definition claimed_row :: NodeExecution where
  "claimed_row = set_node_status RUNNING 1000 (set_node_status QUEUED 1000 (sample_row 11 ''a''))"

definition claimed_db :: database where
  "claimed_db = sdb (snd (projr (claim_unit sample_job (sample_session started_db 20))))"

lemma claimed_eq:
  "\<exists>s. claim_unit sample_job (sample_session started_db 20) = Inr (Some claimed_row, s) \<and> sdb s = claimed_db \<and>
     executions claimed_db = [sample_execution] \<and>
     node_executions claimed_db = [claimed_row, sample_row 12 ''b'', sample_row 13 ''c'', sample_row 14 ''d''] \<and>
     dead_letter_jobs claimed_db = [] \<and> workflow_versions claimed_db = [sample_version] \<and> workflows claimed_db = [sample_workflow]"
  by (simp add: claimed_db_def claim_unit_def sample_job_def is_terminal_def TERMINAL_NODE_STATUSES_def
      transition_node_status_def Let_def node_started_def claimed_row_def)

lemma claimed_db_simps [simp]:
  "executions claimed_db = [sample_execution]"
  "node_executions claimed_db = [claimed_row, sample_row 12 ''b'', sample_row 13 ''c'', sample_row 14 ''d'']"
  "dead_letter_jobs claimed_db = []" "workflow_versions claimed_db = [sample_version]" "workflows claimed_db = [sample_workflow]"
  using claimed_eq by auto

lemma claimed_row_simps [simp]:
  "ne_id claimed_row = 11" "ne_execution_id claimed_row = 10" "ne_node_id claimed_row = ''a''" "ne_status claimed_row = RUNNING"
  "ne_attempt claimed_row = 1" "ne_max_attempts claimed_row = 3"
  by (simp_all add: claimed_row_def set_node_status_def Let_def)

definition sample_context :: job_context where
  "sample_context = projr (load_context sample_registry claimed_row (sample_session claimed_db 30))"

lemma load_eq:
  "load_context sample_registry claimed_row (sample_session claimed_db 30) = Inr sample_context \<and>
   jc_execution sample_context = sample_execution \<and> jc_definition sample_context = diamond \<and>
   jc_node_def sample_context = sample_node ''a''"
  by (simp add: sample_context_def load_context_def Let_def diamond_nodes registry_get_def sample_registry_def register_def
      notification_executor_def)

lemmas load_simps [simp] = load_eq [THEN conjunct2, THEN conjunct1] load_eq [THEN conjunct2, THEN conjunct2, THEN conjunct1]
  load_eq [THEN conjunct2, THEN conjunct2, THEN conjunct2]

definition sample_result :: ExecutorResult where
  "sample_result = \<lparr>r_success = True, r_output = [(''sent'', JBool True)], r_error = None\<rparr>"

definition completed :: "(NodeExecution list option \<times> session) result" where
  "completed = complete_unit sample_context 11 sample_result ((sample_session claimed_db 30)\<lparr>pinned := [sample_execution]\<rparr>)"

definition completed_db :: database where
  "completed_db = sdb (snd (projr completed))"

definition succeeded_row :: NodeExecution where
  "succeeded_row = set_node_status SUCCEEDED 1000 (set_output [(''sent'', JBool True)] claimed_row)"

lemma child_ids_diamond:
  "child_ids diamond ''a'' = [''b'', ''c'']" "parent_ids diamond ''b'' = [''a'']" "parent_ids diamond ''c'' = [''a'']"
  by (simp_all add: diamond_def child_ids_def parent_ids_def sample_edge_def)

lemma completed_eq:
  "\<exists>r s. completed = Inr (r, s) \<and> sdb s = completed_db \<and> executions completed_db = [sample_execution] \<and>
     node_executions completed_db = [succeeded_row, set_node_status QUEUED 1000 (sample_row 12 ''b''),
       set_node_status QUEUED 1000 (sample_row 13 ''c''), sample_row 14 ''d''] \<and>
     dead_letter_jobs completed_db = [] \<and> workflow_versions completed_db = [sample_version]"
  by (simp add: completed_db_def completed_def complete_unit_def execution_rows_def Let_def record_result_def sample_result_def
      transition_node_status_def node_succeeded_def queue_downstream_nodes_def child_ids_diamond condition_skip_ids_def
      node_exec_by_node_id_def node_lookup_def finish_execution_def is_terminal_def TERMINAL_NODE_STATUSES_def succeeded_row_def)

lemma completed_db_simps [simp]:
  "executions completed_db = [sample_execution]"
  "node_executions completed_db = [succeeded_row, set_node_status QUEUED 1000 (sample_row 12 ''b''),
     set_node_status QUEUED 1000 (sample_row 13 ''c''), sample_row 14 ''d'']"
  "dead_letter_jobs completed_db = []" "workflow_versions completed_db = [sample_version]"
  using completed_eq by auto

lemma succeeded_row_simps [simp]:
  "ne_id succeeded_row = 11" "ne_execution_id succeeded_row = 10" "ne_node_id succeeded_row = ''a''" "ne_status succeeded_row = SUCCEEDED"
  by (simp_all add: succeeded_row_def set_node_status_def set_output_def Let_def)

subsection \<open>The history is one of the system\<close>

lemma valid_diamond: "valid_WorkflowDefinition diamond"
  by (simp add: valid_WorkflowDefinition_def valid_Node_def diamond_def sample_node_def)

lemma keyed_reachable: "reachable sample_repr sample_registry (keyed_db, {})"
  by (rule reachable.initial) (simp_all add: keyed_db_def empty_database_def)

lemma created_reachable: "reachable sample_repr sample_registry (created_db, {})"
proof -
  obtain s where "created = Inr ((sample_workflow, sample_version), s)" and s: "sdb s = created_db" using created_eq by blast
  then have "sys_step sample_repr sample_registry (sdb (sample_session keyed_db 1), {}) (sdb s, {})"
    by (intro sys_step.create [OF _ valid_diamond]) (simp_all add: created_def keyed_db_def empty_database_def)
  then show ?thesis using reachable.step [OF keyed_reachable] s by simp
qed

lemma sample_fresh: "fresh_ids (Suc (length (nodes diamond))) (sample_session created_db 10)"
  by (simp add: fresh_ids_def diamond_nodes upt_conv_Cons)

lemma started_reachable: "reachable sample_repr sample_registry (started_db, {})"
proof -
  obtain s where "started = Inr ((sample_execution, [set_node_status QUEUED 1000 (sample_row 11 ''a'')]), s)" and s: "sdb s = started_db"
    using started_eq by blast
  then have "sys_step sample_repr sample_registry (sdb (sample_session created_db 10), {}) (sdb s, {})"
    by (intro sys_step.start) (use sample_fresh in \<open>simp_all add: started_def held_ids_def\<close>)
  then show ?thesis using reachable.step [OF created_reachable] s by simp
qed

lemma claimed_reachable: "reachable sample_repr sample_registry (claimed_db, {})"
proof -
  obtain s where "claim_unit sample_job (sample_session started_db 20) = Inr (Some claimed_row, s)" and s: "sdb s = claimed_db"
    using claimed_eq by blast
  then have "sys_step sample_repr sample_registry (sdb (sample_session started_db 20), {}) (sdb s, {})"
    by (intro sys_step.claim)
  then show ?thesis using reachable.step [OF started_reachable] s by simp
qed

definition sample_activity :: activity where
  "sample_activity = \<lparr>a_node = 11, a_context = sample_context\<rparr>"

lemma loaded_reachable: "reachable sample_repr sample_registry (claimed_db, {sample_activity})"
proof -
  have "sys_step sample_repr sample_registry (sdb (sample_session claimed_db 30), {})
      (sdb (sample_session claimed_db 30), insert \<lparr>a_node = ne_id claimed_row, a_context = sample_context\<rparr> {})"
    using load_eq by (intro sys_step.load) simp
  then show ?thesis using reachable.step [OF claimed_reachable] by (simp add: sample_activity_def)
qed

lemma completed_reachable: "reachable sample_repr sample_registry (completed_db, {})"
proof -
  let ?s = "(sample_session claimed_db 30)\<lparr>pinned := [sample_execution]\<rparr>"
  obtain r s where "completed = Inr (r, s)" and s: "sdb s = completed_db" using completed_eq by blast
  then have "sys_step sample_repr sample_registry (sdb ?s, {sample_activity}) (sdb s, {sample_activity} - {sample_activity})"
    by (intro sys_step.complete [where res = sample_result]) (simp_all add: completed_def sample_activity_def)
  then show ?thesis using reachable.step [OF loaded_reachable] s by simp
qed

end
