(* ===== verification/Publishing.thy ===== *)
theory Publishing
  imports World_Invariant
begin

section \<open>Every queued node has its job\<close>

text \<open>
  What the engine and the worker promise about the job queue, proved once for any publisher with the
  laws of \<open>queue_publisher\<close>: a job that returns has published one message for every node it queued,
  in order. \<open>queued_by\<close> says that a list of rows is all that a change of the database queued.
\<close>

definition queued_by :: "NodeExecution list \<Rightarrow> database \<Rightarrow> database \<Rightarrow> bool" where
  "queued_by ns db db' \<longleftrightarrow>
     (\<forall>n' \<in> set (node_executions db'). ne_status n' = QUEUED \<longrightarrow> n' \<in> set ns \<or>
        (\<exists>n \<in> set (node_executions db). ne_id n = ne_id n' \<and> ne_status n = QUEUED))"

lemma queued_by_modify:
  assumes "node_executions db' = row_modify ne_id i f (node_executions db)"
    and "\<And>n. n \<in> set (node_executions db) \<Longrightarrow> ne_id n = i \<Longrightarrow> ne_status (f n) = QUEUED \<Longrightarrow> f n \<in> set ns"
  shows "queued_by ns db db'"
  unfolding queued_by_def assms(1)
proof (intro ballI impI)
  fix n' assume "n' \<in> set (row_modify ne_id i f (node_executions db))" and q: "ne_status n' = QUEUED"
  then obtain n where "n \<in> set (node_executions db)" "n' = (if ne_id n = i then f n else n)" by (auto simp: row_modify_def)
  then show "n' \<in> set ns \<or> (\<exists>n \<in> set (node_executions db). ne_id n = ne_id n' \<and> ne_status n = QUEUED)"
    using assms(2) q by (cases "ne_id n = i") auto
qed

lemma succeed_queued:
  assumes "succeed E n S \<sigma> c = Some QUEUED" and "\<sigma> c \<noteq> Some QUEUED"
  shows "(n, c) \<in> E \<and> apply_skips E S (\<sigma>(n \<mapsto> SUCCEEDED)) c = Some PENDING \<and>
    (\<forall>p. (p, c) \<in> E \<longrightarrow> apply_skips E S (\<sigma>(n \<mapsto> SUCCEEDED)) p = Some SUCCEEDED)"
  using assms by (auto simp: succeed_def apply_ready_def apply_skips_def split: if_splits)

lemma failure_queued:
  assumes j: "job_ok jc n s" and c: "complete_unit jc (ne_id n) res s = Inr (Some ns, s')" and no: "\<not> r_success res"
  shows "queued_by ns (sdb s) (sdb s')"
proof (cases "ne_attempt n < ne_max_attempts n")
  case True
  have inj: "inj_on ne_id (set (node_executions (sdb s)))" and n: "n \<in> set (node_executions (sdb s))"
    using j by (auto simp: job_ok_def nodes_ok_def distinct_map in_execution_rows)
  have own: "k = n" if "k \<in> set (node_executions (sdb s))" "ne_id k = ne_id n" for k
    by (rule inj_onD [OF inj]) (use that n in auto)
  obtain s1 where "complete_unit jc (ne_id n) res s = Inr (Some [retry_row (r_error res) (now s) n], s1)"
    and rows: "node_executions (sdb s1) = row_modify ne_id (ne_id n) (retry_row (r_error res) (now s)) (node_executions (sdb s))"
    using complete_retry [OF j no True] by blast
  then have ns: "ns = [retry_row (r_error res) (now s) n]" and s1: "s' = s1" using c by simp_all
  show ?thesis unfolding s1 ns by (rule queued_by_modify [OF rows]) (use own in auto)
next
  case False
  obtain s1 where "complete_unit jc (ne_id n) res s = Inr (Some [], s1)"
    "node_executions (sdb s1) = row_modify ne_id (ne_id n) (dead_row (r_error res) (now s)) (node_executions (sdb s))"
    using complete_dead [OF j no False refl] by blast
  then show ?thesis using c by (auto intro: queued_by_modify)
qed

lemma success_queued:
  assumes j: "job_ok jc n s" and c: "complete_unit jc (ne_id n) res s = Inr (Some ns, s')" and yes: "r_success res"
  shows "queued_by ns (sdb s) (sdb s')"
  unfolding queued_by_def
proof (intro ballI impI)
  let ?d = "jc_definition jc" and ?x = "ex_id (jc_execution jc)"
  obtain skip_ids where sk: "child_ids ?d (ne_node_id n) = [] \<or> condition_skip_ids (jc_node_def jc) res = Inr skip_ids"
    using complete_bad_branch [OF j yes] c by (cases "condition_skip_ids (jc_node_def jc) res") auto
  let ?S = "branch_skips ?d (ne_node_id n) skip_ids" and ?v = "run_view ?x (sdb s)"
  let ?\<sigma> = "apply_skips (edge_rel ?d) ?S (?v(ne_node_id n \<mapsto> SUCCEEDED))"
  from complete_success [OF j yes sk refl refl] c have
    f: "list_all2 (success_row ?x (ne_id n) (r_output res) (now s)) (node_executions (sdb s)) (node_executions (sdb s'))"
      "run_view ?x (sdb s') = succeed (edge_rel ?d) (ne_node_id n) ?S ?v"
      "set ns \<subseteq> set (execution_rows ?x (sdb s'))" "ne_node_id ` set ns = queued_children ?d (ne_node_id n) ?\<sigma>"
    and keys: "node_keys (node_executions (sdb s')) = node_keys (node_executions (sdb s))" by auto
  have nk: "nodes_ok (sdb s)" using j by (simp add: job_ok_def)
  then have nk': "nodes_ok (sdb s')" using nodes_ok_by_keys [OF keys] by simp
  fix r' assume r': "r' \<in> set (node_executions (sdb s'))" and q: "ne_status r' = QUEUED"
  from list_all2_in2 [OF f(1) r'] obtain r where r: "r \<in> set (node_executions (sdb s))"
    and adv: "success_row ?x (ne_id n) (r_output res) (now s) r r'" by blast
  show "r' \<in> set ns \<or> (\<exists>n \<in> set (node_executions (sdb s)). ne_id n = ne_id r' \<and> ne_status n = QUEUED)"
  proof (cases "r' = r")
    case False
    then have p: "ne_status r = PENDING" "ne_execution_id r = ?x" "r' = set_node_status QUEUED (now s) r"
      using adv q by (auto simp: success_row_def advance_def end_attempt_def split: if_splits)
    have in': "r' \<in> set (execution_rows ?x (sdb s'))" and "r \<in> set (execution_rows ?x (sdb s))"
      using r r' p by (auto simp: in_execution_rows)
    then have "?v (ne_node_id r') = Some PENDING" "run_view ?x (sdb s') (ne_node_id r') = Some QUEUED"
      using run_view_row [OF nk, of r ?x] run_view_row [OF nk', of r' ?x] p q by simp_all
    then have "ne_node_id r' \<in> queued_children ?d (ne_node_id n) ?\<sigma>"
      using succeed_queued [of "edge_rel ?d" "ne_node_id n" ?S ?v "ne_node_id r'"] f(2)
      by (auto simp: queued_children_def ready_def edge_rel_parent)
    then obtain m where m: "m \<in> set ns" "ne_node_id m = ne_node_id r'" using f(4) by (metis imageE)
    have "inj_on ne_node_id (set (execution_rows ?x (sdb s')))" using nk' by (simp add: nodes_ok_def distinct_map)
    then have "m = r'" by (rule inj_onD) (use m f(3) in' in auto)
    then show ?thesis using m by simp
  qed (use r q in auto)
qed

lemma complete_queued:
  "job_ok jc n s \<Longrightarrow> complete_unit jc (ne_id n) res s = Inr (Some ns, s') \<Longrightarrow> queued_by ns (sdb s) (sdb s')"
  using failure_queued success_queued by blast

lemma claim_queued:
  assumes "claim_unit job s = Inr (c, s')"
  shows "queued_by [] (sdb s) (sdb s')"
proof (cases "sdb s' = sdb s")
  case True
  then show ?thesis by (auto simp: queued_by_def)
next
  case False
  then obtain k n' :: NodeExecution and s1 where t: "transition_node_status (ne_id k) QUEUED RUNNING s = Inr (n', s1)"
    and s1: "s' = node_started (ne_execution_id n') (ne_id n') (ne_node_id n') s1"
    using assms by (auto simp: claim_unit_def rbind_eq_Inr split: option.splits if_splits)
  have s': "node_executions (sdb s') = node_executions (sdb s1)" by (simp add: s1 node_started_def)
  have "node_executions (sdb s') = row_modify ne_id (ne_id k) (set_node_status RUNNING (now s)) (node_executions (sdb s))"
    using transition_node_status_frame(1) [OF t] s' by simp
  then show ?thesis by (rule queued_by_modify) simp
qed

text \<open>Publishing changes nothing of a row but its message id.\<close>

abbreviation unsent :: "NodeExecution \<Rightarrow> NodeExecution" where
  "unsent \<equiv> ne_redis_message_id_update (\<lambda>_. None)"

lemma store_message_rows:
  "map unsent (node_executions (sdb (store_message_id i m s))) = map unsent (node_executions (sdb s))"
  by (auto simp: store_message_id_def row_modify_def split: option.splits)

lemma publish_nodes_rows:
  "publish_nodes publish x v ns s q = (Inr s', q') \<Longrightarrow>
   map unsent (node_executions (sdb s')) = map unsent (node_executions (sdb s))"
proof (induction ns arbitrary: s q)
  case (Cons n ns)
  then show ?case by (fastforce simp: store_message_rows split: prod.splits sum.splits)
qed simp

lemma publish_phase_rows:
  assumes "publish_phase publish ws_publish x v ns s w = (r, w')"
  shows "map unsent (node_executions (durable w')) = map unsent (node_executions (durable w))"
proof (cases "publish_nodes publish x v ns (resume s w) (queue w)")
  case (Pair res q)
  then show ?thesis using assms publish_nodes_rows [of publish x v ns "resume s w" "queue w"]
    by (cases res) (auto simp: publish_phase_def flush_events_sdb split: prod.splits)
qed

lemma unsent_rows:
  assumes "map unsent rs = map unsent rs'" and "\<And>n. f (unsent n) = f n"
  shows "map f rs = map f rs'"
proof -
  have "map f (map unsent rs) = map f (map unsent rs')" using assms(1) by simp
  then show ?thesis using assms(2) by (simp add: comp_def)
qed

text \<open>
  After a claim, successful or not, the node of the job is not QUEUED; a claimed node can be completed:
  the row the completion looks for is there, and RUNNING.
\<close>

lemma claim_not_queued:
  assumes "nodes_ok (sdb s)" and "claim_unit job s = Inr (c, s')" and "k \<in> set (node_executions (sdb s'))" and "ne_status k = QUEUED"
  shows "ne_id k \<noteq> j_node_execution_id job"
proof
  assume id: "ne_id k = j_node_execution_id job"
  have inj: "inj_on ne_id (set (node_executions (sdb s)))" using assms(1) by (simp add: nodes_ok_def distinct_map)
  show False
  proof (cases c)
    case None
    then have same: "sdb s' = sdb s" and ended: "\<And>n. row_get ne_id (j_node_execution_id job) (node_executions (sdb s)) = Some n \<Longrightarrow> is_terminal n"
      using assms(2) by (auto simp: claim_unit_def rbind_eq_Inr split: option.splits if_splits)
    have "row_get ne_id (ne_id k) (node_executions (sdb s)) = Some k"
      using assms(1,3) same by (intro row_get_distinct) (simp_all add: nodes_ok_def)
    then have "is_terminal k" using ended id by simp
    then show False using assms(4) by (simp add: is_terminal_def TERMINAL_NODE_STATUSES_def)
  next
    case (Some n')
    with assms(2) obtain n where n: "ne_id n = j_node_execution_id job"
      and mv: "node_moved n (set_node_status RUNNING (now s)) (sdb s) (sdb s')" by (auto elim: claim_moved)
    then obtain q where "q \<in> set (node_executions (sdb s))" "k = (if ne_id q = ne_id n then set_node_status RUNNING (now s) q else q)"
      using assms(3) by (auto simp: node_moved_def in_set_row_modify)
    then show False using id n assms(4) by (auto split: if_splits)
  qed
qed

lemma claimed_row:
  assumes "nodes_ok (sdb s)" and "claim_unit job s = Inr (Some node, s')"
  shows "node \<in> set (node_executions (sdb s'))" and "ne_status node = RUNNING"
proof -
  from assms(2) obtain n where n': "node = set_node_status RUNNING (now s) n"
    and mv: "node_moved n (set_node_status RUNNING (now s)) (sdb s) (sdb s')" by (auto elim: claim_moved)
  then show "node \<in> set (node_executions (sdb s'))" by (auto simp: node_moved_def in_set_row_modify intro!: bexI [of _ n])
  show "ne_status node = RUNNING" using n' by simp
qed

lemma load_context_execution: "load_context registry node s = Inr jc \<Longrightarrow> ex_id (jc_execution jc) = ne_execution_id node"
  by (auto simp: load_context_def Let_def rbind_eq_Inr split: option.splits dest!: row_get_Some)

lemma claimed_job_ok:
  assumes ok: "db_ok (durable w)" and "claim_unit job (open_session w) = Inr (Some node, s)" and "load_context registry node s2 = Inr jc"
    and "sdb s2 = sdb s"
  shows "job_ok jc node (s2\<lparr>pinned := [jc_execution jc]\<rparr>)"
proof -
  have s2: "db_ok (sdb s2)" using db_ok_claim [OF _ assms(2)] assms(4) ok by simp
  have "nodes_ok (sdb (open_session w))" using ok by (simp add: db_ok_def tables_ok_def)
  note row = claimed_row [OF this assms(2)]
  show ?thesis
    using act_job_ok [of "s2\<lparr>pinned := [jc_execution jc]\<rparr>" "\<lparr>a_node = ne_id node, a_context = jc\<rparr>" node]
      act_ok_load [OF s2 assms(3), of "ne_id node"] s2 row load_context_execution [OF assms(3)] assms(4) by (simp add: in_execution_rows)
qed

lemma claim_completes:
  assumes "db_ok (durable w)" and "claim_unit job (open_session w) = Inr (Some node, s)" and "load_context registry node s2 = Inr jc"
    and "sdb s2 = sdb s"
  shows "complete_unit jc (ne_id node) res (s2\<lparr>pinned := [jc_execution jc]\<rparr>) \<noteq> Inr (None, s3)"
  using complete_unit_running [OF claimed_job_ok [OF assms] refl] by (auto simp: rbind_eq_Inr)

lemma completed_queued:
  assumes "db_ok (durable w)" and "claim_unit job (open_session w) = Inr (Some node, s)" and "load_context registry node s2 = Inr jc"
    and "sdb s2 = sdb s" and "complete_unit jc (ne_id node) res (s2\<lparr>pinned := [jc_execution jc]\<rparr>) = Inr (Some ns, s3)"
  shows "queued_by ns (sdb s2) (sdb s3)"
  using complete_queued [OF claimed_job_ok [OF assms(1-4)] assms(5)] by simp

context queue_publisher
begin

lemma publish_nodes_jobs:
  assumes "publish_nodes publish x v ns s q = (res, q')"
  shows "\<exists>k \<le> length ns. jobs q' = jobs q @ map (node_job x v) (take k ns) \<and> (isl res \<or> k = length ns)"
  using assms
proof (induction ns arbitrary: s q)
  case (Cons n ns)
  obtain r q1 where p: "publish (node_job x v n) q = (r, q1)" by (cases "publish (node_job x v n) q")
  show ?case
  proof (cases r)
    case (Inl e)
    then show ?thesis using Cons.prems p publish_fail [OF p [unfolded Inl]] by (intro exI [of _ 0]) auto
  next
    case (Inr m)
    then obtain k where "k \<le> length ns" "jobs q' = jobs q1 @ map (node_job x v) (take k ns)" "isl res \<or> k = length ns"
      using Cons.IH Cons.prems p by fastforce
    then show ?thesis using publish_ok [OF p [unfolded Inr]] by (intro exI [of _ "Suc k"]) auto
  qed
qed simp

lemma publish_phase_jobs:
  assumes "publish_phase publish ws_publish x v ns s w = (r, w')"
  shows "\<exists>k \<le> length ns. jobs (queue w') = jobs (queue w) @ map (node_job x v) (take k ns) \<and> (isl r \<or> k = length ns)"
proof (cases "publish_nodes publish x v ns (resume s w) (queue w)")
  case (Pair res q)
  have "queue w' = q" and "isl res \<longrightarrow> isl r" using assms Pair
    by (cases res; auto simp: publish_phase_def split: prod.splits)+
  then show ?thesis using publish_nodes_jobs [OF Pair] by auto
qed

lemma start_publishes:
  assumes "start_execution registry publish ws_publish command owner w = (Inr d, w')"
  shows "\<exists>e queued s. start_unit registry command owner (open_session w) = Inr ((e, queued), s) \<and>
    jobs (queue w') = jobs (queue w) @ map (node_job (ex_id e) (ex_workflow_version_id e)) queued"
proof -
  obtain e queued s w1 u where s: "start_unit registry command owner (open_session w) = Inr ((e, queued), s)"
    and p: "publish_phase publish ws_publish (ex_id e) (ex_workflow_version_id e) queued s (commit_session s w) = (Inr u, w1)"
    and w': "w' = w1"
    using assms by (auto simp: start_execution_def split: sum.splits prod.splits)
  then show ?thesis using publish_phase_jobs [OF p] by auto
qed

text \<open>
  A job that returns has published exactly what it queued, and its own node is QUEUED afterwards only
  if it is among that.
\<close>

lemma process_job_publishes:
  assumes ok: "db_ok (durable w)" and pj: "process_job registry publish ws_publish fs w = (Inr u, w')"
  shows "\<exists>job x v ns. deserialize_job_payload fs = Inr job \<and> jobs (queue w') = jobs (queue w) @ map (node_job x v) ns \<and>
    (\<forall>n' \<in> set (node_executions (durable w')). ne_status n' = QUEUED \<longrightarrow> ne_id n' \<in> ne_id ` set ns \<or>
       ne_id n' \<noteq> j_node_execution_id job \<and> (\<exists>n \<in> set (node_executions (durable w)). ne_id n = ne_id n' \<and> ne_status n = QUEUED))"
  using pj
proof (cases rule: process_job_cases)
  case idle
  then obtain job s where c: "deserialize_job_payload fs = Inr job" "claim_unit job (open_session w) = Inr (None, s)" by auto
  have "sdb s = durable w" using c(2) by (auto simp: claim_unit_def rbind_eq_Inr split: option.splits if_splits)
  then show ?thesis using claim_not_queued [OF _ c(2)] ok idle(1) c(1) by (intro exI [of _ job] exI [of _ "[]"]) (auto simp: db_ok_def tables_ok_def)
next
  case (claimed job node s s2)
  then have False using claim_completes [OF ok] by fastforce
  then show ?thesis ..
next
  case (completed job node s jc s2 ns s3 w2)
  have c1: "queued_by ns (sdb s2) (sdb s3)" by (rule completed_queued [OF ok completed(1-4)])
  have c2: "queued_by [] (durable w) (sdb s)" using claim_queued [OF completed(1)] by simp
  have rows: "map (\<lambda>n. (ne_id n, ne_status n)) (node_executions (durable w')) = map (\<lambda>n. (ne_id n, ne_status n)) (node_executions (sdb s3))"
    by (rule unsent_rows [where f = "\<lambda>n. (ne_id n, ne_status n)", OF publish_phase_rows [OF completed(7), unfolded completed(5)]]) simp
  have "ne_id n' \<in> ne_id ` set ns \<or> ne_id n' \<noteq> j_node_execution_id job \<and> (\<exists>n \<in> set (node_executions (durable w)). ne_id n = ne_id n' \<and> ne_status n = QUEUED)"
    if n': "n' \<in> set (node_executions (durable w'))" "ne_status n' = QUEUED" for n'
  proof -
    have "(ne_id n', QUEUED) \<in> set (map (\<lambda>n. (ne_id n, ne_status n)) (node_executions (sdb s3)))"
      unfolding rows [symmetric] using n' by force
    then obtain m where m: "m \<in> set (node_executions (sdb s3))" "ne_id m = ne_id n'" "ne_status m = QUEUED" by auto
    show ?thesis
    proof (cases "m \<in> set ns")
      case True
      then show ?thesis using m(2) by (metis imageI)
    next
      case False
      then obtain k where k: "k \<in> set (node_executions (sdb s))" "ne_id k = ne_id n'" "ne_status k = QUEUED"
        using c1 m unfolding queued_by_def completed(3) by metis
      then have "ne_id n' \<noteq> j_node_execution_id job" using claim_not_queued [OF _ completed(1) k(1,3)] ok by (simp add: db_ok_def tables_ok_def)
      moreover obtain j where "j \<in> set (node_executions (durable w))" "ne_id j = ne_id k" "ne_status j = QUEUED"
        using c2 k unfolding queued_by_def by auto
      ultimately show ?thesis using k(2) by metis
    qed
  qed
  moreover have "jobs (queue w') = jobs (queue w) @ map (node_job (ex_id (jc_execution jc)) (ex_workflow_version_id (jc_execution jc))) ns"
    using publish_phase_jobs [OF completed(7)] completed(6) by auto
  ultimately show ?thesis using completed(8) by blast
qed

end

text \<open>
  When the queue refuses the first message, the transaction that queued the roots is already
  committed: the execution is RUNNING, its roots are QUEUED, and no job names them.
\<close>

lemma start_publish_failure:
  assumes "start_unit registry command owner (open_session w) = Inr ((e, n # queued), s)"
    and "publish (node_job (ex_id e) (ex_workflow_version_id e) n) (queue w) = (Inl err, queue w)"
  shows "start_execution registry publish ws_publish command owner w = (Inl err, commit_session s w)"
  using assms by (simp add: start_execution_def publish_phase_def)

subsection \<open>What a start and a redelivery leave behind\<close>

lemma start_unit_rows:
  assumes su: "start_unit registry command owner s = Inr ((e, queued), s')" and ok: "db_ok (sdb s)" and p: "pinned s = []"
    and fresh: "\<And>v. v \<in> set (workflow_versions (sdb s)) \<Longrightarrow> wv_id v = cmd_workflow_version_id command \<Longrightarrow>
      fresh_ids (Suc (length (nodes (wv_definition v)))) s"
  shows "\<exists>v \<in> set (workflow_versions (sdb s)). \<exists>w \<in> set (workflows (sdb s)).
    wv_id v = cmd_workflow_version_id command \<and> wf_id w = wv_workflow_id v \<and> wf_owner_api_key_id w = owner \<and>
    executions (sdb s') = executions (sdb s) @ [e] \<and> ex_status e = X_RUNNING \<and> ex_workflow_version_id e = wv_id v \<and>
    map ne_node_id (execution_rows (ex_id e) (sdb s')) = node_ids (wv_definition v) \<and>
    (\<forall>n \<in> set (execution_rows (ex_id e) (sdb s')).
       if ne_node_id n \<in> set (roots (wv_definition v)) then ne_status n = QUEUED \<and> ne_attempt n = 1
       else ne_status n = PENDING \<and> ne_attempt n = 0)"
proof -
  have t: "distinct (map ne_id (node_executions (sdb s)))" using ok by (simp add: db_ok_def tables_ok_def nodes_ok_def)
  from start_unit_effect [OF su t fresh p] obtain v w q e1 s1 where st1: "started_as registry command owner s v w q e1 s1" .
  then have same: "e1 = e" "s1 = s'" using su by (simp_all add: started_as_def)
  then have st: "started_as registry command owner s v w q e s'" using st1 by simp
  then have v: "v \<in> set (workflow_versions (sdb s))" "wv_id v = cmd_workflow_version_id command" and
    w: "w \<in> set (workflows (sdb s))" "wf_id w = wv_workflow_id v" "wf_owner_api_key_id w = owner"
    and q: "validate_workflow (wv_definition v) registry = Inr q" and ex: "executions (sdb s') = executions (sdb s) @ [e]"
    by (simp_all add: started_as_def)
  let ?R = "fresh_rows (ex_id e) (wv_definition v) s"
  have "tables_ok (sdb s)" using ok by (simp add: db_ok_def)
  then have mine: "execution_rows (ex_id e) (sdb s') = map (start_row (root_nodes q) (now s)) ?R"
    using started_added [OF ok st] by (rule added_rows(1))
  have r: "root_nodes q = roots (wv_definition v)" using validate_workflow_result [OF q] by simp
  have "map ne_node_id (execution_rows (ex_id e) (sdb s')) = node_ids (wv_definition v)"
    by (simp add: mine comp_def node_ids_def new_rows_fields(1))
  moreover have "if ne_node_id n \<in> set (roots (wv_definition v)) then ne_status n = QUEUED \<and> ne_attempt n = 1
       else ne_status n = PENDING \<and> ne_attempt n = 0" if n: "n \<in> set (execution_rows (ex_id e) (sdb s'))" for n
  proof -
    obtain k where "k \<in> set ?R" "n = start_row (roots (wv_definition v)) (now s) k" using n by (auto simp: mine r)
    then show ?thesis using new_rows_fields(3) by (auto simp: start_row_def)
  qed
  ultimately show ?thesis using v w ex started_execution [OF st] by blast
qed

lemma process_job_not_queued:
  assumes "deserialize_job_payload fs = Inr job" and "nodes_ok (durable w)"
    and "row_get ne_id (j_node_execution_id job) (node_executions (durable w)) = Some n" and "ne_status n \<noteq> QUEUED"
  shows "snd (process_job registry publish ws_publish fs w) = w \<and>
    (isl (fst (process_job registry publish ws_publish fs w)) \<longleftrightarrow> \<not> is_terminal n)"
proof (cases "is_terminal n")
  case True
  then have "process_job registry publish ws_publish fs w = (Inr (), w)"
    using assms by (simp add: process_job_def claim_unit_def open_session_def)
  then show ?thesis using True by simp
next
  case False
  have i: "ne_id n = j_node_execution_id job" using row_get_Some [OF assms(3)] by simp
  have "\<not> (\<exists>n' s'. transition_node_status (ne_id n) QUEUED RUNNING (open_session w) = Inr (n', s'))"
    unfolding transition_node_status_Inr
  proof (clarify)
    fix m assume f: "filter (\<lambda>k. ne_id k = ne_id n) (node_executions (sdb (open_session w))) = [m]" and st: "ne_status m = QUEUED"
    have "n \<in> set (filter (\<lambda>k. ne_id k = ne_id n) (node_executions (durable w)))" using row_get_Some [OF assms(3)] by simp
    then have "n \<in> {m}" using f by (metis list.set(1) list.simps(15) open_session_def session.select_convs(1))
    then show False using st assms(4) by simp
  qed
  then obtain e where "transition_node_status (ne_id n) QUEUED RUNNING (open_session w) = Inl e"
    by (cases "transition_node_status (ne_id n) QUEUED RUNNING (open_session w)") auto
  then have "process_job registry publish ws_publish fs w = (Inl e, w)"
    using assms False by (simp add: process_job_def claim_unit_def open_session_def)
  then show ?thesis using False by simp
qed

end
