(* ===== verification/Notifications.thy ===== *)
theory Notifications
  imports Session
begin

section \<open>From the notification channel to the sockets\<close>

text \<open>
  \<open>_redis_pubsub_listener\<close> of \<open>app/main.py\<close>: every message of the channel \<open>eventflow:ws\<close> is decoded
  (\<open>None\<close> where decoding raises, which is logged) and broadcast to the sockets of its execution. The
  result lists the deliveries, a socket and an envelope each, in order.
\<close>

fun pubsub_listener ::
  "('w \<Rightarrow> bool) \<Rightarrow> (string \<times> Envelope) option list \<Rightarrow> 'w connections \<Rightarrow> ('w \<times> Envelope) list \<times> 'w connections" where
  "pubsub_listener send_ok [] conns = ([], conns)"
| "pubsub_listener send_ok (None # msgs) conns = pubsub_listener send_ok msgs conns"
| "pubsub_listener send_ok (Some (x, msg) # msgs) conns =
     (let (sent, conns1) = broadcast send_ok x conns;
          (rest, conns2) = pubsub_listener send_ok msgs conns1
      in (map (\<lambda>ws. (ws, msg)) sent @ rest, conns2))"

definition inbox :: "'w \<Rightarrow> ('w \<times> Envelope) list \<Rightarrow> Envelope list" where
  "inbox ws ds = map snd (filter (\<lambda>d. fst d = ws) ds)"

definition decoded :: "'a option list \<Rightarrow> 'a list" where
  "decoded msgs = map the (filter (\<lambda>m. m \<noteq> None) msgs)"

lemma inbox_append [simp]: "inbox ws (xs @ ys) = inbox ws xs @ inbox ws ys"
  by (simp add: inbox_def)

lemma inbox_sent:
  assumes "distinct sent"
  shows "inbox ws (map (\<lambda>v. (v, msg)) sent) = (if ws \<in> set sent then [msg] else [])"
proof -
  have "inbox ws (map (\<lambda>v. (v, msg)) sent) = map (\<lambda>_. msg) (filter (\<lambda>v. v = ws) sent)"
    by (simp add: inbox_def filter_map o_def)
  moreover have "length (filter (\<lambda>v. v = ws) sent) = (if ws \<in> set sent then 1 else 0)"
    using assms by (simp add: distinct_length_filter Collect_conv_if Int_def)
  ultimately show ?thesis by (cases "filter (\<lambda>v. v = ws) sent") (auto split: if_splits)
qed

lemma broadcast_sent: "fst (broadcast send_ok x conns) = filter send_ok (sockets_of conns x)"
  by (simp add: broadcast_def sockets_of_def Let_def)

lemma distinct_sockets: "connections_ok conns \<Longrightarrow> distinct (sockets_of conns x)"
  by (auto simp: connections_ok_def sockets_of_def split: option.splits)

lemma connections_ok_broadcast: "connections_ok conns \<Longrightarrow> connections_ok (snd (broadcast send_ok x conns))"
  by (simp add: broadcast_def Let_def connections_ok_disconnects)

text \<open>
  A socket that accepts what it is sent receives the envelopes of the executions it watches, each once
  and in the order of the channel.
\<close>

lemma listener_delivers:
  assumes "connections_ok conns" and "send_ok ws"
  shows "inbox ws (fst (pubsub_listener send_ok msgs conns)) =
    map snd (filter (\<lambda>p. ws \<in> set (sockets_of conns (fst p))) (decoded msgs))"
  using assms
proof (induction send_ok msgs conns rule: pubsub_listener.induct)
  case (3 send_ok x msg msgs conns)
  let ?b = "broadcast send_ok x conns"
  have ok: "connections_ok (snd ?b)" using 3(2) by (rule connections_ok_broadcast)
  have same: "ws \<in> set (sockets_of (snd ?b) y) \<longleftrightarrow> ws \<in> set (sockets_of conns y)" for y
    using 3(3) by (simp add: broadcast_sockets)
  have "inbox ws (fst (pubsub_listener send_ok msgs (snd ?b))) =
      map snd (filter (\<lambda>p. ws \<in> set (sockets_of conns (fst p))) (decoded msgs))"
    using 3(1) [OF _ _ ok 3(3)] same by (cases ?b) simp
  moreover have "fst (pubsub_listener send_ok (Some (x, msg) # msgs) conns) =
      map (\<lambda>v. (v, msg)) (fst ?b) @ fst (pubsub_listener send_ok msgs (snd ?b))"
    by (simp add: Let_def split: prod.splits)
  moreover have "inbox ws (map (\<lambda>v. (v, msg)) (fst ?b)) = (if ws \<in> set (sockets_of conns x) then [msg] else [])"
    using 3(3) distinct_sockets [OF 3(2), of x] by (simp add: broadcast_sent inbox_sent)
  ultimately show ?case by (simp add: decoded_def del: pubsub_listener.simps)
qed (simp_all add: inbox_def decoded_def)

text \<open>
  The channel as Redis documents \<open>PUBLISH\<close>: a message is handed over in order.
\<close>

definition pubsub_publish :: "string \<Rightarrow> Envelope \<Rightarrow> (string \<times> Envelope) option list \<Rightarrow> unit result \<times> (string \<times> Envelope) option list" where
  "pubsub_publish x msg c = (Inr (), c @ [Some (x, msg)])"

lemma broadcast_envelopes_pubsub:
  "broadcast_envelopes pubsub_publish msgs c =
     c @ map (\<lambda>m. Some (the (ev_execution_id m), m)) (filter (\<lambda>m. ev_execution_id m \<noteq> None) msgs)"
  by (induction msgs arbitrary: c) (auto simp: safe_broadcast_def pubsub_publish_def)

lemma flush_delivers:
  assumes "connections_ok conns" and "send_ok ws"
    and "flush_events pubsub_publish s [] = (s', c)"
  shows "inbox ws (fst (pubsub_listener send_ok c conns)) =
    filter (\<lambda>m. \<exists>x. ev_execution_id m = Some x \<and> ws \<in> set (sockets_of conns x)) (staged s)"
proof -
  have c: "c = map (\<lambda>m. Some (the (ev_execution_id m), m)) (filter (\<lambda>m. ev_execution_id m \<noteq> None) (staged s))"
    using assms(3) by (simp add: flush_events_def broadcast_envelopes_pubsub)
  have "decoded c = map (\<lambda>m. (the (ev_execution_id m), m)) (filter (\<lambda>m. ev_execution_id m \<noteq> None) (staged s))"
    unfolding c by (simp add: decoded_def filter_map o_def)
  then show ?thesis
    unfolding listener_delivers [of conns send_ok ws, OF assms(1,2)]
    by (auto simp: filter_map o_def intro!: filter_cong)
qed

end
