(* ===== verification/Executor_Runtime.thy ===== *)
theory Executor_Runtime
  imports Executors Py_Text
begin

section \<open>The condition, HTTP and webhook executors\<close>

text \<open>
  The rest of \<open>app/services/executor_registry.py\<close>. The condition language \<open>path operator literal\<close> is
  written out, with \<open>json_loads\<close> for \<open>json.loads\<close> (\<open>None\<close> for a \<open>ValueError\<close>). What reaches the network is
  a parameter: \<open>urlparse\<close> (scheme and hostname of a URL), \<open>getaddrinfo\<close>, \<open>forbidden_ip\<close> (the
  classification of \<open>ipaddress\<close>, \<open>None\<close> for a malformed address) and \<open>httpx\<close>.
\<close>

subsection \<open>Comparing values\<close>

fun type_name :: "json \<Rightarrow> string" where
  "type_name JNull = ''NoneType''"
| "type_name (JBool b) = ''bool''"
| "type_name (JInt i) = ''int''"
| "type_name (JFloat f) = ''float''"
| "type_name (JStr s) = ''str''"
| "type_name (JArr xs) = ''list''"
| "type_name (JObj d) = ''dict''"

definition order_error :: "string \<Rightarrow> json \<Rightarrow> json \<Rightarrow> exn" where
  "order_error oper u v =
     TypeError (quoted oper @ '' not supported between instances of '' @ quoted (type_name u) @ '' and '' @ quoted (type_name v))"

text \<open>The answer of an order operator from the three comparisons; greater is separate because of NaN.\<close>

definition order_answer :: "string \<Rightarrow> bool \<Rightarrow> bool \<Rightarrow> bool \<Rightarrow> bool" where
  "order_answer oper lt eq gt =
     (if oper = ''<'' then lt else if oper = ''>'' then gt
      else if oper = ''<='' then lt \<or> eq else gt \<or> eq)"

text \<open>Lists compare at their first unequal elements, or by length.\<close>

fun py_order :: "string \<Rightarrow> json \<Rightarrow> json \<Rightarrow> bool result"
and py_order_list :: "string \<Rightarrow> json list \<Rightarrow> json list \<Rightarrow> bool result" where
  "py_order oper (JArr xs) v = (case v of JArr ys \<Rightarrow> py_order_list oper xs ys | _ \<Rightarrow> Inl (order_error oper (JArr xs) v))"
| "py_order oper (JStr s) v =
     (case v of JStr t \<Rightarrow> Inr (order_answer oper (str_less s t) (s = t) (str_less t s)) | _ \<Rightarrow> Inl (order_error oper (JStr s) v))"
| "py_order oper u v =
     (case (num_val u, num_val v) of
        (Some x, Some y) \<Rightarrow> Inr (order_answer oper (float_less x y) (float_eq x y) (float_less y x))
      | _ \<Rightarrow> Inl (order_error oper u v))"
| "py_order_list oper [] ys = Inr (order_answer oper (ys \<noteq> []) (ys = []) False)"
| "py_order_list oper (x # xs) [] = Inr (order_answer oper False False True)"
| "py_order_list oper (x # xs) (y # ys) = (if py_eq x y then py_order_list oper xs ys else py_order oper x y)"

subsection \<open>The condition language\<close>

text \<open>\<open>\w\<close> on characters with code points below 256.\<close>

definition is_word :: "char \<Rightarrow> bool" where
  "is_word c \<longleftrightarrow> (let n = of_char c :: nat in
     48 \<le> n \<and> n \<le> 57 \<or> 65 \<le> n \<and> n \<le> 90 \<or> n = 95 \<or> 97 \<le> n \<and> n \<le> 122 \<or>
     n \<in> {170, 178, 179, 181, 185, 186, 188, 189, 190} \<or> 192 \<le> n \<and> n \<noteq> 215 \<and> n \<noteq> 247)"

definition path_char :: "char \<Rightarrow> bool" where
  "path_char c \<longleftrightarrow> is_word c \<or> c = CHR ''.''"

text \<open>
  \<open>\s*(.+?)\s*$\<close> on what follows an operator: the text without the white space around it, on one line.
  When there is nothing but white space, the group backtracks into it and captures a character that is no
  line feed.
\<close>

definition match_right :: "string \<Rightarrow> string option" where
  "match_right rest =
     (let t = strip_chars is_space rest
      in if t \<noteq> [] then (if CHR 0x0A \<in> set t then None else Some t)
         else (case rev (filter (\<lambda>c. c \<noteq> CHR 0x0A) rest) of [] \<Rightarrow> None | c # _ \<Rightarrow> Some [c]))"

fun match_operator :: "string list \<Rightarrow> string \<Rightarrow> (string \<times> string) option" where
  "match_operator [] s = None"
| "match_operator (oper # ops) s =
     (if starts_with oper s
      then (case match_right (drop (length oper) s) of
              Some r \<Rightarrow> Some (oper, r)
            | None \<Rightarrow> match_operator ops s)
      else match_operator ops s)"

definition OPERATORS :: "string list" where
  "OPERATORS = [''=='', ''!='', ''>='', ''<='', ''>'', ''<'']"

definition match_comparison :: "string \<Rightarrow> (string \<times> string \<times> string) option" where
  "match_comparison s =
     (let s1 = dropWhile is_space s;
          path = takeWhile path_char s1;
          s2 = dropWhile is_space (dropWhile path_char s1)
      in if path = [] then None
         else map_option (\<lambda>(oper, r). (path, oper, r)) (match_operator OPERATORS s2))"

definition parse_literal :: "(string \<Rightarrow> json option) \<Rightarrow> string \<Rightarrow> json" where
  "parse_literal json_loads raw =
     (let t = strip_chars is_space raw
      in case json_loads t of
           Some v \<Rightarrow> v
         | None \<Rightarrow> JStr (strip_chars (\<lambda>c. c = CHR 0x27 \<or> c = CHR 0x22) t))"

definition compare_values :: "string \<Rightarrow> json \<Rightarrow> json \<Rightarrow> bool result" where
  "compare_values oper u v =
     (if oper = ''=='' then Inr (py_eq u v)
      else if oper = ''!='' then Inr (\<not> py_eq u v)
      else
        (case py_order oper u v of
           Inl (TypeError m) \<Rightarrow> Inl (app_error (''Type error evaluating condition: '' @ m) ''evaluation_error'')
         | r \<Rightarrow> r))"

definition evaluate_condition_expression :: "(string \<Rightarrow> json option) \<Rightarrow> string \<Rightarrow> jdict \<Rightarrow> bool result" where
  "evaluate_condition_expression json_loads expression data =
     (case match_comparison expression of
        None \<Rightarrow> Inl (app_error (''Unsupported condition expression: '' @ expression) ''invalid_expression'')
      | Some (left_path, oper, right_raw) \<Rightarrow>
          compare_values oper (resolve_path data left_path) (parse_literal json_loads right_raw))"

definition failed :: "string \<Rightarrow> ExecutorResult" where
  "failed msg = \<lparr>r_success = False, r_output = [], r_error = Some msg\<rparr>"

definition condition_execute :: "(string \<Rightarrow> json option) \<Rightarrow> ExecutionContext \<Rightarrow> ExecutorResult result" where
  "condition_execute json_loads cx =
     rbind (config_item (cx_config cx) ''expression'') (\<lambda>expression.
     case expression of
       JStr e \<Rightarrow>
         (case evaluate_condition_expression json_loads e (executor_data cx) of
            Inl (AppError m c st) \<Rightarrow> Inr (failed m)
          | Inl exc \<Rightarrow> Inl exc
          | Inr b \<Rightarrow>
              Inr \<lparr>r_success = True,
                   r_output = [(''result'', JBool b),
                     (''next_node'', dict_get (cx_config cx) (if b then ''true_path'' else ''false_path''))],
                   r_error = None\<rparr>)
     | _ \<Rightarrow> Inl (TypeError ''expected string or bytes-like object''))"

subsection \<open>Outbound requests\<close>

record network =
  urlparse :: "string \<Rightarrow> string \<times> string option"
  getaddrinfo :: "string \<Rightarrow> string list result"
  forbidden_ip :: "string \<Rightarrow> bool option"

definition lower :: "string \<Rightarrow> string" where
  "lower s = map (\<lambda>c. let n = of_char c :: nat in
     if 65 \<le> n \<and> n \<le> 90 \<or> 192 \<le> n \<and> n \<le> 222 \<and> n \<noteq> 215 then char_of (n + 32) else c) s"

text \<open>\<open>str.upper\<close> below code point 256; the two letters whose capital lies above it stay as they are.\<close>

definition upper_char :: "char \<Rightarrow> string" where
  "upper_char c =
     (let n = of_char c :: nat in
      if n = 223 then ''SS''
      else if 97 \<le> n \<and> n \<le> 122 \<or> 224 \<le> n \<and> n \<le> 254 \<and> n \<noteq> 247 then [char_of (n - 32)]
      else [c])"

definition upper :: "string \<Rightarrow> string" where
  "upper s = concat (map upper_char s)"

definition ssrf_blocked :: "string \<Rightarrow> exn" where
  "ssrf_blocked msg = app_error msg ''ssrf_blocked''"

definition check_address :: "network \<Rightarrow> string \<Rightarrow> unit \<Rightarrow> unit result" where
  "check_address net ip_str u =
     (case forbidden_ip net ip_str of
        None \<Rightarrow> Inl (ssrf_blocked (''Invalid IP address format: '' @ ip_str))
      | Some b \<Rightarrow>
          if b then Inl (ssrf_blocked (''Access to private/reserved IP address ('' @ ip_str @ '') is forbidden (SSRF Protection)''))
          else Inr ())"

definition validate_outbound_url :: "network \<Rightarrow> json \<Rightarrow> unit result" where
  "validate_outbound_url net v =
     (case v of
        JStr url \<Rightarrow>
          (let (scheme, host) = urlparse net url in
           if scheme \<notin> {''http'', ''https''} then Inl (config_error ''URL scheme must be http or https'')
           else
             (case host of
                None \<Rightarrow> Inl (config_error ''Invalid URL: missing hostname'')
              | Some hostname \<Rightarrow>
                  if hostname = [] then Inl (config_error ''Invalid URL: missing hostname'')
                  else if lower hostname \<in> {''localhost'', ''127.0.0.1'', ''::1'', ''0.0.0.0''}
                  then Inl (ssrf_blocked ''Access to local hostnames is forbidden (SSRF Protection)'')
                  else
                    (case getaddrinfo net hostname of
                       Inl e \<Rightarrow> Inl (ssrf_blocked (''Failed to resolve hostname '' @ quoted hostname @ '': '' @ exn_str e))
                     | Inr addrs \<Rightarrow> rfold (check_address net) addrs ())))
      | _ \<Rightarrow> Inl (config_error ''URL must be a string''))"

record http_call =
  hc_method :: string
  hc_url :: string
  hc_headers :: jdict
  hc_params :: json
  hc_json :: json
  hc_timeout :: json

record http_reply =
  hr_status_code :: int
  hr_text :: string
  hr_json :: "json option"

datatype http_failure = HTTPError string | OtherFailure exn

type_synonym httpx = "http_call \<Rightarrow> http_failure + http_reply"

text \<open>
  \<open>dict(config.get("headers") or {})\<close>: a dictionary, or a sequence of pairs of a key and a value. A key
  that is hashable but no string is refused by \<open>httpx\<close>; here it is refused when the dictionary is made.
\<close>

fun elements :: "json \<Rightarrow> json list option" where
  "elements (JArr xs) = Some xs"
| "elements (JStr s) = Some (map (\<lambda>c. JStr [c]) s)"
| "elements (JObj d) = Some (map (\<lambda>(k, v). JStr k) d)"
| "elements v = None"

definition header_key :: "json \<Rightarrow> string result" where
  "header_key v =
     (case v of
        JStr k \<Rightarrow> Inr k
      | JArr xs \<Rightarrow> Inl (TypeError (''unhashable type: '' @ quoted ''list''))
      | JObj d \<Rightarrow> Inl (TypeError (''unhashable type: '' @ quoted ''dict''))
      | _ \<Rightarrow> Inl (AttributeError (quoted (type_name v) @ '' object has no attribute '' @ quoted ''encode'')))"

definition header_pair :: "nat \<times> json \<Rightarrow> jdict \<Rightarrow> jdict result" where
  "header_pair iv d =
     (let element = ''dictionary update sequence element #'' @ int_str (int (fst iv)) in
      case elements (snd iv) of
        None \<Rightarrow> Inl (TypeError (''cannot convert '' @ element @ '' to a sequence''))
      | Some [k, v] \<Rightarrow> rbind (header_key k) (\<lambda>s. Inr (AList.update s v d))
      | Some xs \<Rightarrow> Inl (ValueError (element @ '' has length '' @ int_str (int (length xs)) @ ''; 2 is required'')))"

definition header_dict :: "json \<Rightarrow> jdict result" where
  "header_dict v =
     (if \<not> truthy v then Inr []
      else
        (case v of
           JObj d \<Rightarrow> Inr d
         | _ \<Rightarrow>
             (case elements v of
                None \<Rightarrow> Inl (TypeError (quoted (type_name v) @ '' object is not iterable''))
              | Some xs \<Rightarrow> rfold header_pair (enumerate 0 xs) [])))"

definition request_headers :: "ExecutionContext \<Rightarrow> jdict result" where
  "request_headers cx =
     rbind (header_dict (dict_get (cx_config cx) ''headers'')) (\<lambda>h.
       Inr (if cx_idempotency_key cx \<noteq> [] \<and> map_of h ''Idempotency-Key'' = None
            then AList.update ''Idempotency-Key'' (JStr (cx_idempotency_key cx)) h else h))"

definition config_default :: "jdict \<Rightarrow> string \<Rightarrow> json \<Rightarrow> json" where
  "config_default config k d = (case map_of config k of None \<Rightarrow> d | Some v \<Rightarrow> v)"

definition http_error_text :: "http_reply \<Rightarrow> string" where
  "http_error_text r = ''HTTP '' @ int_str (hr_status_code r) @ '': '' @ take 200 (hr_text r)"

text \<open>The part the two executors share: the guard, the headers, the call, the status.\<close>

definition outbound ::
  "network \<Rightarrow> httpx \<Rightarrow> json \<Rightarrow> ExecutionContext \<Rightarrow> (jdict \<Rightarrow> http_call result) \<Rightarrow> (http_reply \<Rightarrow> jdict) \<Rightarrow> ExecutorResult result" where
  "outbound net httpx url cx call result_output =
     (case validate_outbound_url net url of
        Inl (AppError m c st) \<Rightarrow> Inr (failed (''SSRF Blocked: '' @ m))
      | Inl e \<Rightarrow> Inl e
      | Inr _ \<Rightarrow>
          rbind (request_headers cx) (\<lambda>headers.
          rbind (call headers) (\<lambda>rq.
          case httpx rq of
            Inl (HTTPError m) \<Rightarrow> Inr (failed m)
          | Inl (OtherFailure e) \<Rightarrow> Inl e
          | Inr r \<Rightarrow>
              if hr_status_code r \<ge> 400 then Inr (failed (http_error_text r))
              else Inr \<lparr>r_success = True, r_output = result_output r, r_error = None\<rparr>)))"

definition str_value :: "json \<Rightarrow> string" where
  "str_value v = (case v of JStr s \<Rightarrow> s | _ \<Rightarrow> [])"

definition http_execute :: "network \<Rightarrow> httpx \<Rightarrow> ExecutionContext \<Rightarrow> ExecutorResult result" where
  "http_execute net httpx cx =
     rbind (config_item (cx_config cx) ''url'') (\<lambda>url.
       outbound net httpx url cx
         (\<lambda>headers.
            case config_default (cx_config cx) ''method'' (JStr ''GET'') of
              JStr m \<Rightarrow>
                Inr \<lparr>hc_method = upper m, hc_url = str_value url, hc_headers = headers,
                     hc_params = dict_get (cx_config cx) ''query'', hc_json = dict_get (cx_config cx) ''body'',
                     hc_timeout = config_default (cx_config cx) ''timeout_seconds'' (JInt 10)\<rparr>
            | v \<Rightarrow> Inl (AttributeError (quoted (type_name v) @ '' object has no attribute '' @ quoted ''upper'')))
         (\<lambda>r. [(''status_code'', JInt (hr_status_code r)),
               (''body'', case hr_json r of None \<Rightarrow> JStr (hr_text r) | Some b \<Rightarrow> b)]))"

definition webhook_execute :: "network \<Rightarrow> httpx \<Rightarrow> ExecutionContext \<Rightarrow> ExecutorResult result" where
  "webhook_execute net httpx cx =
     rbind (config_item (cx_config cx) ''target_url'') (\<lambda>url.
       outbound net httpx url cx
         (\<lambda>headers.
            Inr \<lparr>hc_method = ''POST'', hc_url = str_value url, hc_headers = headers, hc_params = JNull,
                 hc_json = dict_get (cx_config cx) ''payload_template'',
                 hc_timeout = config_default (cx_config cx) ''timeout_seconds'' (JInt 10)\<rparr>)
         (\<lambda>r. [(''status_code'', JInt (hr_status_code r))]))"

subsection \<open>The default registry\<close>

definition default_registry :: "(string \<Rightarrow> json option) \<Rightarrow> network \<Rightarrow> httpx \<Rightarrow> ExecutorRegistry" where
  "default_registry json_loads net httpx =
     fold register
       [\<lparr>ex_type = ''http'', validate_config = http_validate_config, execute = http_execute net httpx\<rparr>,
        \<lparr>ex_type = ''delay'', validate_config = delay_validate_config, execute = delay_execute\<rparr>,
        \<lparr>ex_type = ''condition'', validate_config = condition_validate_config, execute = condition_execute json_loads\<rparr>,
        \<lparr>ex_type = ''transform'', validate_config = transform_validate_config, execute = transform_execute\<rparr>,
        \<lparr>ex_type = ''webhook'', validate_config = webhook_validate_config, execute = webhook_execute net httpx\<rparr>,
        \<lparr>ex_type = ''notification'', validate_config = notification_validate_config, execute = notification_execute\<rparr>] []"

subsection \<open>Facts\<close>

lemma match_operator_in: "match_operator ops s = Some (oper, r) \<Longrightarrow> oper \<in> set ops"
  by (induction ops) (auto split: if_splits option.splits)

lemma match_comparison_operator: "match_comparison s = Some (path, oper, r) \<Longrightarrow> oper \<in> set OPERATORS"
  by (auto simp: match_comparison_def Let_def split: if_splits dest: match_operator_in)

lemma rfold_check_address:
  "rfold (check_address net) addrs () = Inr u \<Longrightarrow> a \<in> set addrs \<Longrightarrow> forbidden_ip net a = Some False"
proof (induction addrs)
  case (Cons x xs)
  then show ?case by (auto simp: rbind_eq_Inr check_address_def split: option.splits if_splits)
qed simp

lemma validate_outbound_url_Inr:
  assumes "validate_outbound_url net v = Inr u"
  obtains url scheme hostname addrs where "v = JStr url" and "urlparse net url = (scheme, Some hostname)"
    and "scheme \<in> {''http'', ''https''}" and "lower hostname \<notin> {''localhost'', ''127.0.0.1'', ''::1'', ''0.0.0.0''}"
    and "getaddrinfo net hostname = Inr addrs" and "\<And>a. a \<in> set addrs \<Longrightarrow> forbidden_ip net a = Some False"
proof -
  obtain url where v: "v = JStr url" using assms by (auto simp: validate_outbound_url_def split: json.splits)
  obtain scheme host where p: "urlparse net url = (scheme, host)" by (cases "urlparse net url")
  obtain hostname where h: "host = Some hostname" using assms v p by (auto simp: validate_outbound_url_def split: if_splits option.splits)
  obtain addrs where a: "getaddrinfo net hostname = Inr addrs" "rfold (check_address net) addrs () = Inr u"
    using assms v p h by (auto simp: validate_outbound_url_def split: if_splits sum.splits)
  show thesis
    by (rule that [OF v p [unfolded h] _ _ a(1)])
      (use assms v p h rfold_check_address [OF a(2)] in \<open>auto simp: validate_outbound_url_def split: if_splits\<close>)
qed

text \<open>A call of \<open>httpx\<close> decides the result only if the URL passed the guard.\<close>

lemma outbound_guarded:
  assumes "outbound net httpx1 url cx call res \<noteq> outbound net httpx2 url cx call res"
  shows "validate_outbound_url net url = Inr ()"
  using assms by (cases "validate_outbound_url net url") (auto simp: outbound_def split: exn.splits)

lemma request_headers_key:
  assumes "request_headers cx = Inr h" and "cx_idempotency_key cx \<noteq> []"
  shows "map_of h ''Idempotency-Key'' \<noteq> None"
proof -
  from assms(1) obtain d where d: "h = (if cx_idempotency_key cx \<noteq> [] \<and> map_of d ''Idempotency-Key'' = None
      then AList.update ''Idempotency-Key'' (JStr (cx_idempotency_key cx)) d else d)"
    by (auto simp: request_headers_def rbind_eq_Inr)
  show ?thesis using assms(2) by (cases "map_of d ''Idempotency-Key''") (simp_all add: d update_conv')
qed

lemma py_order_error:
  "py_order oper u v = Inl e \<Longrightarrow> \<exists>m. e = TypeError m"
  "py_order_list oper xs ys = Inl e \<Longrightarrow> \<exists>m. e = TypeError m"
  by (induction oper u v and oper xs ys rule: py_order_py_order_list.induct)
    (auto simp: order_error_def split: json.splits option.splits if_splits)

lemma compare_values_error:
  assumes "compare_values oper u v = Inl e"
  shows "\<exists>m. e = AppError m ''evaluation_error'' 400"
proof -
  obtain m where "py_order oper u v = Inl (TypeError m)"
    using assms py_order_error(1) [of oper u v] by (auto simp: compare_values_def split: if_splits sum.splits)
  then show ?thesis using assms by (auto simp: compare_values_def app_error_def split: if_splits)
qed

lemma evaluate_condition_error:
  assumes "evaluate_condition_expression json_loads expression data = Inl e"
  shows "\<exists>m c. e = AppError m c 400"
  using assms compare_values_error
  by (fastforce simp: evaluate_condition_expression_def app_error_def split: option.splits)

lemma condition_validated:
  assumes "condition_validate_config config = Inr u"
  obtains expr where "map_of config ''expression'' = Some (JStr expr)" and "map_of config ''true_path'' \<noteq> None"
    and "map_of config ''false_path'' \<noteq> None"
  using assms by (auto simp: condition_validate_config_def rbind_eq_Inr split: option.splits json.splits if_splits)

text \<open>A condition node that passed validation never raises: it takes a branch or fails.\<close>

lemma condition_total:
  assumes "condition_validate_config (cx_config cx) = Inr u"
  shows "\<exists>r. condition_execute json_loads cx = Inr r \<and>
    (r_success r \<longrightarrow> (\<exists>b. r_output r = [(''result'', JBool b),
       (''next_node'', dict_get (cx_config cx) (if b then ''true_path'' else ''false_path''))])) \<and>
    (\<not> r_success r \<longrightarrow> r_error r \<noteq> None)"
proof -
  obtain expr where e: "map_of (cx_config cx) ''expression'' = Some (JStr expr)" using assms by (rule condition_validated)
  show ?thesis
  proof (cases "evaluate_condition_expression json_loads expr (executor_data cx)")
    case (Inl err)
    then obtain m c where "err = AppError m c 400" using evaluate_condition_error by blast
    then show ?thesis using Inl e by (simp add: condition_execute_def config_item_def failed_def)
  next
    case (Inr b)
    then show ?thesis using e by (simp add: condition_execute_def config_item_def)
  qed
qed

end
