(* ===== verification/Samples_Done.thy ===== *)
theory Samples_Done
  imports Samples Publishing Notifications Executor_Runtime
begin

section \<open>A finished sample run\<close>

text \<open>
  The history of a workflow of one node, from its creation to the end of its execution, and the worlds
  in which the samples live.
\<close>

definition solo :: WorkflowDefinition where
  "solo = \<lparr>d_name = ''solo'', d_description = [], nodes = [sample_node ''a''], edges = [],
     default_retry_policy = Some \<lparr>max_attempts = 1, initial_interval = 1, max_interval = 60, backoff_multiplier = 2\<rparr>\<rparr>"

lemma validate_solo: "validate_workflow solo sample_registry = Inr \<lparr>valid = True, root_nodes = [''a''], topological_order = [''a'']\<rparr>"
  by code_simp

lemma valid_solo: "valid_WorkflowDefinition solo"
  by (simp add: valid_WorkflowDefinition_def valid_Node_def valid_RetryPolicy_def solo_def sample_node_def)

definition solo_workflow :: Workflow where
  "solo_workflow = new_workflow 1 7 ''solo'' [] 1000"

definition solo_version :: WorkflowVersion where
  "solo_version = new_version sample_repr 2 1 1 solo 1000"

lemma solo_rows [simp]:
  "wf_id solo_workflow = 1" "wf_owner_api_key_id solo_workflow = 7"
  "wv_id solo_version = 2" "wv_workflow_id solo_version = 1" "wv_definition solo_version = solo"
  by (simp_all add: solo_workflow_def solo_version_def new_workflow_def)

definition solo_db :: database where
  "solo_db = keyed_db\<lparr>workflows := [solo_workflow], workflow_versions := [solo_version]\<rparr>"

lemma solo_db_simps [simp]:
  "workflows solo_db = [solo_workflow]" "workflow_versions solo_db = [solo_version]" "executions solo_db = []"
  "node_executions solo_db = []" "dead_letter_jobs solo_db = []"
  by (simp_all add: solo_db_def keyed_db_def empty_database_def)

lemma solo_created:
  "\<exists>s. create_workflow sample_repr sample_registry ''solo'' [] solo 7 (sample_session keyed_db 1) =
     Inr ((solo_workflow, solo_version), s) \<and> sdb s = solo_db"
  by (simp add: solo_db_def create_workflow_def validate_solo keyed_db_def new_uuid_def empty_database_def modify_db_def
      sample_key_def solo_workflow_def solo_version_def new_workflow_def Let_def)

definition solo_execution :: Execution where
  "solo_execution = set_execution_status X_RUNNING 1000 (new_execution 10 solo_workflow solo_version sample_command)"

definition solo_row :: NodeExecution where
  "solo_row = new_node 11 10 solo (sample_node ''a'')"

definition solo_running :: NodeExecution where
  "solo_running = set_node_status RUNNING 1000 (set_node_status QUEUED 1000 solo_row)"

definition solo_done :: NodeExecution where
  "solo_done = set_node_status SUCCEEDED 1000 (set_output [(''sent'', JBool True)] solo_running)"

lemma solo_row_simps [simp]:
  "ne_id solo_row = 11" "ne_execution_id solo_row = 10" "ne_node_id solo_row = ''a''" "ne_status solo_row = PENDING"
  "ne_id solo_running = 11" "ne_execution_id solo_running = 10" "ne_node_id solo_running = ''a''" "ne_status solo_running = RUNNING"
  "ne_id solo_done = 11" "ne_execution_id solo_done = 10" "ne_node_id solo_done = ''a''" "ne_status solo_done = SUCCEEDED"
  by (simp_all add: solo_row_def solo_running_def solo_done_def set_output_def)

lemma solo_execution_simps [simp]:
  "ex_id solo_execution = 10" "ex_status solo_execution = X_RUNNING" "ex_workflow_version_id solo_execution = 2"
  "ex_workflow_id solo_execution = 1"
  by (simp_all add: solo_execution_def new_execution_def)

definition solo_started :: database where
  "solo_started = sdb (snd (projr (start_unit sample_registry sample_command 7 (sample_session solo_db 10))))"

lemma solo_nodes: "nodes solo = [sample_node ''a'']" "edges solo = []"
  by (simp_all add: solo_def)

lemma solo_started_eq:
  "\<exists>s. start_unit sample_registry sample_command 7 (sample_session solo_db 10) =
      Inr ((solo_execution, [set_node_status QUEUED 1000 solo_row]), s) \<and> sdb s = solo_started \<and>
     executions solo_started = [solo_execution] \<and> node_executions solo_started = [set_node_status QUEUED 1000 solo_row] \<and>
     dead_letter_jobs solo_started = [] \<and> workflow_versions solo_started = [solo_version]"
  by (simp add: solo_started_def start_unit_def first_row_def validate_solo new_uuid_def solo_nodes execution_started_def
      transition_execution_status_def load_execution_def Let_def transition_node_status_def sample_command_def
      solo_execution_def solo_row_def)

lemma solo_started_simps [simp]:
  "executions solo_started = [solo_execution]" "node_executions solo_started = [set_node_status QUEUED 1000 solo_row]"
  "dead_letter_jobs solo_started = []" "workflow_versions solo_started = [solo_version]"
  using solo_started_eq by auto

definition solo_claimed :: database where
  "solo_claimed = sdb (snd (projr (claim_unit sample_job (sample_session solo_started 20))))"

lemma solo_claimed_eq:
  "\<exists>s. claim_unit sample_job (sample_session solo_started 20) = Inr (Some solo_running, s) \<and> sdb s = solo_claimed \<and>
     executions solo_claimed = [solo_execution] \<and> node_executions solo_claimed = [solo_running] \<and>
     dead_letter_jobs solo_claimed = [] \<and> workflow_versions solo_claimed = [solo_version]"
  by (simp add: solo_claimed_def claim_unit_def sample_job_def is_terminal_def TERMINAL_NODE_STATUSES_def
      transition_node_status_def Let_def node_started_def solo_running_def)

lemma solo_claimed_simps [simp]:
  "executions solo_claimed = [solo_execution]" "node_executions solo_claimed = [solo_running]"
  "dead_letter_jobs solo_claimed = []" "workflow_versions solo_claimed = [solo_version]"
  using solo_claimed_eq by auto

definition solo_context :: job_context where
  "solo_context = projr (load_context sample_registry solo_running (sample_session solo_claimed 30))"

lemma solo_load_eq:
  "load_context sample_registry solo_running (sample_session solo_claimed 30) = Inr solo_context \<and>
   jc_execution solo_context = solo_execution \<and> jc_definition solo_context = solo"
  by (simp add: solo_context_def load_context_def Let_def solo_nodes registry_get_def sample_registry_def register_def
      notification_executor_def)

definition solo_finished :: database where
  "solo_finished = sdb (snd (projr (complete_unit solo_context 11 sample_result
     ((sample_session solo_claimed 30)\<lparr>pinned := [solo_execution]\<rparr>))))"

definition solo_succeeded :: Execution where
  "solo_succeeded = set_execution_status X_SUCCEEDED 1000 solo_execution"

lemma solo_finished_eq:
  "\<exists>r s. complete_unit solo_context 11 sample_result ((sample_session solo_claimed 30)\<lparr>pinned := [solo_execution]\<rparr>) = Inr (r, s) \<and>
     sdb s = solo_finished \<and> executions solo_finished = [solo_succeeded] \<and> node_executions solo_finished = [solo_done]"
proof -
  have c: "jc_execution solo_context = solo_execution" "jc_definition solo_context = solo" using solo_load_eq by simp_all
  have ch: "child_ids solo ''a'' = []" by (simp add: child_ids_def solo_nodes)
  show ?thesis
    by (simp add: solo_finished_def complete_unit_def execution_rows_def Let_def record_result_def sample_result_def c
        transition_node_status_def node_succeeded_def queue_downstream_nodes_def ch finish_execution_def is_terminal_def
        TERMINAL_NODE_STATUSES_def solo_done_def held_execution_def transition_execution_status_def load_execution_def
        solo_succeeded_def)
qed

lemma solo_finished_simps [simp]:
  "executions solo_finished = [solo_succeeded]" "node_executions solo_finished = [solo_done]"
  "ex_id solo_succeeded = 10" "ex_status solo_succeeded = X_SUCCEEDED"
  using solo_finished_eq by (auto simp: solo_succeeded_def)

lemma solo_reachable: "reachable sample_repr sample_registry (solo_db, {})"
proof -
  obtain s where "create_workflow sample_repr sample_registry ''solo'' [] solo 7 (sample_session keyed_db 1) =
     Inr ((solo_workflow, solo_version), s)" and s: "sdb s = solo_db" using solo_created by blast
  then have "sys_step sample_repr sample_registry (sdb (sample_session keyed_db 1), {}) (sdb s, {})"
    by (intro sys_step.create [OF _ valid_solo]) (simp_all add: keyed_db_def empty_database_def)
  then show ?thesis using reachable.step [OF keyed_reachable] s by simp
qed

abbreviation solo_activity :: activity where
  "solo_activity \<equiv> \<lparr>a_node = ne_id solo_running, a_context = solo_context\<rparr>"

lemma solo_started_reachable: "reachable sample_repr sample_registry (solo_started, {})"
proof -
  obtain s where "start_unit sample_registry sample_command 7 (sample_session solo_db 10) =
    Inr ((solo_execution, [set_node_status QUEUED 1000 solo_row]), s)" and s: "sdb s = solo_started" using solo_started_eq by blast
  then have "sys_step sample_repr sample_registry (sdb (sample_session solo_db 10), {}) (sdb s, {})"
    by (intro sys_step.start) (simp_all add: held_ids_def fresh_ids_def solo_nodes upt_conv_Cons)
  then show ?thesis using reachable.step [OF solo_reachable] s by simp
qed

lemma solo_loaded_reachable: "reachable sample_repr sample_registry (solo_claimed, {solo_activity})"
proof -
  let ?r = "reachable sample_repr sample_registry"
  have "?r (solo_started, {})" by (rule solo_started_reachable)
  moreover obtain s where "claim_unit sample_job (sample_session solo_started 20) = Inr (Some solo_running, s)" and s: "sdb s = solo_claimed"
    using solo_claimed_eq by blast
  then have "sys_step sample_repr sample_registry (sdb (sample_session solo_started 20), {}) (sdb s, {})" by (intro sys_step.claim)
  ultimately have "?r (solo_claimed, {})" using reachable.step s by fastforce
  moreover have "sys_step sample_repr sample_registry (sdb (sample_session solo_claimed 30), {}) (sdb (sample_session solo_claimed 30), insert solo_activity {})"
    using solo_load_eq by (intro sys_step.load) simp
  ultimately show ?thesis using reachable.step by fastforce
qed

lemma solo_complete_reachable:
  assumes "complete_unit solo_context 11 res ((sample_session solo_claimed 30)\<lparr>pinned := [solo_execution]\<rparr>) = Inr (r, s')"
  shows "reachable sample_repr sample_registry (sdb s', {})"
proof -
  let ?s = "(sample_session solo_claimed 30)\<lparr>pinned := [solo_execution]\<rparr>"
  have "sys_step sample_repr sample_registry (sdb ?s, {solo_activity}) (sdb s', {solo_activity} - {solo_activity})"
    using solo_load_eq assms by (intro sys_step.complete [where res = res]) simp_all
  then show ?thesis using reachable.step [OF solo_loaded_reachable] by simp
qed

lemma solo_finished_reachable: "reachable sample_repr sample_registry (solo_finished, {})"
  using solo_finished_eq solo_complete_reachable by metis

text \<open>The same execution when its only attempt fails.\<close>

definition solo_dead :: database where
  "solo_dead = sdb (snd (projr (complete_unit solo_context 11 (failed ''boom'')
     ((sample_session solo_claimed 30)\<lparr>pinned := [solo_execution]\<rparr>))))"

lemma solo_dead_eq:
  "\<exists>r s. complete_unit solo_context 11 (failed ''boom'') ((sample_session solo_claimed 30)\<lparr>pinned := [solo_execution]\<rparr>) = Inr (r, s) \<and>
     sdb s = solo_dead \<and> node_executions solo_dead = [dead_row (Some ''boom'') 1000 solo_running] \<and>
     executions solo_dead = [set_execution_status X_FAILED 1000 solo_execution] \<and> workflows solo_dead = workflows solo_claimed"
proof -
  let ?s = "(sample_session solo_claimed 30)\<lparr>pinned := [solo_execution]\<rparr>"
  have c: "jc_execution solo_context = solo_execution" "jc_definition solo_context = solo" using solo_load_eq by simp_all
  have j: "job_ok solo_context solo_running ?s"
    using act_job_ok [of ?s solo_activity solo_running] sys_ok_reachable [OF solo_loaded_reachable] c
    by (simp add: sys_ok_def in_execution_rows)
  have last: "\<not> ne_attempt solo_running < ne_max_attempts solo_running"
    by (simp add: solo_running_def solo_row_def resolve_retry_policy_def solo_def sample_node_def)
  have h: "held_execution (jc_execution solo_context) ?s = solo_execution" by (simp add: held_execution_def c)
  from complete_dead [OF j _ last refl, of "failed ''boom''", unfolded h] show ?thesis
    by (auto simp: solo_dead_def failed_def)
qed

lemma solo_dead_simps [simp]:
  "node_executions solo_dead = [dead_row (Some ''boom'') 1000 solo_running]"
  "executions solo_dead = [set_execution_status X_FAILED 1000 solo_execution]"
  using solo_dead_eq by auto

lemma solo_dead_reachable: "reachable sample_repr sample_registry (solo_dead, {})"
  using solo_dead_eq solo_complete_reachable by metis

lemma solo_workflows [simp]: "workflows solo_started = [solo_workflow]" "workflows solo_dead = [solo_workflow]"
proof -
  show w: "workflows solo_started = [solo_workflow]"
    by (simp add: solo_started_def start_unit_def first_row_def validate_solo new_uuid_def solo_nodes execution_started_def
      transition_execution_status_def load_execution_def Let_def transition_node_status_def sample_command_def)
  have "workflows solo_claimed = workflows solo_started"
    by (simp add: solo_claimed_def claim_unit_def sample_job_def is_terminal_def TERMINAL_NODE_STATUSES_def
      transition_node_status_def Let_def node_started_def)
  then show "workflows solo_dead = [solo_workflow]" using solo_dead_eq w by auto
qed

subsection \<open>Worlds\<close>

definition sample_world :: "database \<Rightarrow> nat \<Rightarrow> (jdict list, (string \<times> Envelope) option list) world" where
  "sample_world db k = \<lparr>durable = db, queue = [], channel = [], clock = 1000, ids = (\<lambda>k. word_of_nat k), ids_used = k\<rparr>"

lemma sample_world_simps [simp]:
  "durable (sample_world db k) = db" "queue (sample_world db k) = []" "channel (sample_world db k) = []"
  "open_session (sample_world db k) = sample_session db k"
  by (simp_all add: sample_world_def open_session_def sample_session_def)

text \<open>The job of the root, run by the notification executor: it returns, and its children are queued and published.\<close>

lemma publish_nodes_memory: "\<exists>s' q'. publish_nodes memory_publish x v ns s q = (Inr s', q')"
  by (induction ns arbitrary: s q) (simp_all add: memory_publish_def)

lemma publish_phase_memory: "\<exists>w'. publish_phase memory_publish ws_publish x v ns s w = (Inr (), w')"
proof -
  obtain s' q' where "publish_nodes memory_publish x v ns (resume s w) (queue w) = (Inr s', q')" using publish_nodes_memory by blast
  then show ?thesis by (simp add: publish_phase_def flush_events_def)
qed

lemma publish_phase_memory_durable:
  assumes "publish_phase memory_publish ws_publish x v ns s w = (r, w')"
  shows "durable w' = durable w"
proof -
  have "publish_nodes memory_publish x v ns s q = (Inr s', q') \<Longrightarrow> sdb s' = sdb s" for s s' q q'
    by (induction ns arbitrary: s q) (auto simp: memory_publish_def store_message_id_def)
  then show ?thesis using assms by (auto simp: publish_phase_def flush_events_sdb split: prod.splits sum.splits)
qed

lemma sample_load:
  assumes "sdb s = claimed_db"
  shows "\<exists>jc. load_context sample_registry claimed_row s = Inr jc \<and> jc_execution jc = sample_execution \<and> jc_definition jc = diamond \<and>
    r_success (run_executor jc) \<and> condition_skip_ids (jc_node_def jc) (run_executor jc) = Inr []"
  by (simp add: load_context_def assms Let_def diamond_nodes registry_get_def sample_registry_def register_def
      notification_executor_def run_executor_def notification_execute_def condition_skip_ids_def)

lemma sample_job_run:
  "\<exists>w'. process_job sample_registry memory_publish pubsub_publish (serialize_job_payload sample_job) (sample_world started_db 20) = (Inr (), w')"
proof -
  obtain s where c: "claim_unit sample_job (sample_session started_db 20) = Inr (Some claimed_row, s)" and s: "sdb s = claimed_db"
    using claimed_eq by blast
  obtain s1 ch where fl: "flush_events pubsub_publish s [] = (s1, ch)" by (cases "flush_events pubsub_publish s []")
  let ?w1 = "(commit_session s1 (sample_world started_db 20))\<lparr>channel := ch\<rparr>"
  let ?s2 = "resume s1 ?w1"
  have s2: "sdb ?s2 = claimed_db" using s flush_events_sdb [OF fl] by (simp add: resume_def commit_session_def)
  obtain jc where l: "load_context sample_registry claimed_row ?s2 = Inr jc" "jc_execution jc = sample_execution" "jc_definition jc = diamond"
    "r_success (run_executor jc)" "condition_skip_ids (jc_node_def jc) (run_executor jc) = Inr []" using sample_load [OF s2] by blast
  let ?s3 = "?s2\<lparr>pinned := [jc_execution jc]\<rparr>" and ?a = "\<lparr>a_node = ne_id claimed_row, a_context = jc\<rparr>"
  have ok: "db_ok (sdb ?s2)" using sys_ok_reachable [OF claimed_reachable] s2 by (simp add: sys_ok_def)
  have "job_ok jc claimed_row ?s3"
    using act_job_ok [of ?s3 ?a claimed_row] act_ok_load [OF ok l(1)] ok s2 l by (simp add: in_execution_rows)
  from complete_success [OF this l(4) disjI2 [OF l(5)] refl refl]
  obtain ns s4 where d: "complete_unit jc (ne_id claimed_row) (run_executor jc) ?s3 = Inr (Some ns, s4)" by blast
  obtain w' where "publish_phase memory_publish pubsub_publish (ex_id (jc_execution jc)) (ex_workflow_version_id (jc_execution jc)) ns s4
      (commit_session s4 ?w1) = (Inr (), w')" using publish_phase_memory by blast
  then show ?thesis using c fl l(1) d by (simp add: process_job_def deserialize_serialize)
qed

text \<open>The only job of the other sample: it returns and publishes nothing.\<close>

lemma solo_start:
  "\<exists>d w. start_execution sample_registry memory_publish pubsub_publish sample_command 7 (sample_world solo_db 10) = (Inr d, w) \<and>
     durable w = solo_started \<and> map memory_job (queue w) = [node_job 10 2 (set_node_status QUEUED 1000 solo_row)]"
proof -
  let ?n = "set_node_status QUEUED 1000 solo_row"
  obtain s where s: "start_unit sample_registry sample_command 7 (sample_session solo_db 10) = Inr ((solo_execution, [?n]), s)"
    "sdb s = solo_started" using solo_started_eq by blast
  obtain w where w: "publish_phase memory_publish pubsub_publish (ex_id solo_execution) (ex_workflow_version_id solo_execution)
      [?n] s (commit_session s (sample_world solo_db 10)) = (Inr (), w)" using publish_phase_memory by blast
  have d: "durable w = solo_started" using publish_phase_memory_durable [OF w] s(2) by simp
  then have "\<not> isl (get_execution (ex_id solo_execution) 7 (durable w))"
    by (auto simp: get_execution_def get_node_executions_def owned_def)
  moreover have "map memory_job (queue w) = [node_job 10 2 ?n]"
    using memory.publish_phase_jobs [OF w] by auto
  ultimately show ?thesis using s(1) w d by (cases "get_execution (ex_id solo_execution) 7 (durable w)") (simp_all add: start_execution_def)
qed

lemma solo_load:
  assumes "executions (sdb s) = [solo_execution]" and "workflow_versions (sdb s) = [solo_version]" and "ne_execution_id n = 10" and "ne_node_id n = ''a''"
  shows "\<exists>jc. load_context sample_registry n s = Inr jc \<and> jc_execution jc = solo_execution \<and> jc_definition jc = solo \<and> r_success (run_executor jc)"
  by (simp add: load_context_def assms Let_def solo_nodes registry_get_def sample_registry_def register_def
      notification_executor_def run_executor_def notification_execute_def)

lemma solo_job_run:
  assumes w: "durable w = solo_started" and j: "j_node_execution_id j = 11"
  shows "\<exists>w'. process_job sample_registry memory_publish pubsub_publish (serialize_job_payload j) w = (Inr (), w') \<and>
    map memory_job (queue w') = map memory_job (queue w)"
proof -
  let ?n = "set_node_status RUNNING (clock w) (set_node_status QUEUED 1000 solo_row)"
  have ok: "db_ok (durable w)" using sys_ok_reachable [OF solo_started_reachable] w by (simp add: sys_ok_def)
  obtain s where c: "claim_unit j (open_session w) = Inr (Some ?n, s)"
    and s: "executions (sdb s) = [solo_execution]" "workflow_versions (sdb s) = [solo_version]" "node_executions (sdb s) = [?n]"
    using w j by (simp add: claim_unit_def is_terminal_def TERMINAL_NODE_STATUSES_def transition_node_status_def Let_def node_started_def)
  obtain s1 ch where fl: "flush_events pubsub_publish s (channel w) = (s1, ch)" by (cases "flush_events pubsub_publish s (channel w)")
  let ?w1 = "(commit_session s1 w)\<lparr>channel := ch\<rparr>"
  let ?s2 = "resume s1 ?w1"
  have s2: "sdb ?s2 = sdb s" using flush_events_sdb [OF fl] by simp
  obtain jc where l: "load_context sample_registry ?n ?s2 = Inr jc" "jc_execution jc = solo_execution" "jc_definition jc = solo"
    "r_success (run_executor jc)"
    using solo_load [of ?s2 ?n] s2 s by auto
  note jo = claimed_job_ok [OF ok c l(1) s2]
  have ch: "child_ids (jc_definition jc) (ne_node_id ?n) = []" by (simp add: l child_ids_def solo_nodes)
  from complete_success [OF jo l(4) disjI1 [OF ch] refl refl] obtain ns s4 where
    d: "complete_unit jc (ne_id ?n) (run_executor jc) (?s2\<lparr>pinned := [jc_execution jc]\<rparr>) = Inr (Some ns, s4)"
    and "ne_node_id ` set ns = queued_children (jc_definition jc) (ne_node_id ?n)
       (apply_skips (edge_rel (jc_definition jc)) (branch_skips (jc_definition jc) (ne_node_id ?n) [])
         ((run_view (ex_id (jc_execution jc)) (sdb (?s2\<lparr>pinned := [jc_execution jc]\<rparr>)))(ne_node_id ?n \<mapsto> SUCCEEDED)))" by blast
  then have ns: "ns = []" by (simp add: l queued_children_def edge_rel_def solo_nodes)
  obtain w' where p: "publish_phase memory_publish pubsub_publish (ex_id (jc_execution jc)) (ex_workflow_version_id (jc_execution jc)) ns s4
      (commit_session s4 ?w1) = (Inr (), w')" using publish_phase_memory by blast
  have "map memory_job (queue w') = map memory_job (queue w)" using memory.publish_phase_jobs [OF p] ns by auto
  then show ?thesis using c fl l(1) d p by (simp add: process_job_def deserialize_serialize)
qed

subsection \<open>The end of an attempt\<close>

lemma complete_requeues:
  assumes "job_ok jc n s" and "\<not> r_success res" and "ne_attempt n < ne_max_attempts n"
  shows "\<exists>n' s'. complete_unit jc (ne_id n) res s = Inr (Some [n'], s') \<and>
    ne_id n' = ne_id n \<and> ne_status n' = QUEUED \<and> ne_attempt n' = ne_attempt n + 1 \<and> ne_error_message n' = r_error res \<and>
    node_executions (sdb s') = row_modify ne_id (ne_id n) (\<lambda>_. n') (node_executions (sdb s)) \<and>
    executions (sdb s') = executions (sdb s) \<and> dead_letter_jobs (sdb s') = dead_letter_jobs (sdb s)"
proof -
  have inj: "inj_on ne_id (set (node_executions (sdb s)))" and n: "n \<in> set (node_executions (sdb s))"
    using assms(1) by (auto simp: job_ok_def nodes_ok_def distinct_map in_execution_rows)
  have "k = n" if "k \<in> set (node_executions (sdb s))" "ne_id k = ne_id n" for k by (rule inj_onD [OF inj]) (use that n in auto)
  then have "row_modify ne_id (ne_id n) (retry_row (r_error res) (now s)) (node_executions (sdb s)) =
      row_modify ne_id (ne_id n) (\<lambda>_. retry_row (r_error res) (now s) n) (node_executions (sdb s))"
    by (auto simp: row_modify_def)
  moreover have "ne_error_message (retry_row (r_error res) (now s) n) = r_error res" by (simp add: retry_row_def end_attempt_def)
  ultimately show ?thesis using complete_retry [OF assms] by (auto intro!: exI [of _ "retry_row (r_error res) (now s) n"])
qed

lemma complete_dead_letters:
  assumes "job_ok jc n s" and "\<not> r_success res" and "\<not> ne_attempt n < ne_max_attempts n"
    and "e = held_execution (jc_execution jc) s"
  shows "\<exists>j s'. complete_unit jc (ne_id n) res s = Inr (Some [], s') \<and>
    node_executions (sdb s') = row_modify ne_id (ne_id n) (dead_row (r_error res) (now s)) (node_executions (sdb s)) \<and>
    dead_letter_jobs (sdb s') = dead_letter_jobs (sdb s) @ [j] \<and> dj_node_execution_id j = ne_id n \<and> dj_resolved_at j = None \<and>
    dj_attempts j = ne_attempt n \<and>
    dj_reason j = (case r_error res of None \<Rightarrow> ''max attempts exceeded'' | Some m \<Rightarrow> if m = [] then ''max attempts exceeded'' else m) \<and>
    dj_payload j = Some (job_payload_json (node_job (ex_id e) (ex_workflow_version_id e) n)) \<and>
    executions (sdb s') =
      (if ex_status e = X_RUNNING then row_modify ex_id (ex_id e) (set_execution_status X_FAILED (now s)) (executions (sdb s))
       else executions (sdb s))"
proof -
  let ?j = "new_dead_letter (uuids s (used s + 2)) e (end_attempt (set_error (r_error res)) FAILED (now s) n) (now s)"
  have "dj_node_execution_id ?j = ne_id n" "dj_resolved_at ?j = None" "dj_attempts ?j = ne_attempt n"
    "dj_reason ?j = (case r_error res of None \<Rightarrow> ''max attempts exceeded'' | Some m \<Rightarrow> if m = [] then ''max attempts exceeded'' else m)"
    "dj_payload ?j = Some (job_payload_json (node_job (ex_id e) (ex_workflow_version_id e) n))"
    by (simp_all add: new_dead_letter_def end_attempt_def node_job_def)
  then show ?thesis using complete_dead [OF assms] by (auto intro!: exI [of _ ?j])
qed

lemma sample_job_ok: "job_ok sample_context claimed_row ((sample_session claimed_db 30)\<lparr>pinned := [sample_execution]\<rparr>)"
  using act_job_ok [of "(sample_session claimed_db 30)\<lparr>pinned := [sample_execution]\<rparr>" sample_activity claimed_row]
    sys_ok_reachable [OF loaded_reachable] by (simp add: sys_ok_def sample_activity_def in_execution_rows)

text \<open>The same node in its last attempt.\<close>

definition last_attempt_row :: NodeExecution where
  "last_attempt_row = claimed_row\<lparr>ne_attempt := 3\<rparr>"

definition last_attempt_session :: session where
  "last_attempt_session = (sample_session
     (claimed_db\<lparr>node_executions := [last_attempt_row, sample_row 12 ''b'', sample_row 13 ''c'', sample_row 14 ''d'']\<rparr>) 30)
     \<lparr>pinned := [sample_execution]\<rparr>"

lemma last_attempt_simps [simp]:
  "ne_id last_attempt_row = 11" "ne_execution_id last_attempt_row = 10" "ne_node_id last_attempt_row = ''a''"
  "ne_status last_attempt_row = RUNNING" "ne_attempt last_attempt_row = 3" "ne_max_attempts last_attempt_row = 3"
  "dead_letter_jobs (sdb last_attempt_session) = []"
  by (simp_all add: last_attempt_row_def last_attempt_session_def)

lemma last_attempt_job_ok: "job_ok sample_context last_attempt_row last_attempt_session"
proof -
  have "node_keys (node_executions (sdb last_attempt_session)) = node_keys (node_executions claimed_db)"
    by (simp add: last_attempt_session_def node_keys_def)
  moreover have "nodes_ok claimed_db" using sample_job_ok by (simp add: job_ok_def)
  ultimately have "nodes_ok (sdb last_attempt_session)" using nodes_ok_by_keys by blast
  then show ?thesis
    by (auto simp: job_ok_def held_ok_def last_attempt_session_def execution_rows_def run_view_def edge_rel_def diamond_def sample_edge_def)
qed

end
