(* ===== verification/Transport.thy ===== *)
theory Transport
  imports Dlq
begin

section \<open>The two transports of the execution engine\<close>

text \<open>
  \<open>app/transport\<close>: the protocol \<open>ExecutionEngineClient\<close> as the record \<open>engine_client\<close> of its methods,
  the local client, and the gRPC client on top of the servicer of \<open>grpc_server.py\<close>. A protobuf message is
  a record whose optional fields are options (\<open>HasField\<close>). The message type \<open>Struct\<close> of protobuf is the
  type variable \<open>'m\<close>, with \<open>to_struct\<close> for \<open>Struct.update\<close>, \<open>struct_items\<close> for \<open>dict(struct.items())\<close> and
  \<open>to_dict\<close> for \<open>MessageToDict\<close>. The channel delivers a message or the status code the servicer set;
  lost connections are not modelled.
\<close>

record TransitionNodeCommand =
  tc_execution_id :: uuid
  tc_node_execution_id :: uuid
  tc_status :: string
  tc_result :: "jdict option"
  tc_error :: "string option"

record ('q, 'c) engine_client =
  ec_start :: "StartExecutionCommand \<Rightarrow> uuid \<Rightarrow> ('q, 'c) world \<Rightarrow> ExecutionDTO option result \<times> ('q, 'c) world"
  ec_get :: "uuid \<Rightarrow> uuid \<Rightarrow> ('q, 'c) world \<Rightarrow> ExecutionDTO option result"
  ec_list :: "uuid \<Rightarrow> string option \<Rightarrow> nat \<Rightarrow> nat \<Rightarrow> ('q, 'c) world \<Rightarrow> ExecutionDTO list result"
  ec_nodes :: "uuid \<Rightarrow> uuid \<Rightarrow> ('q, 'c) world \<Rightarrow> NodeExecutionDTO list result"
  ec_transition :: "TransitionNodeCommand \<Rightarrow> NodeExecutionDTO result"
  ec_retry :: "uuid \<Rightarrow> string \<Rightarrow> uuid \<Rightarrow> ('q, 'c) world \<Rightarrow> NodeExecutionDTO result \<times> ('q, 'c) world"
  ec_delete :: "uuid \<Rightarrow> uuid \<Rightarrow> ('q, 'c) world \<Rightarrow> unit result \<times> ('q, 'c) world"

subsection \<open>The local client\<close>

definition local_client ::
  "ExecutorRegistry \<Rightarrow> (Job \<Rightarrow> 'q \<Rightarrow> string option result \<times> 'q) \<Rightarrow>
   (string \<Rightarrow> Envelope \<Rightarrow> 'c \<Rightarrow> unit result \<times> 'c) \<Rightarrow> ('q, 'c) engine_client" where
  "local_client registry publish ws_publish =
     \<lparr>ec_start = start_execution registry publish ws_publish,
      ec_get = (\<lambda>x owner w. get_execution x owner (durable w)),
      ec_list = (\<lambda>owner status limit offset w. list_executions owner status limit offset (durable w)),
      ec_nodes = (\<lambda>x owner w. get_node_executions x owner (durable w)),
      ec_transition = transition_node,
      ec_retry = retry_node publish ws_publish,
      ec_delete = delete_execution\<rparr>"

subsection \<open>Messages\<close>

record 'm pb_NodeExecutionDTO =
  pn_id :: string
  pn_execution_id :: string
  pn_node_id :: string
  pn_node_type :: string
  pn_status :: string
  pn_attempt :: int
  pn_max_attempts :: int
  pn_input_payload :: "'m option"
  pn_output_payload :: "'m option"
  pn_error_message :: "string option"

record 'm pb_ExecutionDTO =
  px_id :: string
  px_workflow_id :: string
  px_workflow_version_id :: string
  px_status :: string
  px_input_payload :: "'m option"
  px_error_message :: "string option"
  px_node_executions :: "'m pb_NodeExecutionDTO list"

text \<open>\<open>if payload: ... CopyFrom\<close>: a missing or empty dictionary leaves the field unset.\<close>

definition pb_payload :: "(jdict \<Rightarrow> 'm result) \<Rightarrow> jdict option \<Rightarrow> 'm option result" where
  "pb_payload to_struct p =
     (case p of
        None \<Rightarrow> Inr None
      | Some d \<Rightarrow> if d = [] then Inr None else rbind (to_struct d) (\<lambda>m. Inr (Some m)))"

definition pb_text :: "string option \<Rightarrow> string option" where
  "pb_text e = (case e of None \<Rightarrow> None | Some s \<Rightarrow> if s = [] then None else Some s)"

text \<open>The \<open>int32\<close> fields of a message reject values out of range.\<close>

definition int32 :: "int \<Rightarrow> int result" where
  "int32 i = (if - (2 ^ 31) \<le> i \<and> i < 2 ^ 31 then Inr i else Inl (ValueError ''Value out of range''))"

definition map_node_execution_dto_to_pb :: "(jdict \<Rightarrow> 'm result) \<Rightarrow> NodeExecutionDTO \<Rightarrow> 'm pb_NodeExecutionDTO result" where
  "map_node_execution_dto_to_pb to_struct dto =
     rbind (int32 (nd_attempt dto)) (\<lambda>attempt.
     rbind (int32 (nd_max_attempts dto)) (\<lambda>max_attempts.
     rbind (pb_payload to_struct (nd_input_payload dto)) (\<lambda>input_payload.
     rbind (pb_payload to_struct (nd_output_payload dto)) (\<lambda>output_payload.
       Inr \<lparr>pn_id = uuid_str (nd_id dto), pn_execution_id = uuid_str (nd_execution_id dto), pn_node_id = nd_node_id dto,
            pn_node_type = nd_node_type dto, pn_status = nd_status dto, pn_attempt = attempt, pn_max_attempts = max_attempts,
            pn_input_payload = input_payload, pn_output_payload = output_payload,
            pn_error_message = pb_text (nd_error_message dto)\<rparr>))))"

fun rmap :: "('a \<Rightarrow> 'b result) \<Rightarrow> 'a list \<Rightarrow> 'b list result" where
  "rmap f [] = Inr []"
| "rmap f (x # xs) = rbind (f x) (\<lambda>y. rbind (rmap f xs) (\<lambda>ys. Inr (y # ys)))"

definition map_execution_dto_to_pb :: "(jdict \<Rightarrow> 'm result) \<Rightarrow> ExecutionDTO \<Rightarrow> 'm pb_ExecutionDTO result" where
  "map_execution_dto_to_pb to_struct dto =
     rbind (pb_payload to_struct (xd_input_payload dto)) (\<lambda>input_payload.
     rbind (rmap (map_node_execution_dto_to_pb to_struct) (xd_node_executions dto)) (\<lambda>node_executions.
       Inr \<lparr>px_id = uuid_str (xd_id dto), px_workflow_id = uuid_str (xd_workflow_id dto),
            px_workflow_version_id = uuid_str (xd_workflow_version_id dto), px_status = xd_status dto,
            px_input_payload = input_payload, px_error_message = pb_text (xd_error_message dto),
            px_node_executions = node_executions\<rparr>))"

definition map_node_execution :: "('m \<Rightarrow> jdict) \<Rightarrow> 'm pb_NodeExecutionDTO \<Rightarrow> NodeExecutionDTO result" where
  "map_node_execution to_dict msg =
     rbind (uuid_parse (pn_id msg)) (\<lambda>i.
     rbind (uuid_parse (pn_execution_id msg)) (\<lambda>x.
       Inr \<lparr>nd_id = i, nd_execution_id = x, nd_node_id = pn_node_id msg, nd_node_type = pn_node_type msg,
            nd_status = pn_status msg, nd_attempt = pn_attempt msg, nd_max_attempts = pn_max_attempts msg,
            nd_input_payload = map_option to_dict (pn_input_payload msg),
            nd_output_payload = map_option to_dict (pn_output_payload msg), nd_error_message = pn_error_message msg\<rparr>))"

definition map_execution :: "('m \<Rightarrow> jdict) \<Rightarrow> 'm pb_ExecutionDTO \<Rightarrow> ExecutionDTO result" where
  "map_execution to_dict msg =
     rbind (uuid_parse (px_id msg)) (\<lambda>i.
     rbind (uuid_parse (px_workflow_id msg)) (\<lambda>w.
     rbind (uuid_parse (px_workflow_version_id msg)) (\<lambda>v.
     rbind (rmap (map_node_execution to_dict) (px_node_executions msg)) (\<lambda>ns.
       Inr \<lparr>xd_id = i, xd_workflow_id = w, xd_workflow_version_id = v, xd_status = px_status msg,
            xd_input_payload = map_option to_dict (px_input_payload msg), xd_error_message = px_error_message msg,
            xd_node_executions = ns\<rparr>))))"

subsection \<open>The servicer\<close>

text \<open>
  A handler: its message, or the status it has set. \<open>except Exception\<close> of every handler sets INTERNAL
  with the text of the exception.
\<close>

datatype rpc_status = NOT_FOUND | INTERNAL

type_synonym 'a rpc = "(rpc_status \<times> string) + 'a"

definition guarded :: "'a result \<Rightarrow> 'a rpc" where
  "guarded r = (case r of Inl e \<Rightarrow> Inl (INTERNAL, exn_str e) | Inr x \<Rightarrow> Inr x)"

record 'm pb_StartExecutionRequest =
  ps_workflow_version_id :: string
  ps_owner_api_key_id :: string
  ps_input_payload :: "'m option"

definition required :: "'a option result \<Rightarrow> 'a result" where
  "required r = rbind r (\<lambda>v. case v of None \<Rightarrow> Inl (AttributeError ''id'') | Some x \<Rightarrow> Inr x)"

definition StartExecution ::
  "('q, 'c) engine_client \<Rightarrow> (jdict \<Rightarrow> 'm result) \<Rightarrow> ('m \<Rightarrow> jdict) \<Rightarrow> 'm pb_StartExecutionRequest \<Rightarrow> ('q, 'c) world \<Rightarrow>
   'm pb_ExecutionDTO rpc \<times> ('q, 'c) world" where
  "StartExecution engine to_struct struct_items request w =
     (case rbind (uuid_parse (ps_workflow_version_id request)) (\<lambda>v.
             rbind (uuid_parse (ps_owner_api_key_id request)) (\<lambda>owner_id.
               Inr (\<lparr>cmd_workflow_version_id = v,
                     cmd_input_payload = (case ps_input_payload request of None \<Rightarrow> [] | Some m \<Rightarrow> struct_items m)\<rparr>, owner_id))) of
        Inl e \<Rightarrow> (guarded (Inl e), w)
      | Inr (command, owner_id) \<Rightarrow>
          (let (dto, w') = ec_start engine command owner_id w
           in (guarded (rbind (required dto) (map_execution_dto_to_pb to_struct)), w')))"

definition GetExecution ::
  "('q, 'c) engine_client \<Rightarrow> (jdict \<Rightarrow> 'm result) \<Rightarrow> string \<Rightarrow> string \<Rightarrow> ('q, 'c) world \<Rightarrow> 'm pb_ExecutionDTO rpc" where
  "GetExecution engine to_struct execution_id owner_api_key_id w =
     (case rbind (uuid_parse execution_id) (\<lambda>x. rbind (uuid_parse owner_api_key_id) (\<lambda>owner_id. ec_get engine x owner_id w)) of
        Inl e \<Rightarrow> guarded (Inl e)
      | Inr None \<Rightarrow> Inl (NOT_FOUND, ''Execution not found'')
      | Inr (Some dto) \<Rightarrow> guarded (map_execution_dto_to_pb to_struct dto))"

text \<open>A \<open>limit\<close> or \<open>offset\<close> of 0 is falsy: it is replaced by the default.\<close>

definition ListExecutions ::
  "('q, 'c) engine_client \<Rightarrow> (jdict \<Rightarrow> 'm result) \<Rightarrow> string \<Rightarrow> string option \<Rightarrow> nat \<Rightarrow> nat \<Rightarrow> ('q, 'c) world \<Rightarrow>
   'm pb_ExecutionDTO list rpc" where
  "ListExecutions engine to_struct owner_api_key_id status limit offset w =
     guarded (rbind (uuid_parse owner_api_key_id) (\<lambda>owner_id.
       rbind (ec_list engine owner_id status (if limit \<noteq> 0 then limit else 50) offset w)
         (rmap (map_execution_dto_to_pb to_struct))))"

definition GetNodeExecutions ::
  "('q, 'c) engine_client \<Rightarrow> (jdict \<Rightarrow> 'm result) \<Rightarrow> string \<Rightarrow> string \<Rightarrow> ('q, 'c) world \<Rightarrow> 'm pb_NodeExecutionDTO list rpc" where
  "GetNodeExecutions engine to_struct execution_id owner_api_key_id w =
     guarded (rbind (uuid_parse execution_id) (\<lambda>x. rbind (uuid_parse owner_api_key_id) (\<lambda>owner_id.
       rbind (ec_nodes engine x owner_id w) (rmap (map_node_execution_dto_to_pb to_struct)))))"

record 'm pb_TransitionNodeRequest =
  pt_execution_id :: string
  pt_node_execution_id :: string
  pt_status :: string
  pt_result :: "'m option"
  pt_error :: "string option"

definition TransitionNode ::
  "('q, 'c) engine_client \<Rightarrow> (jdict \<Rightarrow> 'm result) \<Rightarrow> ('m \<Rightarrow> jdict) \<Rightarrow> 'm pb_TransitionNodeRequest \<Rightarrow> 'm pb_NodeExecutionDTO rpc" where
  "TransitionNode engine to_struct to_dict request =
     guarded (rbind (uuid_parse (pt_execution_id request)) (\<lambda>x. rbind (uuid_parse (pt_node_execution_id request)) (\<lambda>n.
       rbind (ec_transition engine
           \<lparr>tc_execution_id = x, tc_node_execution_id = n, tc_status = pt_status request,
            tc_result = map_option to_dict (pt_result request), tc_error = pt_error request\<rparr>)
         (map_node_execution_dto_to_pb to_struct))))"

definition RetryNode ::
  "('q, 'c) engine_client \<Rightarrow> (jdict \<Rightarrow> 'm result) \<Rightarrow> string \<Rightarrow> string \<Rightarrow> string \<Rightarrow> ('q, 'c) world \<Rightarrow>
   'm pb_NodeExecutionDTO rpc \<times> ('q, 'c) world" where
  "RetryNode engine to_struct execution_id node_id owner_api_key_id w =
     (case rbind (uuid_parse execution_id) (\<lambda>x. rbind (uuid_parse owner_api_key_id) (\<lambda>owner_id. Inr (x, owner_id))) of
        Inl e \<Rightarrow> (guarded (Inl e), w)
      | Inr (x, owner_id) \<Rightarrow>
          (let (dto, w') = ec_retry engine x node_id owner_id w
           in (guarded (rbind dto (map_node_execution_dto_to_pb to_struct)), w')))"

definition DeleteExecution ::
  "('q, 'c) engine_client \<Rightarrow> string \<Rightarrow> string \<Rightarrow> ('q, 'c) world \<Rightarrow> unit rpc \<times> ('q, 'c) world" where
  "DeleteExecution engine execution_id owner_api_key_id w =
     (case rbind (uuid_parse execution_id) (\<lambda>x. rbind (uuid_parse owner_api_key_id) (\<lambda>owner_id. Inr (x, owner_id))) of
        Inl e \<Rightarrow> (guarded (Inl e), w)
      | Inr (x, owner_id) \<Rightarrow> (let (r, w') = ec_delete engine x owner_id w in (guarded r, w')))"

subsection \<open>The gRPC client\<close>

text \<open>\<open>await stub.Method(req)\<close>: a status other than OK is raised as \<open>AioRpcError\<close>.\<close>

fun status_name :: "rpc_status \<Rightarrow> string" where
  "status_name NOT_FOUND = ''NOT_FOUND''"
| "status_name INTERNAL = ''INTERNAL''"

definition received :: "'a rpc \<Rightarrow> 'a result" where
  "received r = (case r of Inl (st, details) \<Rightarrow> Inl (RpcError (status_name st) details) | Inr x \<Rightarrow> Inr x)"

definition grpc_start ::
  "('q, 'c) engine_client \<Rightarrow> (jdict \<Rightarrow> 'm result) \<Rightarrow> ('m \<Rightarrow> jdict) \<Rightarrow> ('m \<Rightarrow> jdict) \<Rightarrow>
   StartExecutionCommand \<Rightarrow> uuid \<Rightarrow> ('q, 'c) world \<Rightarrow> ExecutionDTO option result \<times> ('q, 'c) world" where
  "grpc_start engine to_struct struct_items to_dict command owner_api_key_id w =
     (case pb_payload to_struct (Some (cmd_input_payload command)) of
        Inl e \<Rightarrow> (Inl e, w)
      | Inr p \<Rightarrow>
          (let (resp, w') = StartExecution engine to_struct struct_items
                 \<lparr>ps_workflow_version_id = uuid_str (cmd_workflow_version_id command),
                  ps_owner_api_key_id = uuid_str owner_api_key_id, ps_input_payload = p\<rparr> w
           in (rbind (received resp) (\<lambda>msg. rbind (map_execution to_dict msg) (\<lambda>dto. Inr (Some dto))), w')))"

definition grpc_get ::
  "('q, 'c) engine_client \<Rightarrow> (jdict \<Rightarrow> 'm result) \<Rightarrow> ('m \<Rightarrow> jdict) \<Rightarrow> uuid \<Rightarrow> uuid \<Rightarrow> ('q, 'c) world \<Rightarrow>
   ExecutionDTO option result" where
  "grpc_get engine to_struct to_dict execution_id owner_api_key_id w =
     (case GetExecution engine to_struct (uuid_str execution_id) (uuid_str owner_api_key_id) w of
        Inl (NOT_FOUND, _) \<Rightarrow> Inr None
      | Inl (INTERNAL, details) \<Rightarrow> Inl (RpcError ''INTERNAL'' details)
      | Inr msg \<Rightarrow> rbind (map_execution to_dict msg) (\<lambda>dto. Inr (Some dto)))"

definition grpc_list ::
  "('q, 'c) engine_client \<Rightarrow> (jdict \<Rightarrow> 'm result) \<Rightarrow> ('m \<Rightarrow> jdict) \<Rightarrow> uuid \<Rightarrow> string option \<Rightarrow> nat \<Rightarrow> nat \<Rightarrow>
   ('q, 'c) world \<Rightarrow> ExecutionDTO list result" where
  "grpc_list engine to_struct to_dict owner_api_key_id status limit offset w =
     rbind (received (ListExecutions engine to_struct (uuid_str owner_api_key_id) (pb_text status) limit offset w))
       (rmap (map_execution to_dict))"

definition grpc_nodes ::
  "('q, 'c) engine_client \<Rightarrow> (jdict \<Rightarrow> 'm result) \<Rightarrow> ('m \<Rightarrow> jdict) \<Rightarrow> uuid \<Rightarrow> uuid \<Rightarrow> ('q, 'c) world \<Rightarrow>
   NodeExecutionDTO list result" where
  "grpc_nodes engine to_struct to_dict execution_id owner_api_key_id w =
     rbind (received (GetNodeExecutions engine to_struct (uuid_str execution_id) (uuid_str owner_api_key_id) w))
       (rmap (map_node_execution to_dict))"

definition grpc_transition ::
  "('q, 'c) engine_client \<Rightarrow> (jdict \<Rightarrow> 'm result) \<Rightarrow> ('m \<Rightarrow> jdict) \<Rightarrow> TransitionNodeCommand \<Rightarrow> NodeExecutionDTO result" where
  "grpc_transition engine to_struct to_dict command =
     rbind (pb_payload to_struct (tc_result command)) (\<lambda>res.
     rbind (received (TransitionNode engine to_struct to_dict
         \<lparr>pt_execution_id = uuid_str (tc_execution_id command), pt_node_execution_id = uuid_str (tc_node_execution_id command),
          pt_status = tc_status command, pt_result = res, pt_error = pb_text (tc_error command)\<rparr>))
       (map_node_execution to_dict))"

definition grpc_retry ::
  "('q, 'c) engine_client \<Rightarrow> (jdict \<Rightarrow> 'm result) \<Rightarrow> ('m \<Rightarrow> jdict) \<Rightarrow> uuid \<Rightarrow> string \<Rightarrow> uuid \<Rightarrow> ('q, 'c) world \<Rightarrow>
   NodeExecutionDTO result \<times> ('q, 'c) world" where
  "grpc_retry engine to_struct to_dict execution_id node_id owner_api_key_id w =
     (let (resp, w') = RetryNode engine to_struct (uuid_str execution_id) node_id (uuid_str owner_api_key_id) w
      in (rbind (received resp) (map_node_execution to_dict), w'))"

definition grpc_delete ::
  "('q, 'c) engine_client \<Rightarrow> uuid \<Rightarrow> uuid \<Rightarrow> ('q, 'c) world \<Rightarrow> unit result \<times> ('q, 'c) world" where
  "grpc_delete engine execution_id owner_api_key_id w =
     (let (resp, w') = DeleteExecution engine (uuid_str execution_id) (uuid_str owner_api_key_id) w
      in (received resp, w'))"

definition grpc_client ::
  "('q, 'c) engine_client \<Rightarrow> (jdict \<Rightarrow> 'm result) \<Rightarrow> ('m \<Rightarrow> jdict) \<Rightarrow> ('m \<Rightarrow> jdict) \<Rightarrow> ('q, 'c) engine_client" where
  "grpc_client engine to_struct struct_items to_dict =
     \<lparr>ec_start = grpc_start engine to_struct struct_items to_dict,
      ec_get = grpc_get engine to_struct to_dict,
      ec_list = grpc_list engine to_struct to_dict,
      ec_nodes = grpc_nodes engine to_struct to_dict,
      ec_transition = grpc_transition engine to_struct to_dict,
      ec_retry = grpc_retry engine to_struct to_dict,
      ec_delete = grpc_delete engine\<rparr>"

datatype TransportMode = LOCAL | GRPC

text \<open>\<open>get_execution_engine_client\<close> of factory.py.\<close>

definition get_execution_engine_client ::
  "TransportMode \<Rightarrow> ('q, 'c) engine_client \<Rightarrow> ('q, 'c) engine_client \<Rightarrow> ('q, 'c) engine_client" where
  "get_execution_engine_client mode remote local = (if mode = GRPC then remote else local)"

subsection \<open>What a message carries\<close>

text \<open>
  The DTO as it comes out of a round trip: an empty payload and an empty error text are \<open>None\<close>.
\<close>

definition carried_payload :: "jdict option \<Rightarrow> jdict option" where
  "carried_payload p = (case p of None \<Rightarrow> None | Some d \<Rightarrow> if d = [] then None else Some d)"

definition carried_node :: "NodeExecutionDTO \<Rightarrow> NodeExecutionDTO" where
  "carried_node n = n\<lparr>nd_input_payload := carried_payload (nd_input_payload n),
     nd_output_payload := carried_payload (nd_output_payload n), nd_error_message := pb_text (nd_error_message n)\<rparr>"

definition carried_execution :: "ExecutionDTO \<Rightarrow> ExecutionDTO" where
  "carried_execution e = e\<lparr>xd_input_payload := carried_payload (xd_input_payload e),
     xd_error_message := pb_text (xd_error_message e), xd_node_executions := map carried_node (xd_node_executions e)\<rparr>"

text \<open>What the transport relies on: the payload survives \<open>Struct\<close>, the counters fit in 32 bits.\<close>

definition payload_ok :: "(jdict \<Rightarrow> 'm result) \<Rightarrow> ('m \<Rightarrow> jdict) \<Rightarrow> jdict option \<Rightarrow> bool" where
  "payload_ok to_struct to_dict p =
     (case p of None \<Rightarrow> True
      | Some d \<Rightarrow> d = [] \<or> (case to_struct d of Inl e \<Rightarrow> False | Inr m \<Rightarrow> to_dict m = d))"

definition node_carriable :: "(jdict \<Rightarrow> 'm result) \<Rightarrow> ('m \<Rightarrow> jdict) \<Rightarrow> NodeExecutionDTO \<Rightarrow> bool" where
  "node_carriable to_struct to_dict n \<longleftrightarrow>
     payload_ok to_struct to_dict (nd_input_payload n) \<and> payload_ok to_struct to_dict (nd_output_payload n) \<and>
     int32 (nd_attempt n) = Inr (nd_attempt n) \<and> int32 (nd_max_attempts n) = Inr (nd_max_attempts n)"

definition execution_carriable :: "(jdict \<Rightarrow> 'm result) \<Rightarrow> ('m \<Rightarrow> jdict) \<Rightarrow> ExecutionDTO \<Rightarrow> bool" where
  "execution_carriable to_struct to_dict e \<longleftrightarrow>
     payload_ok to_struct to_dict (xd_input_payload e) \<and> list_all (node_carriable to_struct to_dict) (xd_node_executions e)"

lemma pb_payload_ok:
  assumes "payload_ok to_struct to_dict p"
  shows "\<exists>m. pb_payload to_struct p = Inr m \<and> map_option to_dict m = carried_payload p"
  using assms by (auto simp: payload_ok_def pb_payload_def carried_payload_def split: option.splits sum.splits)

lemma node_round_trip:
  assumes "node_carriable to_struct to_dict n"
  shows "rbind (map_node_execution_dto_to_pb to_struct n) (map_node_execution to_dict) = Inr (carried_node n)"
proof -
  obtain a b where "pb_payload to_struct (nd_input_payload n) = Inr a" "map_option to_dict a = carried_payload (nd_input_payload n)"
    "pb_payload to_struct (nd_output_payload n) = Inr b" "map_option to_dict b = carried_payload (nd_output_payload n)"
    using assms pb_payload_ok unfolding node_carriable_def by metis
  then show ?thesis using assms
    by (simp add: map_node_execution_dto_to_pb_def map_node_execution_def node_carriable_def uuid_parse_str carried_node_def)
qed

lemma rmap_round_trip:
  assumes "\<And>x. x \<in> set xs \<Longrightarrow> rbind (f x) g = Inr (h x)"
  shows "\<exists>ys. rmap f xs = Inr ys \<and> rmap g ys = Inr (map h xs)"
  using assms
proof (induction xs)
  case (Cons x xs)
  obtain y where "f x = Inr y" "g y = Inr (h x)" using Cons.prems [of x] by (auto simp: rbind_eq_Inr)
  moreover obtain ys where "rmap f xs = Inr ys" "rmap g ys = Inr (map h xs)" using Cons by auto
  ultimately show ?case by simp
qed simp

lemma execution_round_trip:
  assumes "execution_carriable to_struct to_dict e"
  shows "rbind (map_execution_dto_to_pb to_struct e) (map_execution to_dict) = Inr (carried_execution e)"
proof -
  obtain p where p: "pb_payload to_struct (xd_input_payload e) = Inr p" "map_option to_dict p = carried_payload (xd_input_payload e)"
    using assms pb_payload_ok unfolding execution_carriable_def by metis
  obtain ns where "rmap (map_node_execution_dto_to_pb to_struct) (xd_node_executions e) = Inr ns"
    "rmap (map_node_execution to_dict) ns = Inr (map carried_node (xd_node_executions e))"
    using rmap_round_trip [of "xd_node_executions e"] node_round_trip assms
    by (metis execution_carriable_def list_all_iff)
  with p show ?thesis by (simp add: map_execution_dto_to_pb_def map_execution_def uuid_parse_str carried_execution_def)
qed

end
