(* ===== verification/Monitoring.thy ===== *)
theory Monitoring
  imports Dlq Workers
begin

section \<open>Logs and metrics\<close>

text \<open>
  \<open>app/services/execution_log_service.py\<close> and \<open>app/services/metrics_service.py\<close>: the log of an execution
  for its owner, and the counts of the dashboard. A count over a join is the number of joined rows.
\<close>

subsection \<open>The log of an execution\<close>

definition check_ownership :: "uuid \<Rightarrow> uuid \<Rightarrow> database \<Rightarrow> unit result" where
  "check_ownership execution_id owner db =
     rbind (scalar_one_or_none (filter (\<lambda>e. ex_id e = execution_id) (owned db owner))) (\<lambda>found.
     case found of
       None \<Rightarrow> Inl (AppError ''Execution not found'' ''not_found'' 404)
     | Some _ \<Rightarrow> Inr ())"

text \<open>\<open>order_by(created_at.asc())\<close>, equal times in stored order.\<close>

definition logs_of :: "uuid \<Rightarrow> database \<Rightarrow> ExecutionLog list" where
  "logs_of execution_id db =
     sort_key lg_created_at (filter (\<lambda>l. lg_execution_id l = execution_id) (execution_logs db))"

definition list_logs :: "uuid \<Rightarrow> uuid \<Rightarrow> nat \<Rightarrow> nat \<Rightarrow> database \<Rightarrow> ExecutionLog list result" where
  "list_logs execution_id owner limit offset db =
     rbind (check_ownership execution_id owner db) (\<lambda>_. Inr (page limit offset (logs_of execution_id db)))"

definition get_timeline :: "uuid \<Rightarrow> uuid \<Rightarrow> nat \<Rightarrow> database \<Rightarrow> ExecutionLog list result" where
  "get_timeline execution_id owner limit db =
     rbind (check_ownership execution_id owner db) (\<lambda>_. Inr (take limit (logs_of execution_id db)))"

subsection \<open>Metrics\<close>

definition ACTIVE_WORKER_STATUSES :: "WorkerStatus list" where
  "ACTIVE_WORKER_STATUSES = [W_IDLE, W_BUSY, W_STARTING]"

record MetricsSummaryResponse =
  ms_active_executions :: nat
  ms_queued_nodes :: nat
  ms_running_nodes :: nat
  ms_workers :: nat
  ms_active_workers :: nat
  ms_queue_depth :: nat
  ms_dead_letter_jobs :: nat

definition owned_nodes :: "database \<Rightarrow> uuid \<Rightarrow> NodeExecution list" where
  "owned_nodes db owner =
     concat (map (\<lambda>n. map (\<lambda>_. n) (filter (\<lambda>e. ex_id e = ne_execution_id n) (owned db owner))) (node_executions db))"

text \<open>An offline worker is not active; neither is one whose last heartbeat is more than 30 seconds old.\<close>

definition is_stale :: "time \<Rightarrow> Worker \<Rightarrow> bool" where
  "is_stale t k = (case wk_last_heartbeat_at k of None \<Rightarrow> False | Some h \<Rightarrow> t - h > 30 * 1000000)"

definition active_worker :: "time \<Rightarrow> Worker \<Rightarrow> bool" where
  "active_worker t k \<longleftrightarrow> wk_status k \<noteq> W_OFFLINE \<and> \<not> is_stale t k \<and> wk_status k \<in> set ACTIVE_WORKER_STATUSES"

text \<open>\<open>queue_depth\<close> is the method of the publisher, if it has one.\<close>

definition get_queue_depth :: "('q \<Rightarrow> nat result) option \<Rightarrow> 'q \<Rightarrow> nat result" where
  "get_queue_depth depth q = (case depth of None \<Rightarrow> Inr 0 | Some f \<Rightarrow> f q)"

definition get_summary :: "('q \<Rightarrow> nat result) option \<Rightarrow> uuid \<Rightarrow> ('q, 'c) world \<Rightarrow> MetricsSummaryResponse result" where
  "get_summary depth owner w =
     (let db = durable w in
      rbind (get_queue_depth depth (queue w)) (\<lambda>queue_depth.
        Inr \<lparr>ms_active_executions = length (filter (\<lambda>e. ex_status e = X_RUNNING) (owned db owner)),
             ms_queued_nodes = length (filter (\<lambda>n. ne_status n = QUEUED) (owned_nodes db owner)),
             ms_running_nodes = length (filter (\<lambda>n. ne_status n = RUNNING) (owned_nodes db owner)),
             ms_workers = length (workers db),
             ms_active_workers = length (filter (active_worker (clock w)) (workers db)),
             ms_queue_depth = queue_depth,
             ms_dead_letter_jobs = length (filter (\<lambda>j. dj_resolved_at j = None) (owned_jobs db owner))\<rparr>))"

subsection \<open>Facts\<close>

lemma check_ownership_Inr:
  "check_ownership x owner db = Inr u \<Longrightarrow> \<exists>e \<in> set (owned db owner). ex_id e = x"
  by (auto simp: check_ownership_def rbind_eq_Inr scalar_one_or_none_Inr split: option.splits dest!: filter_singletonD)

lemma list_logs_sound:
  assumes "list_logs x owner limit offset db = Inr ls"
  shows "sorted (map lg_created_at ls)" and "length ls \<le> limit"
    and "l \<in> set ls \<Longrightarrow> l \<in> set (execution_logs db) \<and> lg_execution_id l = x \<and> (\<exists>e \<in> set (owned db owner). ex_id e = x)"
proof -
  have ls: "ls = page limit offset (logs_of x db)" and c: "\<exists>u. check_ownership x owner db = Inr u"
    using assms by (auto simp: list_logs_def rbind_eq_Inr)
  show "sorted (map lg_created_at ls)"
    by (simp add: ls page_def logs_of_def take_map [symmetric] drop_map [symmetric] sorted_wrt_take sorted_wrt_drop)
  show "length ls \<le> limit" by (simp add: ls length_page)
  assume "l \<in> set ls"
  then have "l \<in> set (logs_of x db)" using set_page_subset unfolding ls by fast
  then show "l \<in> set (execution_logs db) \<and> lg_execution_id l = x \<and> (\<exists>e \<in> set (owned db owner). ex_id e = x)"
    using c check_ownership_Inr by (fastforce simp: logs_of_def)
qed

lemma active_workers_bound:
  "get_summary depth owner w = Inr m \<Longrightarrow> ms_active_workers m \<le> ms_workers m"
  by (auto simp: get_summary_def rbind_eq_Inr Let_def)

end
