(* ===== verification/Auth.thy ===== *)
theory Auth
  imports Session Json_Text
begin

section \<open>Authentication\<close>

text \<open>
  \<open>app/services/api_key_service.py\<close>, \<open>app/core/security.py\<close> and the routes of \<open>app/api/auth.py\<close>:
  API keys stored by hash, access tokens (JWT), and refresh tokens that are rotated on every use. PyJWT
  is not part of the sources: \<open>jwt_encode\<close> and \<open>jwt_decode\<close> are parameters. The random strings of
  \<open>secrets.token_urlsafe\<close> are arguments. A route that commits and then raises returns the error
  together with the world after the commit.
\<close>

record Settings =
  jwt_access_secret_key :: string
  jwt_refresh_secret_key :: string
  jwt_algorithm :: string
  jwt_access_token_expire_minutes :: int
  jwt_refresh_token_expire_days :: int

datatype jwt_error = ExpiredSignatureError | OtherPyJWTError

type_synonym jwt_encoder = "jdict \<Rightarrow> string \<Rightarrow> string \<Rightarrow> string"
type_synonym jwt_decoder = "string \<Rightarrow> string \<Rightarrow> string list \<Rightarrow> jwt_error + jdict"

definition minutes :: "int \<Rightarrow> time" where
  "minutes m = m * 60 * 1000000"

definition days :: "int \<Rightarrow> time" where
  "days d = d * 24 * 60 * 60 * 1000000"

subsection \<open>API keys\<close>

definition API_KEY_PREFIX :: string where
  "API_KEY_PREFIX = ''efk_''"

definition generate_api_key :: "string \<Rightarrow> string" where
  "generate_api_key random = API_KEY_PREFIX @ random"

definition hash_api_key :: "string \<Rightarrow> string" where
  "hash_api_key raw_key = sha256_hexdigest raw_key"

text \<open>Every exception of the lookup is logged and answered with \<open>None\<close>.\<close>

definition get_by_raw_key :: "string \<Rightarrow> database \<Rightarrow> APIKey option" where
  "get_by_raw_key raw_key db =
     (case scalar_one_or_none (filter (\<lambda>k. ak_key_hash k = hash_api_key raw_key \<and> ak_is_active k) (api_keys db)) of
        Inl e \<Rightarrow> None
      | Inr k \<Rightarrow> k)"

definition use_key :: "time \<Rightarrow> APIKey \<Rightarrow> APIKey" where
  "use_key t k = k\<lparr>ak_last_used_at := Some t\<rparr>"

definition touch_key :: "APIKey \<Rightarrow> session \<Rightarrow> session" where
  "touch_key k s = modify_db (api_keys_update (row_modify ak_id (ak_id k) (use_key (now s)))) s"

definition verify_key :: "string \<Rightarrow> session \<Rightarrow> bool \<times> session" where
  "verify_key raw_key s =
     (case get_by_raw_key raw_key (sdb s) of
        None \<Rightarrow> (False, s)
      | Some k \<Rightarrow> (True, touch_key k s))"

definition add_api_key :: "string \<Rightarrow> string \<Rightarrow> session \<Rightarrow> (APIKey \<times> session) result" where
  "add_api_key name key_hash s =
     (let (i, s1) = new_uuid s;
          k = \<lparr>ak_id = i, ak_name = name, ak_key_hash = key_hash, ak_is_active = True, ak_last_used_at = None,
               ak_created_at = now s1\<rparr>
      in if key_hash \<in> ak_key_hash ` set (api_keys (sdb s1)) then Inl (IntegrityError ''api_keys_key_hash_key'')
         else Inr (k, modify_db (api_keys_update (\<lambda>ks. ks @ [k])) s1))"

definition get_or_create_bootstrap_api_key :: "string \<Rightarrow> session \<Rightarrow> (APIKey \<times> session) result" where
  "get_or_create_bootstrap_api_key raw_key s =
     (case get_by_raw_key raw_key (sdb s) of
        Some k \<Rightarrow> Inr (k, s)
      | None \<Rightarrow> add_api_key ''bootstrap-key'' (hash_api_key raw_key) s)"

definition create_api_key :: "string \<Rightarrow> string \<Rightarrow> session \<Rightarrow> ((APIKey \<times> string) \<times> session) result" where
  "create_api_key random name s =
     (let raw_key = generate_api_key random in
      rbind (add_api_key name (hash_api_key raw_key) s) (\<lambda>(k, s1). Inr ((k, raw_key), s1)))"

subsection \<open>Access tokens\<close>

definition create_token :: "jwt_encoder \<Rightarrow> string \<Rightarrow> string \<Rightarrow> string \<Rightarrow> time \<Rightarrow> jdict \<Rightarrow> string" where
  "create_token jwt_encode secret algorithm token_type expire data =
     jwt_encode (AList.update ''type'' (JStr token_type) (AList.update ''exp'' (JInt expire) data)) secret algorithm"

definition create_access_token :: "Settings \<Rightarrow> jwt_encoder \<Rightarrow> jdict \<Rightarrow> time option \<Rightarrow> time \<Rightarrow> string" where
  "create_access_token settings jwt_encode data expires_delta t =
     create_token jwt_encode (jwt_access_secret_key settings) (jwt_algorithm settings) ''access''
       (t + (case expires_delta of Some delta \<Rightarrow> if delta \<noteq> 0 then delta else minutes (jwt_access_token_expire_minutes settings)
             | None \<Rightarrow> minutes (jwt_access_token_expire_minutes settings))) data"

definition create_refresh_token :: "Settings \<Rightarrow> jwt_encoder \<Rightarrow> jdict \<Rightarrow> time option \<Rightarrow> time \<Rightarrow> string" where
  "create_refresh_token settings jwt_encode data expires_delta t =
     create_token jwt_encode (jwt_refresh_secret_key settings) (jwt_algorithm settings) ''refresh''
       (t + (case expires_delta of Some delta \<Rightarrow> if delta \<noteq> 0 then delta else days (jwt_refresh_token_expire_days settings)
             | None \<Rightarrow> days (jwt_refresh_token_expire_days settings))) data"

definition unauthorized :: "string \<Rightarrow> string \<Rightarrow> exn" where
  "unauthorized msg c = AppError msg c 401"

text \<open>\<open>uuid.UUID(value)\<close> of a value that is not a string fails on its missing \<open>replace\<close>.\<close>

definition get_current_principal_from_token :: "Settings \<Rightarrow> jwt_decoder \<Rightarrow> string option \<Rightarrow> uuid result" where
  "get_current_principal_from_token settings jwt_decode token =
     (case token of
        None \<Rightarrow> Inl (unauthorized ''Missing or invalid token'' ''unauthorized'')
      | Some t \<Rightarrow>
          if t = [] then Inl (unauthorized ''Missing or invalid token'' ''unauthorized'')
          else
            (case jwt_decode t (jwt_access_secret_key settings) [jwt_algorithm settings] of
               Inl ExpiredSignatureError \<Rightarrow> Inl (unauthorized ''Token expired'' ''token_expired'')
             | Inl OtherPyJWTError \<Rightarrow> Inl (unauthorized ''Invalid token'' ''invalid_token'')
             | Inr payload \<Rightarrow>
                 if dict_get payload ''type'' \<noteq> JStr ''access''
                 then Inl (unauthorized ''Invalid token type'' ''invalid_token'')
                 else if \<not> truthy (dict_get payload ''api_key_id'')
                 then Inl (unauthorized ''Invalid token payload'' ''invalid_token'')
                 else
                   (case dict_get payload ''api_key_id'' of
                      JStr s \<Rightarrow>
                        (case uuid_parse s of
                           Inl e \<Rightarrow> Inl (unauthorized ''Invalid token'' ''invalid_token'')
                         | Inr i \<Rightarrow> Inr i)
                    | _ \<Rightarrow> Inl (AttributeError ''replace''))))"

text \<open>\<open>request.cookies.get(...) or bearer_token\<close>\<close>

definition or_else :: "string option \<Rightarrow> string option \<Rightarrow> string option" where
  "or_else a b = (case a of None \<Rightarrow> b | Some s \<Rightarrow> if s = [] then b else a)"

definition get_token :: "(string \<times> string) list \<Rightarrow> string option \<Rightarrow> string option" where
  "get_token cookies bearer_token = or_else (map_of cookies ''eventflow_jwt'') bearer_token"

definition require_api_key :: "Settings \<Rightarrow> jwt_decoder \<Rightarrow> (string \<times> string) list \<Rightarrow> string option \<Rightarrow> uuid result" where
  "require_api_key settings jwt_decode cookies bearer_token =
     get_current_principal_from_token settings jwt_decode (get_token cookies bearer_token)"

text \<open>A principal is its \<open>api_key_id\<close>; the check for a missing one is the branch \<open>None\<close>.\<close>

definition resolve_api_key_id :: "uuid option \<Rightarrow> uuid result" where
  "resolve_api_key_id api_key_id =
     (case api_key_id of None \<Rightarrow> Inl (unauthorized ''Missing API key ID'' ''unauthorized'') | Some i \<Rightarrow> Inr i)"

definition require_api_key_id :: "Settings \<Rightarrow> jwt_decoder \<Rightarrow> (string \<times> string) list \<Rightarrow> string option \<Rightarrow> uuid result" where
  "require_api_key_id settings jwt_decode cookies bearer_token =
     rbind (require_api_key settings jwt_decode cookies bearer_token) (\<lambda>principal. resolve_api_key_id (Some principal))"

definition authenticate_api_key :: "string option \<Rightarrow> session \<Rightarrow> (uuid \<times> session) result" where
  "authenticate_api_key api_key s =
     (case api_key of
        None \<Rightarrow> Inl (unauthorized ''Missing API key'' ''missing_api_key'')
      | Some raw \<Rightarrow>
          if raw = [] then Inl (unauthorized ''Missing API key'' ''missing_api_key'')
          else
            (case get_by_raw_key raw (sdb s) of
               None \<Rightarrow> Inl (unauthorized ''Invalid API key'' ''invalid_api_key'')
             | Some k \<Rightarrow> Inr (ak_id k, touch_key k s)))"

subsection \<open>The routes\<close>

record Cookie =
  ck_key :: string
  ck_value :: string
  ck_httponly :: bool
  ck_samesite :: string
  ck_secure :: bool
  ck_max_age :: int

record TokenResponse =
  tr_access_token :: string
  tr_refresh_token :: string
  tr_token_type :: string
  tr_cookies :: "Cookie list"

definition set_cookie :: "string \<Rightarrow> string \<Rightarrow> int \<Rightarrow> Cookie" where
  "set_cookie k v max_age =
     \<lparr>ck_key = k, ck_value = v, ck_httponly = True, ck_samesite = ''none'', ck_secure = True, ck_max_age = max_age\<rparr>"

definition token_response :: "Settings \<Rightarrow> string \<Rightarrow> string \<Rightarrow> TokenResponse" where
  "token_response settings access_token raw_refresh_token =
     \<lparr>tr_access_token = access_token, tr_refresh_token = raw_refresh_token, tr_token_type = ''bearer'',
      tr_cookies =
        [set_cookie ''eventflow_jwt'' access_token (jwt_access_token_expire_minutes settings * 60),
         set_cookie ''eventflow_refresh'' raw_refresh_token (jwt_refresh_token_expire_days settings * 24 * 60 * 60)]\<rparr>"

definition new_refresh_token :: "Settings \<Rightarrow> uuid \<Rightarrow> string \<Rightarrow> uuid \<Rightarrow> uuid \<Rightarrow> time \<Rightarrow> RefreshToken" where
  "new_refresh_token settings i raw_refresh_token family_id api_key_id t =
     \<lparr>rt_id = i, rt_token_hash = sha256_hexdigest raw_refresh_token, rt_family_id = family_id, rt_is_valid = True,
      rt_expires_at = t + days (jwt_refresh_token_expire_days settings), rt_api_key_id = api_key_id, rt_created_at = t\<rparr>"

definition add_refresh_token ::
  "Settings \<Rightarrow> string \<Rightarrow> uuid \<Rightarrow> uuid \<Rightarrow> session \<Rightarrow> session result" where
  "add_refresh_token settings raw_refresh_token family_id api_key_id s =
     (let (i, s1) = new_uuid s;
          rt = new_refresh_token settings i raw_refresh_token family_id api_key_id (now s1)
      in if rt_token_hash rt \<in> rt_token_hash ` set (refresh_tokens (sdb s1))
         then Inl (IntegrityError ''refresh_tokens_token_hash_key'')
         else Inr (modify_db (refresh_tokens_update (\<lambda>ts. ts @ [rt])) s1))"

definition login_for_access_token ::
  "Settings \<Rightarrow> jwt_encoder \<Rightarrow> string \<Rightarrow> string \<Rightarrow> ('q, 'c) world \<Rightarrow> TokenResponse result \<times> ('q, 'c) world" where
  "login_for_access_token settings jwt_encode random api_key w =
     (case authenticate_api_key (Some api_key) (open_session w) of
        Inl e \<Rightarrow> (Inl e, w)
      | Inr (api_key_id, s) \<Rightarrow>
          (let w1 = commit_session s w;
               access_token = create_access_token settings jwt_encode [(''api_key_id'', JStr (uuid_str api_key_id))] None (clock w1);
               (family_id, s1) = new_uuid (resume s w1)
           in case add_refresh_token settings random family_id api_key_id s1 of
                Inl e \<Rightarrow> (Inl e, w1)
              | Inr s2 \<Rightarrow> (Inr (token_response settings access_token random), commit_session s2 w1)))"

definition invalidate :: "RefreshToken \<Rightarrow> RefreshToken" where
  "invalidate t = t\<lparr>rt_is_valid := False\<rparr>"

definition find_token :: "string \<Rightarrow> database \<Rightarrow> RefreshToken option result" where
  "find_token token db =
     scalar_one_or_none (filter (\<lambda>t. rt_token_hash t = sha256_hexdigest token) (refresh_tokens db))"

definition invalidate_family :: "uuid \<Rightarrow> database \<Rightarrow> database" where
  "invalidate_family family_id = refresh_tokens_update (row_modify rt_family_id family_id invalidate)"

definition refresh_access_token ::
  "Settings \<Rightarrow> jwt_encoder \<Rightarrow> string \<Rightarrow> string option \<Rightarrow> string option \<Rightarrow> ('q, 'c) world \<Rightarrow>
   TokenResponse result \<times> ('q, 'c) world" where
  "refresh_access_token settings jwt_encode random cookie body w =
     (case or_else cookie body of
        None \<Rightarrow> (Inl (unauthorized ''Missing refresh token'' ''missing_token''), w)
      | Some token \<Rightarrow>
          if token = [] then (Inl (unauthorized ''Missing refresh token'' ''missing_token''), w)
          else
            (case find_token token (durable w) of
               Inl e \<Rightarrow> (Inl e, w)
             | Inr None \<Rightarrow> (Inl (unauthorized ''Invalid refresh token'' ''invalid_token''), w)
             | Inr (Some rt) \<Rightarrow>
                 if \<not> rt_is_valid rt
                 then (Inl (unauthorized ''Refresh token reused'' ''token_reused''),
                       w\<lparr>durable := invalidate_family (rt_family_id rt) (durable w)\<rparr>)
                 else if rt_expires_at rt < clock w
                 then (Inl (unauthorized ''Refresh token expired'' ''token_expired''), w)
                 else
                   (case add_refresh_token settings random (rt_family_id rt) (rt_api_key_id rt)
                           (modify_db (refresh_tokens_update (row_modify rt_id (rt_id rt) invalidate)) (open_session w)) of
                      Inl e \<Rightarrow> (Inl e, w)
                    | Inr s \<Rightarrow>
                        (Inr (token_response settings
                           (create_access_token settings jwt_encode [(''api_key_id'', JStr (uuid_str (rt_api_key_id rt)))] None (clock w))
                           random), commit_session s w))))"

text \<open>The result is the list of deleted cookies.\<close>

definition logout :: "string option \<Rightarrow> ('q, 'c) world \<Rightarrow> string list result \<times> ('q, 'c) world" where
  "logout cookie w =
     (let deleted = [''eventflow_jwt'', ''eventflow_refresh''] in
      case cookie of
        None \<Rightarrow> (Inr deleted, w)
      | Some token \<Rightarrow>
          if token = [] then (Inr deleted, w)
          else
            (case find_token token (durable w) of
               Inl e \<Rightarrow> (Inl e, w)
             | Inr None \<Rightarrow> (Inr deleted, w)
             | Inr (Some rt) \<Rightarrow>
                 (Inr deleted,
                  w\<lparr>durable := refresh_tokens_update (row_modify rt_id (rt_id rt) invalidate) (durable w)\<rparr>)))"

record MeResponse =
  me_api_key_id :: uuid
  me_name :: string

definition get_current_user :: "uuid \<Rightarrow> database \<Rightarrow> MeResponse result" where
  "get_current_user api_key_id db =
     (case row_get ak_id api_key_id (api_keys db) of
        None \<Rightarrow> Inl (unauthorized ''API key not found'' ''unauthorized'')
      | Some k \<Rightarrow> Inr \<lparr>me_api_key_id = ak_id k, me_name = ak_name k\<rparr>)"

record VerifyResponse =
  vf_authenticated :: bool

definition verify :: VerifyResponse where
  "verify = \<lparr>vf_authenticated = True\<rparr>"

subsection \<open>API keys: facts\<close>

lemma get_by_raw_key_Some:
  assumes "get_by_raw_key raw db = Some k"
  shows "k \<in> set (api_keys db) \<and> ak_key_hash k = hash_api_key raw \<and> ak_is_active k"
proof -
  have "filter (\<lambda>k. ak_key_hash k = hash_api_key raw \<and> ak_is_active k) (api_keys db) = [k]"
    using assms by (simp add: get_by_raw_key_def scalar_one_or_none_Inr split: sum.splits)
  then show ?thesis by (auto dest: filter_singletonD)
qed

lemma create_then_lookup:
  assumes "create_api_key random name s = Inr ((k, raw), s')"
  shows "get_by_raw_key raw (sdb s') = Some k"
proof -
  have raw: "raw = generate_api_key random" and new: "hash_api_key raw \<notin> ak_key_hash ` set (api_keys (sdb s))"
    and k: "ak_key_hash k = hash_api_key raw" "ak_is_active k" and s': "api_keys (sdb s') = api_keys (sdb s) @ [k]"
    using assms by (auto simp: create_api_key_def add_api_key_def new_uuid_def Let_def rbind_eq_Inr split: if_splits)
  have "filter (\<lambda>k. ak_key_hash k = hash_api_key raw \<and> ak_is_active k) (api_keys (sdb s)) = []"
    using new by (auto simp: filter_empty_conv image_iff)
  then show ?thesis using k s' by (simp add: get_by_raw_key_def)
qed

subsection \<open>Refresh tokens: one valid token per family\<close>

definition valid_tokens :: "uuid \<Rightarrow> database \<Rightarrow> RefreshToken list" where
  "valid_tokens f db = filter (\<lambda>t. rt_family_id t = f \<and> rt_is_valid t) (refresh_tokens db)"

definition tokens_ok :: "database \<Rightarrow> bool" where
  "tokens_ok db \<longleftrightarrow> distinct (map rt_id (refresh_tokens db)) \<and> distinct (map rt_token_hash (refresh_tokens db)) \<and>
     (\<forall>f. length (valid_tokens f db) \<le> 1)"

lemma invalidate_fields [simp]:
  "rt_id (invalidate t) = rt_id t" "rt_token_hash (invalidate t) = rt_token_hash t" "rt_family_id (invalidate t) = rt_family_id t"
  "rt_is_valid (invalidate t) = False" "rt_api_key_id (invalidate t) = rt_api_key_id t"
  by (simp_all add: invalidate_def)

lemma valid_after_invalidate:
  "filter (\<lambda>t. rt_family_id t = f \<and> rt_is_valid t) (row_modify key k invalidate ts) =
   filter (\<lambda>t. key t \<noteq> k) (filter (\<lambda>t. rt_family_id t = f \<and> rt_is_valid t) ts)"
  by (induction ts) auto

lemma new_refresh_token_fields [simp]:
  "rt_id (new_refresh_token settings i raw f a u) = i" "rt_token_hash (new_refresh_token settings i raw f a u) = sha256_hexdigest raw"
  "rt_family_id (new_refresh_token settings i raw f a u) = f" "rt_api_key_id (new_refresh_token settings i raw f a u) = a"
  "rt_is_valid (new_refresh_token settings i raw f a u)"
  by (simp_all add: new_refresh_token_def)

lemma add_refresh_token_Inr:
  "add_refresh_token settings raw f a s = Inr s' \<longleftrightarrow>
   sha256_hexdigest raw \<notin> rt_token_hash ` set (refresh_tokens (sdb s)) \<and>
   s' = modify_db (refresh_tokens_update (\<lambda>ts. ts @ [new_refresh_token settings (uuids s (used s)) raw f a (now s)])) (s\<lparr>used := Suc (used s)\<rparr>)"
  by (auto simp: add_refresh_token_def new_uuid_def Let_def)

lemma tokens_ok_invalidate:
  assumes "tokens_ok db" and "refresh_tokens db' = row_modify key k invalidate (refresh_tokens db)"
  shows "tokens_ok db'"
proof -
  have "length (valid_tokens f db') \<le> length (valid_tokens f db)" for f
    unfolding valid_tokens_def assms(2) valid_after_invalidate by (rule length_filter_le)
  then show ?thesis using assms by (auto simp: tokens_ok_def map_row_modify intro: order_trans)
qed

lemma tokens_ok_add:
  assumes "tokens_ok db" and "refresh_tokens db' = refresh_tokens db @ [t]" and "rt_id t \<notin> rt_id ` set (refresh_tokens db)"
    and "rt_token_hash t \<notin> rt_token_hash ` set (refresh_tokens db)" and "valid_tokens (rt_family_id t) db = []"
  shows "tokens_ok db'"
proof -
  have "length (valid_tokens f db') \<le> 1" for f
    using assms(1,2,5) by (cases "f = rt_family_id t") (auto simp: tokens_ok_def valid_tokens_def)
  then show ?thesis using assms by (auto simp: tokens_ok_def)
qed

lemma find_token_Some:
  "find_token token db = Inr (Some t) \<Longrightarrow> t \<in> set (refresh_tokens db) \<and> rt_token_hash t = sha256_hexdigest token"
  by (auto simp: find_token_def scalar_one_or_none_Inr dest!: filter_singletonD)

text \<open>What a successful rotation has done.\<close>

lemma refresh_Inr:
  assumes "refresh_access_token settings enc random cookie body w = (Inr r, w')"
  obtains token t where "or_else cookie body = Some token" and "token \<noteq> []" and "find_token token (durable w) = Inr (Some t)"
    and "rt_is_valid t" and "clock w \<le> rt_expires_at t"
    and "sha256_hexdigest random \<notin> rt_token_hash ` set (refresh_tokens (durable w))"
    and "w' = w\<lparr>durable := refresh_tokens_update (\<lambda>ts. row_modify rt_id (rt_id t) invalidate ts @
           [new_refresh_token settings (ids w (ids_used w)) random (rt_family_id t) (rt_api_key_id t) (clock w)]) (durable w),
         ids_used := Suc (ids_used w)\<rparr>"
    and "tr_refresh_token r = random"
proof -
  from assms obtain token where tok: "or_else cookie body = Some token" "token \<noteq> []"
    by (auto simp: refresh_access_token_def split: option.splits if_splits)
  from assms tok obtain t where f: "find_token token (durable w) = Inr (Some t)" "rt_is_valid t" "clock w \<le> rt_expires_at t"
    by (auto simp: refresh_access_token_def split: sum.splits option.splits if_splits)
  let ?s = "modify_db (refresh_tokens_update (row_modify rt_id (rt_id t) invalidate)) (open_session w)"
  from assms tok f obtain s where a: "add_refresh_token settings random (rt_family_id t) (rt_api_key_id t) ?s = Inr s"
    and r: "tr_refresh_token r = random" and w': "w' = commit_session s w"
    by (auto simp: refresh_access_token_def token_response_def split: sum.splits)
  have h: "rt_token_hash ` set (row_modify rt_id (rt_id t) invalidate (refresh_tokens (durable w))) = rt_token_hash ` set (refresh_tokens (durable w))"
    by (metis invalidate_fields(2) list.set_map map_row_modify)
  have "sha256_hexdigest random \<notin> rt_token_hash ` set (refresh_tokens (durable w))"
    and s: "s = modify_db (refresh_tokens_update (\<lambda>ts. ts @ [new_refresh_token settings (ids w (ids_used w)) random (rt_family_id t)
       (rt_api_key_id t) (clock w)])) (?s\<lparr>used := Suc (ids_used w)\<rparr>)"
    using a h by (simp_all add: add_refresh_token_Inr)
  moreover have "w' = w\<lparr>durable := refresh_tokens_update (\<lambda>ts. row_modify rt_id (rt_id t) invalidate ts @
           [new_refresh_token settings (ids w (ids_used w)) random (rt_family_id t) (rt_api_key_id t) (clock w)]) (durable w),
         ids_used := Suc (ids_used w)\<rparr>"
    by (simp add: w' s commit_session_def comp_def)
  ultimately show thesis using that [OF tok f] r by blast
qed

lemma valid_tokens_single:
  assumes "tokens_ok db" and "t \<in> set (refresh_tokens db)" and "rt_is_valid t"
  shows "valid_tokens (rt_family_id t) db = [t]"
proof -
  have "t \<in> set (valid_tokens (rt_family_id t) db)" using assms by (simp add: valid_tokens_def)
  moreover have "length (valid_tokens (rt_family_id t) db) \<le> 1" using assms(1) by (simp add: tokens_ok_def)
  ultimately show ?thesis by (cases "valid_tokens (rt_family_id t) db") auto
qed

lemma tokens_ok_refresh:
  assumes ok: "tokens_ok (durable w)" and r: "refresh_access_token settings enc random cookie body w = (r, w')"
    and fresh: "ids w (ids_used w) \<notin> rt_id ` set (refresh_tokens (durable w))"
  shows "tokens_ok (durable w')"
proof (cases r)
  case (Inl e)
  then have "durable w' = durable w \<or> (\<exists>f. durable w' = invalidate_family f (durable w))"
    using r by (auto simp: refresh_access_token_def split: option.splits if_splits sum.splits)
  then show ?thesis
    using ok tokens_ok_invalidate [OF ok, of "durable w'" rt_family_id] by (auto simp: invalidate_family_def)
next
  case (Inr resp)
  from r [unfolded Inr] obtain token t where f: "find_token token (durable w) = Inr (Some t)" and v: "rt_is_valid t"
    and new: "sha256_hexdigest random \<notin> rt_token_hash ` set (refresh_tokens (durable w))"
    and w': "w' = w\<lparr>durable := refresh_tokens_update (\<lambda>ts. row_modify rt_id (rt_id t) invalidate ts @
           [new_refresh_token settings (ids w (ids_used w)) random (rt_family_id t) (rt_api_key_id t) (clock w)]) (durable w),
         ids_used := Suc (ids_used w)\<rparr>"
    by (rule refresh_Inr)
  let ?db = "refresh_tokens_update (row_modify rt_id (rt_id t) invalidate) (durable w)"
  have okd: "tokens_ok ?db" by (rule tokens_ok_invalidate [OF ok]) simp
  have "t \<in> set (refresh_tokens (durable w))" using find_token_Some [OF f] by blast
  then have "valid_tokens (rt_family_id t) (durable w) = [t]" using ok v by (intro valid_tokens_single)
  then have none: "valid_tokens (rt_family_id t) ?db = []"
    by (simp add: valid_tokens_def valid_after_invalidate)
  have "map rt_id (refresh_tokens ?db) = map rt_id (refresh_tokens (durable w))"
    "map rt_token_hash (refresh_tokens ?db) = map rt_token_hash (refresh_tokens (durable w))" by (simp_all add: map_row_modify)
  then have ids: "rt_id ` set (refresh_tokens ?db) = rt_id ` set (refresh_tokens (durable w))"
    "rt_token_hash ` set (refresh_tokens ?db) = rt_token_hash ` set (refresh_tokens (durable w))" by (metis list.set_map)+
  show ?thesis
    by (rule tokens_ok_add [OF okd, of _ "new_refresh_token settings (ids w (ids_used w)) random (rt_family_id t) (rt_api_key_id t) (clock w)"])
      (use ids new fresh none in \<open>auto simp: w'\<close>)
qed

text \<open>Presenting an invalidated token ends its whole family and touches nothing else.\<close>

lemma refresh_reused:
  assumes "or_else cookie body = Some token" and "token \<noteq> []" and "find_token token (durable w) = Inr (Some t)" and "\<not> rt_is_valid t"
  shows "refresh_access_token settings enc random cookie body w =
      (Inl (unauthorized ''Refresh token reused'' ''token_reused''), w\<lparr>durable := invalidate_family (rt_family_id t) (durable w)\<rparr>)"
    and "valid_tokens (rt_family_id t) (invalidate_family (rt_family_id t) (durable w)) = []"
    and "f \<noteq> rt_family_id t \<Longrightarrow> valid_tokens f (invalidate_family (rt_family_id t) (durable w)) = valid_tokens f (durable w)"
  using assms by (auto simp: refresh_access_token_def invalidate_family_def valid_tokens_def valid_after_invalidate filter_empty_conv
      intro!: filter_cong)

lemma find_token_after_rotation:
  assumes f: "find_token token (durable w) = Inr (Some t)" and ne: "token \<noteq> []"
    and r: "refresh_access_token settings enc random (Some token) body w = (Inr resp, w')"
  shows "find_token token (durable w') = Inr (Some (invalidate t))"
proof -
  have ft: "filter (\<lambda>t. rt_token_hash t = sha256_hexdigest token) (refresh_tokens (durable w)) = [t]"
    using f by (simp add: find_token_def scalar_one_or_none_Inr)
  have mem: "t \<in> set (refresh_tokens (durable w))" "rt_token_hash t = sha256_hexdigest token" using find_token_Some [OF f] by auto
  from r have w': "w' = w\<lparr>durable := refresh_tokens_update (\<lambda>ts. row_modify rt_id (rt_id t) invalidate ts @
           [new_refresh_token settings (ids w (ids_used w)) random (rt_family_id t) (rt_api_key_id t) (clock w)]) (durable w),
         ids_used := Suc (ids_used w)\<rparr>" and new: "sha256_hexdigest random \<notin> rt_token_hash ` set (refresh_tokens (durable w))"
    by (auto elim!: refresh_Inr simp: or_else_def ne f)
  have "sha256_hexdigest random \<noteq> sha256_hexdigest token" using new mem by (metis imageI)
  then show ?thesis by (simp add: find_token_def w' filter_row_modify ft)
qed

lemma tokens_ok_logout: "tokens_ok (durable w) \<Longrightarrow> logout cookie w = (r, w') \<Longrightarrow> tokens_ok (durable w')"
  using tokens_ok_invalidate [of "durable w" "durable w'" rt_id]
  by (auto simp: logout_def Let_def split: option.splits if_splits sum.splits)

lemma tokens_ok_keys: "refresh_tokens db' = refresh_tokens db \<Longrightarrow> tokens_ok db' = tokens_ok db"
  by (simp add: tokens_ok_def valid_tokens_def)

lemma tokens_ok_login:
  assumes ok: "tokens_ok (durable w)" and l: "login_for_access_token settings enc random key w = (r, w')"
    and fam: "ids w (ids_used w) \<notin> rt_family_id ` set (refresh_tokens (durable w))"
    and fresh: "ids w (Suc (ids_used w)) \<notin> rt_id ` set (refresh_tokens (durable w))"
  shows "tokens_ok (durable w')"
proof (cases "authenticate_api_key (Some key) (open_session w)")
  case (Inl e)
  then show ?thesis using ok l by (simp add: login_for_access_token_def)
next
  case (Inr ks)
  obtain i s where ks: "ks = (i, s)" by (cases ks)
  have s: "refresh_tokens (sdb s) = refresh_tokens (durable w)" "used s = ids_used w" "uuids s = ids w"
    using Inr ks by (auto simp: authenticate_api_key_def touch_key_def split: if_splits option.splits)
  have ok1: "tokens_ok (sdb s)" using ok tokens_ok_keys [OF s(1)] by simp
  let ?s1 = "(resume s (commit_session s w))\<lparr>used := Suc (ids_used w)\<rparr>" and ?f = "ids w (ids_used w)"
  show ?thesis
  proof (cases "add_refresh_token settings random ?f i ?s1")
    case e: (Inl e)
    then show ?thesis using l Inr ks s ok1 by (auto simp: login_for_access_token_def new_uuid_def Let_def)
  next
    case a: (Inr s2)
    then have w': "durable w' = sdb s2" using l Inr ks s by (auto simp: login_for_access_token_def new_uuid_def Let_def)
    have h: "sha256_hexdigest random \<notin> rt_token_hash ` set (refresh_tokens (durable w))"
      and s2: "refresh_tokens (sdb s2) = refresh_tokens (durable w) @ [new_refresh_token settings (ids w (Suc (ids_used w))) random ?f i (clock w)]"
      using a s by (simp_all add: add_refresh_token_Inr)
    have "valid_tokens ?f (durable w) = []" using fam by (auto simp: valid_tokens_def filter_empty_conv image_iff)
    then show ?thesis unfolding w' by (intro tokens_ok_add [OF ok s2]) (use fresh h in simp_all)
  qed
qed

subsection \<open>Access tokens: facts\<close>

lemma access_token_accepted:
  assumes "jwt_decode (create_access_token settings jwt_encode [(''api_key_id'', JStr (uuid_str i))] None t)
      (jwt_access_secret_key settings) [jwt_algorithm settings] =
    Inr [(''api_key_id'', JStr (uuid_str i)), (''exp'', JInt (t + minutes (jwt_access_token_expire_minutes settings))), (''type'', JStr ''access'')]"
    and "create_access_token settings jwt_encode [(''api_key_id'', JStr (uuid_str i))] None t \<noteq> []"
  shows "get_current_principal_from_token settings jwt_decode
      (Some (create_access_token settings jwt_encode [(''api_key_id'', JStr (uuid_str i))] None t)) = Inr i"
proof -
  have "uuid_str i \<noteq> []" using uuid_parse_str [of i] by (auto simp: uuid_parse_def strip_chars_def)
  then show ?thesis using assms by (simp add: get_current_principal_from_token_def uuid_parse_str)
qed

end
