(* ===== verification/Api.thy ===== *)
theory Api
  imports Transport Monitoring Auth Workflow_Service
begin

section \<open>The HTTP and websocket routes\<close>

text \<open>
  The routes of \<open>app/api\<close> over the services and over an \<open>engine_client\<close>, with the response models of
  \<open>app/schemas\<close>, and the websocket endpoint. The identity a route receives is the result of
  \<open>require_api_key_id\<close>. The interface \<open>isolating_client\<close> states what the routes rely on: whatever the
  transport, a client shows and changes only executions of the caller. It is interpreted for the local
  client and for the gRPC client.
\<close>

subsection \<open>Paging\<close>

text \<open>\<open>Query(ge=0, le=...)\<close> of the paging parameters.\<close>

definition paging :: "int \<Rightarrow> int \<Rightarrow> int \<Rightarrow> (nat \<times> nat) result" where
  "paging max_limit limit offset =
     (if 0 \<le> limit \<and> limit \<le> max_limit \<and> 0 \<le> offset then Inr (nat limit, nat offset)
      else Inl (RequestValidationError ''limit''))"

subsection \<open>Executions\<close>

record NodeExecutionResponse =
  nr_id :: uuid
  nr_execution_id :: uuid
  nr_node_id :: string
  nr_node_type :: string
  nr_status :: string
  nr_attempt :: int
  nr_max_attempts :: int
  nr_input_payload :: "jdict option"
  nr_output_payload :: "jdict option"
  nr_error_message :: "string option"

definition node_response :: "NodeExecutionDTO \<Rightarrow> NodeExecutionResponse" where
  "node_response n =
     \<lparr>nr_id = nd_id n, nr_execution_id = nd_execution_id n, nr_node_id = nd_node_id n, nr_node_type = nd_node_type n,
      nr_status = nd_status n, nr_attempt = nd_attempt n, nr_max_attempts = nd_max_attempts n,
      nr_input_payload = nd_input_payload n, nr_output_payload = nd_output_payload n, nr_error_message = nd_error_message n\<rparr>"

record ExecutionResponse =
  er_id :: uuid
  er_workflow_id :: uuid
  er_workflow_version_id :: uuid
  er_status :: string
  er_input_payload :: "jdict option"
  er_error_message :: "string option"
  er_node_executions :: "NodeExecutionResponse list"

definition execution_response :: "ExecutionDTO \<Rightarrow> ExecutionResponse" where
  "execution_response e =
     \<lparr>er_id = xd_id e, er_workflow_id = xd_workflow_id e, er_workflow_version_id = xd_workflow_version_id e,
      er_status = xd_status e, er_input_payload = xd_input_payload e, er_error_message = xd_error_message e,
      er_node_executions = map node_response (xd_node_executions e)\<rparr>"

definition list_executions_route ::
  "('q, 'c) engine_client \<Rightarrow> uuid \<Rightarrow> string option \<Rightarrow> int \<Rightarrow> int \<Rightarrow> ('q, 'c) world \<Rightarrow> ExecutionResponse list result" where
  "list_executions_route client owner status limit offset w =
     rbind (paging 100 limit offset) (\<lambda>(l, k).
     rbind (ec_list client owner status l k w) (\<lambda>executions. Inr (map execution_response executions)))"

text \<open>\<open>ExecutionResponse.model_validate(None)\<close> fails.\<close>

definition create_execution_route ::
  "('q, 'c) engine_client \<Rightarrow> uuid \<Rightarrow> jdict \<Rightarrow> uuid \<Rightarrow> ('q, 'c) world \<Rightarrow> ExecutionResponse result \<times> ('q, 'c) world" where
  "create_execution_route client workflow_version_id input_payload owner w =
     (case ec_start client \<lparr>cmd_workflow_version_id = workflow_version_id, cmd_input_payload = input_payload\<rparr> owner w of
        (Inl e, w') \<Rightarrow> (Inl e, w')
      | (Inr None, w') \<Rightarrow> (Inl (ValueError ''ExecutionResponse''), w')
      | (Inr (Some dto), w') \<Rightarrow> (Inr (execution_response dto), w'))"

definition get_execution_route ::
  "('q, 'c) engine_client \<Rightarrow> uuid \<Rightarrow> uuid \<Rightarrow> ('q, 'c) world \<Rightarrow> ExecutionResponse result" where
  "get_execution_route client execution_id owner w =
     rbind (ec_get client execution_id owner w) (\<lambda>execution.
     case execution of
       None \<Rightarrow> Inl (AppError ''Execution not found'' ''not_found'' 404)
     | Some dto \<Rightarrow> Inr (execution_response dto))"

definition delete_execution_route ::
  "('q, 'c) engine_client \<Rightarrow> uuid \<Rightarrow> uuid \<Rightarrow> ('q, 'c) world \<Rightarrow> unit result \<times> ('q, 'c) world" where
  "delete_execution_route client execution_id owner w = ec_delete client execution_id owner w"

definition get_execution_nodes_route ::
  "('q, 'c) engine_client \<Rightarrow> uuid \<Rightarrow> uuid \<Rightarrow> ('q, 'c) world \<Rightarrow> NodeExecutionResponse list result" where
  "get_execution_nodes_route client execution_id owner w =
     rbind (ec_nodes client execution_id owner w) (\<lambda>nodes. Inr (map node_response nodes))"

definition retry_node_execution_route ::
  "('q, 'c) engine_client \<Rightarrow> uuid \<Rightarrow> string \<Rightarrow> uuid \<Rightarrow> ('q, 'c) world \<Rightarrow> NodeExecutionResponse result \<times> ('q, 'c) world" where
  "retry_node_execution_route client execution_id node_id owner w =
     (case ec_retry client execution_id node_id owner w of
        (Inl e, w') \<Rightarrow> (Inl e, w')
      | (Inr n, w') \<Rightarrow> (Inr (node_response n), w'))"

record ExecutionLogResponse =
  lr_log_id :: uuid
  lr_timestamp :: time
  lr_level :: LogLevel
  lr_message :: string
  lr_metadata :: "jdict option"

definition from_log :: "ExecutionLog \<Rightarrow> ExecutionLogResponse" where
  "from_log l = \<lparr>lr_log_id = lg_id l, lr_timestamp = lg_created_at l, lr_level = lg_level l,
     lr_message = lg_message l, lr_metadata = lg_metadata l\<rparr>"

definition get_execution_logs_route ::
  "uuid \<Rightarrow> uuid \<Rightarrow> int \<Rightarrow> int \<Rightarrow> database \<Rightarrow> ExecutionLogResponse list result" where
  "get_execution_logs_route execution_id owner limit offset db =
     rbind (paging 100 limit offset) (\<lambda>(l, k).
     rbind (list_logs execution_id owner l k db) (\<lambda>logs. Inr (map from_log logs)))"

definition get_execution_timeline_route ::
  "uuid \<Rightarrow> uuid \<Rightarrow> int \<Rightarrow> database \<Rightarrow> ExecutionLogResponse list result" where
  "get_execution_timeline_route execution_id owner limit db =
     rbind (paging 1000 limit 0) (\<lambda>(l, k).
     rbind (get_timeline execution_id owner l db) (\<lambda>logs. Inr (map from_log logs)))"

subsection \<open>Dead letter jobs and workers\<close>

record DeadLetterJobResponse =
  dr_id :: uuid
  dr_execution_id :: uuid
  dr_node_execution_id :: uuid
  dr_redis_message_id :: "string option"
  dr_reason :: string
  dr_attempts :: int
  dr_payload :: "jdict option"
  dr_created_at :: time
  dr_resolved_at :: "time option"
  dr_resolution_note :: "string option"

definition dlq_response :: "DeadLetterJob \<Rightarrow> DeadLetterJobResponse" where
  "dlq_response j =
     \<lparr>dr_id = dj_id j, dr_execution_id = dj_execution_id j, dr_node_execution_id = dj_node_execution_id j,
      dr_redis_message_id = dj_redis_message_id j, dr_reason = dj_reason j, dr_attempts = dj_attempts j,
      dr_payload = dj_payload j, dr_created_at = dj_created_at j, dr_resolved_at = dj_resolved_at j,
      dr_resolution_note = dj_resolution_note j\<rparr>"

definition list_dlq_jobs_route :: "uuid \<Rightarrow> int \<Rightarrow> int \<Rightarrow> database \<Rightarrow> DeadLetterJobResponse list result" where
  "list_dlq_jobs_route owner limit offset db =
     rbind (paging 100 limit offset) (\<lambda>(l, k). Inr (map dlq_response (list_dlq_jobs owner l k db)))"

definition get_dlq_job_route :: "uuid \<Rightarrow> uuid \<Rightarrow> database \<Rightarrow> DeadLetterJobResponse result" where
  "get_dlq_job_route dlq_id owner db =
     rbind (get_dlq_job dlq_id owner db) (\<lambda>job.
     case job of
       None \<Rightarrow> Inl (AppError ''Dead letter job not found'' ''not_found'' 404)
     | Some j \<Rightarrow> Inr (dlq_response j))"

definition resolve_dlq_job_route ::
  "uuid \<Rightarrow> string option \<Rightarrow> uuid \<Rightarrow> ('q, 'c) world \<Rightarrow> DeadLetterJobResponse result \<times> ('q, 'c) world" where
  "resolve_dlq_job_route dlq_id resolution_note owner w =
     (case in_session (resolve_dlq_job dlq_id owner resolution_note) w of
        (Inl e, w') \<Rightarrow> (Inl e, w')
      | (Inr job, w') \<Rightarrow> (Inr (dlq_response job), w'))"

record WorkerResponse =
  wo_worker_id :: uuid
  wo_hostname :: string
  wo_status :: WorkerStatus
  wo_current_job_id :: "string option"
  wo_started_at :: time
  wo_last_heartbeat_at :: "time option"
  wo_heartbeat_age :: "time option"

text \<open>The field \<open>hostname\<close> is a string: other values in the metadata of a worker are refused.\<close>

definition from_worker :: "time \<Rightarrow> Worker \<Rightarrow> WorkerResponse result" where
  "from_worker t k =
     (case (case map_of (case wk_metadata k of None \<Rightarrow> [] | Some d \<Rightarrow> d) ''hostname'' of
              None \<Rightarrow> JStr ''unknown'' | Some h \<Rightarrow> h) of
        JStr hostname \<Rightarrow>
          Inr \<lparr>wo_worker_id = wk_id k, wo_hostname = hostname, wo_status = wk_status k,
               wo_current_job_id = wk_current_job_id k, wo_started_at = wk_created_at k,
               wo_last_heartbeat_at = wk_last_heartbeat_at k,
               wo_heartbeat_age = map_option (\<lambda>h. t - h) (wk_last_heartbeat_at k)\<rparr>
      | _ \<Rightarrow> Inl (ValueError ''hostname''))"

definition list_workers_route :: "uuid \<Rightarrow> int \<Rightarrow> int \<Rightarrow> ('q, 'c) world \<Rightarrow> WorkerResponse list result" where
  "list_workers_route owner limit offset w =
     rbind (paging 100 limit offset) (\<lambda>(l, k). rmap (from_worker (clock w)) (list_workers owner l k (durable w)))"

definition get_worker_route :: "uuid \<Rightarrow> uuid \<Rightarrow> ('q, 'c) world \<Rightarrow> WorkerResponse result" where
  "get_worker_route worker_id owner w = rbind (require_worker worker_id owner (durable w)) (from_worker (clock w))"

definition spawn_worker_route :: "nat \<Rightarrow> tasks \<Rightarrow> string result \<times> tasks" where
  "spawn_worker_route task ts =
     (case spawn_background_worker_task task ts of
        Inl e \<Rightarrow> (Inl e, ts)
      | Inr ts' \<Rightarrow> (Inr ''Spawned new worker in background'', ts'))"

definition get_metrics_summary :: "('q \<Rightarrow> nat result) option \<Rightarrow> uuid \<Rightarrow> ('q, 'c) world \<Rightarrow> MetricsSummaryResponse result" where
  "get_metrics_summary depth owner w = get_summary depth owner w"

subsection \<open>Health\<close>

record LiveResponse =
  lv_status :: string

definition live :: LiveResponse where
  "live = \<lparr>lv_status = ''ok''\<rparr>"

record ReadyResponse =
  rd_status_code :: nat
  rd_status :: string
  rd_database :: bool
  rd_redis :: bool

definition ready_route :: "bool \<Rightarrow> bool \<Rightarrow> ReadyResponse" where
  "ready_route database_ok redis_ok =
     (let is_ready = database_ok \<and> redis_ok
      in \<lparr>rd_status_code = (if is_ready then 200 else 503), rd_status = (if is_ready then ''ok'' else ''degraded''),
          rd_database = database_ok, rd_redis = redis_ok\<rparr>)"

subsection \<open>The websocket endpoint\<close>

definition ws_authorize :: "Settings \<Rightarrow> jwt_decoder \<Rightarrow> uuid \<Rightarrow> string option \<Rightarrow> database \<Rightarrow> bool result" where
  "ws_authorize settings jwt_decode execution_id token db =
     (case get_current_principal_from_token settings jwt_decode token of
        Inl (AppError m c st) \<Rightarrow> Inr False
      | Inl e \<Rightarrow> Inl e
      | Inr owner_id \<Rightarrow>
          rbind (scalar_one_or_none (filter (\<lambda>e. ex_id e = execution_id) (owned db owner_id))) (\<lambda>r. Inr (r \<noteq> None)))"

datatype ws_outcome = Rejected nat | Gone | Connected

text \<open>
  The handshake: an unauthorized client is closed with code 1008 before the accept; \<open>accept_ok\<close> is
  whether the accept succeeds. A connected socket is in the manager until its receive loop ends.
\<close>

definition ws_open ::
  "Settings \<Rightarrow> jwt_decoder \<Rightarrow> uuid \<Rightarrow> string option \<Rightarrow> bool \<Rightarrow> 'w \<Rightarrow> database \<Rightarrow> 'w connections \<Rightarrow>
   ws_outcome result \<times> 'w connections" where
  "ws_open settings jwt_decode execution_id token accept_ok websocket db m =
     (case ws_authorize settings jwt_decode execution_id token db of
        Inl e \<Rightarrow> (Inl e, m)
      | Inr False \<Rightarrow> (Inr (Rejected 1008), m)
      | Inr True \<Rightarrow>
          if \<not> accept_ok then (Inr Gone, m)
          else (Inr Connected, connect (uuid_str execution_id) websocket m))"

definition ws_close :: "uuid \<Rightarrow> 'w \<Rightarrow> 'w connections \<Rightarrow> 'w connections" where
  "ws_close execution_id websocket m = disconnect (uuid_str execution_id) websocket m"

subsection \<open>Isolation of the callers\<close>

definition owns :: "uuid \<Rightarrow> uuid \<Rightarrow> database \<Rightarrow> bool" where
  "owns owner x db \<longleftrightarrow> (\<exists>e \<in> set (owned db owner). ex_id e = x)"

lemma owns_iff:
  "owns owner x db \<longleftrightarrow> (\<exists>e \<in> set (executions db). ex_id e = x \<and>
     (\<exists>w \<in> set (workflows db). wf_id w = ex_workflow_id e \<and> wf_owner_api_key_id w = owner))"
  unfolding owns_def by (metis in_owned)

locale isolating_client =
  fixes client :: "('q, 'c) engine_client"
  assumes get_owned: "ec_get client x owner w = Inr (Some d) \<Longrightarrow> xd_id d = x \<and> owns owner x (durable w)"
    and nodes_owned: "ec_nodes client x owner w = Inr ns \<Longrightarrow> n \<in> set ns \<Longrightarrow> nd_execution_id n = x \<and> owns owner x (durable w)"
    and list_owned: "ec_list client owner status l k w = Inr ds \<Longrightarrow> d \<in> set ds \<Longrightarrow> owns owner (xd_id d) (durable w)"
    and retry_owned: "ec_retry client x nid owner w = (r, w') \<Longrightarrow> \<not> owns owner x (durable w) \<Longrightarrow> w' = w \<and> isl r"
    and delete_owned: "ec_delete client x owner w = (q, w') \<Longrightarrow> \<not> owns owner x (durable w) \<Longrightarrow> w' = w \<and> isl q"
begin

lemma get_route_owned:
  "get_execution_route client x owner w = Inr d \<Longrightarrow> er_id d = x \<and> owns owner x (durable w)"
  using get_owned by (fastforce simp: get_execution_route_def execution_response_def rbind_eq_Inr split: option.splits)

lemma get_route_stranger:
  "\<not> owns owner x (durable w) \<Longrightarrow> isl (get_execution_route client x owner w)"
  using get_route_owned by (cases "get_execution_route client x owner w") auto

lemma nodes_route_stranger:
  "\<not> owns owner x (durable w) \<Longrightarrow> get_execution_nodes_route client x owner w = Inr ns \<Longrightarrow> ns = []"
  using nodes_owned [of x owner w] by (fastforce simp: get_execution_nodes_route_def rbind_eq_Inr)

lemma list_route_owned:
  "list_executions_route client owner status l k w = Inr ds \<Longrightarrow> d \<in> set ds \<Longrightarrow> owns owner (er_id d) (durable w)"
  using list_owned by (fastforce simp: list_executions_route_def execution_response_def rbind_eq_Inr)

lemma writes_stranger:
  assumes "\<not> owns owner x (durable w)"
  shows "snd (retry_node_execution_route client x nid owner w) = w" and "isl (fst (retry_node_execution_route client x nid owner w))"
    and "snd (delete_execution_route client x owner w) = w" and "isl (fst (delete_execution_route client x owner w))"
proof -
  obtain r w1 where r: "ec_retry client x nid owner w = (r, w1)" by fastforce
  with retry_owned [OF r assms] show "snd (retry_node_execution_route client x nid owner w) = w"
    and "isl (fst (retry_node_execution_route client x nid owner w))"
    by (auto simp: retry_node_execution_route_def split: sum.splits)
  obtain q w2 where q: "ec_delete client x owner w = (q, w2)" by fastforce
  with delete_owned [OF q assms] show "snd (delete_execution_route client x owner w) = w"
    and "isl (fst (delete_execution_route client x owner w))"
    by (auto simp: delete_execution_route_def)
qed

end

lemma scalar_owned:
  "scalar_one_or_none (filter (\<lambda>e. ex_id e = x) (owned db owner)) = Inr (Some e) \<Longrightarrow> ex_id e = x \<and> owns owner x db"
  by (auto simp: scalar_one_or_none_Inr owns_def dest!: filter_singletonD)

lemma get_execution_Some:
  assumes "get_execution x owner db = Inr (Some d)"
  shows "xd_id d = x \<and> owns owner x db"
proof -
  obtain e ns where "scalar_one_or_none (filter (\<lambda>e. ex_id e = x) (owned db owner)) = Inr (Some e)" "d = execution_dto e ns"
    using assms by (auto simp: get_execution_def rbind_eq_Inr split: option.splits)
  then show ?thesis using scalar_owned [of x db owner e] by (simp add: execution_dto_def)
qed

lemma get_node_executions_in:
  assumes "get_node_executions x owner db = Inr ns" and "n \<in> set ns"
  shows "nd_execution_id n = x \<and> owns owner x db"
proof -
  obtain e where e: "scalar_one_or_none (filter (\<lambda>e. ex_id e = x) (owned db owner)) = Inr (Some e)"
    and ns: "ns = map node_dto (filter (\<lambda>n. ne_execution_id n = x) (node_executions db))"
    using assms by (auto simp: get_node_executions_def rbind_eq_Inr split: option.splits)
  show ?thesis using assms(2) scalar_owned [OF e] by (auto simp: ns node_dto_def)
qed

lemma list_executions_in:
  assumes "list_executions owner status l k db = Inr ds" and "d \<in> set ds"
  shows "owns owner (xd_id d) db"
proof -
  have "\<exists>P. ds = map (\<lambda>e. execution_dto e []) (page l k (order_desc_nullslast ex_started_at (filter P (owned db owner))))"
    using assms(1) by (auto simp: list_executions_def rbind_eq_Inr split: option.splits intro: exI [of _ "\<lambda>_. True"])
  then obtain P where ds: "ds = map (\<lambda>e. execution_dto e []) (page l k (order_desc_nullslast ex_started_at (filter P (owned db owner))))"
    by blast
  obtain e where e: "e \<in> set (page l k (order_desc_nullslast ex_started_at (filter P (owned db owner))))" "d = execution_dto e []"
    using assms(2) ds by auto
  have "e \<in> set (owned db owner)" using subsetD [OF set_page_subset e(1)] by auto
  then show ?thesis using e(2) by (auto simp: owns_def execution_dto_def)
qed

lemma retry_node_stranger:
  assumes "retry_node publish ws_publish x nid owner w = (r, w')" and "\<not> owns owner x (durable w)"
  shows "w' = w \<and> isl r"
proof (cases "retry_unit x nid owner (open_session w)")
  case (Inl e)
  then show ?thesis using assms by (auto simp: retry_node_def)
next
  case (Inr rs)
  obtain e n s where "rs = ((e, n), s)" by (metis prod.exhaust)
  then have "retry_unit x nid owner (open_session w) = Inr ((e, n), s)" using Inr by simp
  then show ?thesis by (rule retry_unit_Inr) (use assms(2) in \<open>auto simp: owns_def\<close>)
qed

lemma delete_execution_stranger:
  assumes "delete_execution x owner w = (r, w')" and "\<not> owns owner x (durable w)"
  shows "w' = w \<and> isl r"
proof (cases r)
  case (Inl e)
  then show ?thesis using assms(1) by (simp add: delete_execution_def in_session_Inl)
next
  case (Inr u)
  then obtain s where "delete_unit x owner (open_session w) = Inr (u, s)" using assms(1) by (auto simp: delete_execution_def in_session_Inr)
  from delete_unit_Inr(2) [OF this] show ?thesis using assms(2) by (simp add: owns_def)
qed

interpretation local: isolating_client "local_client registry publish ws_publish"
  by unfold_locales
    (auto simp: local_client_def dest: get_execution_Some get_node_executions_in list_executions_in retry_node_stranger delete_execution_stranger)

lemma rmap_in: "rmap f xs = Inr ys \<Longrightarrow> y \<in> set ys \<Longrightarrow> \<exists>x \<in> set xs. f x = Inr y"
  by (induction xs arbitrary: ys) (auto simp: rbind_eq_Inr)

lemma node_pb_execution:
  "map_node_execution_dto_to_pb to_struct n = Inr m \<Longrightarrow> map_node_execution to_dict m = Inr n' \<Longrightarrow> nd_execution_id n' = nd_execution_id n"
  by (auto simp: map_node_execution_dto_to_pb_def map_node_execution_def rbind_eq_Inr uuid_parse_str)

lemma execution_pb_id:
  "map_execution_dto_to_pb to_struct e = Inr m \<Longrightarrow> map_execution to_dict m = Inr e' \<Longrightarrow> xd_id e' = xd_id e"
  by (auto simp: map_execution_dto_to_pb_def map_execution_def rbind_eq_Inr uuid_parse_str)

lemma received_Inr: "received r = Inr x \<longleftrightarrow> r = Inr x"
  by (auto simp: received_def split: sum.splits)

lemma guarded_Inr: "guarded r = Inr x \<longleftrightarrow> r = Inr x"
  by (auto simp: guarded_def split: sum.splits)

lemma isl_received_guarded [simp]: "isl (rbind (received (guarded r)) f) \<longleftrightarrow> isl (rbind r f)" "isl (received (guarded r)) \<longleftrightarrow> isl r"
  by (auto simp: received_def guarded_def rbind_def split: sum.splits)

text \<open>Over gRPC the client of any isolating engine isolates.\<close>


lemma grpc_get_Some:
  assumes "isolating_client engine" and "grpc_get engine to_struct to_dict x owner w = Inr (Some d)"
  shows "xd_id d = x \<and> owns owner x (durable w)"
proof -
  obtain m where m: "GetExecution engine to_struct (uuid_str x) (uuid_str owner) w = Inr m" and d: "map_execution to_dict m = Inr d"
    using assms(2) by (auto simp: grpc_get_def rbind_eq_Inr split: sum.splits prod.splits rpc_status.splits)
  obtain e where e: "ec_get engine x owner w = Inr (Some e)" "map_execution_dto_to_pb to_struct e = Inr m"
    using m by (auto simp: GetExecution_def uuid_parse_str guarded_Inr guarded_def [of "Inl _"] split: sum.splits option.splits)
  then show ?thesis using isolating_client.get_owned [OF assms(1) e(1)] execution_pb_id [OF e(2) d] by simp
qed

lemma grpc_nodes_in:
  assumes "isolating_client engine" and "grpc_nodes engine to_struct to_dict x owner w = Inr ns" and "n \<in> set ns"
  shows "nd_execution_id n = x \<and> owns owner x (durable w)"
proof -
  obtain ms es where es: "ec_nodes engine x owner w = Inr es" "rmap (map_node_execution_dto_to_pb to_struct) es = Inr ms"
    and ns: "rmap (map_node_execution to_dict) ms = Inr ns"
    using assms(2) by (auto simp: grpc_nodes_def GetNodeExecutions_def rbind_eq_Inr received_Inr guarded_Inr uuid_parse_str)
  obtain m where m: "m \<in> set ms" "map_node_execution to_dict m = Inr n" using rmap_in [OF ns assms(3)] by blast
  obtain e where e: "e \<in> set es" "map_node_execution_dto_to_pb to_struct e = Inr m" using rmap_in [OF es(2) m(1)] by blast
  show ?thesis using isolating_client.nodes_owned [OF assms(1) es(1) e(1)] node_pb_execution [OF e(2) m(2)] by simp
qed

lemma grpc_list_in:
  assumes "isolating_client engine" and "grpc_list engine to_struct to_dict owner status l k w = Inr ds" and "d \<in> set ds"
  shows "owns owner (xd_id d) (durable w)"
proof -
  obtain ms es where es: "ec_list engine owner (pb_text status) (if l \<noteq> 0 then l else 50) k w = Inr es" "rmap (map_execution_dto_to_pb to_struct) es = Inr ms"
    and ds: "rmap (map_execution to_dict) ms = Inr ds"
    using assms(2) by (auto simp: grpc_list_def ListExecutions_def rbind_eq_Inr received_Inr guarded_Inr uuid_parse_str)
  obtain m where m: "m \<in> set ms" "map_execution to_dict m = Inr d" using rmap_in [OF ds assms(3)] by blast
  obtain e where e: "e \<in> set es" "map_execution_dto_to_pb to_struct e = Inr m" using rmap_in [OF es(2) m(1)] by blast
  show ?thesis using isolating_client.list_owned [OF assms(1) es(1) e(1)] execution_pb_id [OF e(2) m(2)] by simp
qed

lemma grpc_retry_stranger:
  assumes "isolating_client engine" and "grpc_retry engine to_struct to_dict x nid owner w = (r, w')" and "\<not> owns owner x (durable w)"
  shows "w' = w \<and> isl r"
proof -
  obtain q v where q: "ec_retry engine x nid owner w = (q, v)" by (cases "ec_retry engine x nid owner w")
  have "v = w" "isl q" using isolating_client.retry_owned [OF assms(1) q assms(3)] by auto
  moreover obtain e where "q = Inl e" using \<open>isl q\<close> by (cases q) auto
  ultimately show ?thesis using assms(2) q
    by (auto simp: grpc_retry_def RetryNode_def uuid_parse_str guarded_def received_def)
qed

lemma grpc_delete_stranger:
  assumes "isolating_client engine" and "grpc_delete engine x owner w = (r, w')" and "\<not> owns owner x (durable w)"
  shows "w' = w \<and> isl r"
proof -
  obtain q v where q: "ec_delete engine x owner w = (q, v)" by (cases "ec_delete engine x owner w")
  have "v = w" "isl q" using isolating_client.delete_owned [OF assms(1) q assms(3)] by auto
  moreover obtain e where "q = Inl e" using \<open>isl q\<close> by (cases q) auto
  ultimately show ?thesis using assms(2) q
    by (auto simp: grpc_delete_def DeleteExecution_def uuid_parse_str guarded_def received_def)
qed

lemma grpc_isolating:
  assumes "isolating_client engine"
  shows "isolating_client (grpc_client engine to_struct struct_items to_dict)"
  by unfold_locales
    (simp_all add: grpc_client_def grpc_get_Some [OF assms] grpc_nodes_in [OF assms] grpc_list_in [OF assms],
     (blast dest: grpc_retry_stranger [OF assms] grpc_delete_stranger [OF assms])+)

interpretation remote: isolating_client "grpc_client (local_client registry publish ws_publish) to_struct struct_items to_dict"
  by (rule grpc_isolating) (rule local.isolating_client_axioms)

end
