(* ===== verification/Worker_Lifecycle.thy ===== *)
theory Worker_Lifecycle
  imports World_Invariant
begin

section \<open>The life of a worker\<close>

text \<open>
  \<open>app/worker/__main__.py\<close> and \<open>start_background_worker\<close> of \<open>app/worker/background.py\<close>: a worker
  registers, then runs three tasks (the consumer, the heartbeat, the recovery) until the stop event,
  and is marked offline. The tasks are interleaved by a schedule, a list that says which task takes
  its next turn; the schedule ends where the stop event is set. An exception of the consumer ends the
  worker; the other two loops log theirs and go on.
\<close>

record ('q, 'c) worker_env =
  we_api :: "'q consumer_api"
  we_registry :: ExecutorRegistry
  we_publish :: "Job \<Rightarrow> 'q \<Rightarrow> string option result \<times> 'q"
  we_ws_publish :: "string \<Rightarrow> Envelope \<Rightarrow> 'c \<Rightarrow> unit result \<times> 'c"
  we_ensure_group :: "'q \<Rightarrow> unit result \<times> 'q"
  we_is_timeout :: "exn \<Rightarrow> bool"
  we_worker_name :: string
  we_hostname :: string
  we_pid :: int
  we_poll_count :: nat
  we_idle_timeout_ms :: int

text \<open>\<open>ensure_consumer_group\<close> of \<open>runtime.py\<close>: a fresh publisher on the connection makes the group.\<close>

definition ensure_group :: "'r redis_api \<Rightarrow> string \<Rightarrow> string \<Rightarrow> 'r \<Rightarrow> unit result \<times> 'r" where
  "ensure_group api stream_name consumer_group r =
     (case ensure_consumer_group api \<lparr>rp_redis = r, rp_stream_name = stream_name,
             rp_consumer_group = consumer_group, rp_group_ready = False\<rparr> of
        (res, p) \<Rightarrow> (res, rp_redis p))"

text \<open>\<open>settings.worker_name or f"worker-{hostname}-{pid}-{uuid4()}"\<close>; a uuid is drawn only when it is needed.\<close>

definition consumer_name :: "('q, 'c) worker_env \<Rightarrow> ('q, 'c) world \<Rightarrow> string \<times> ('q, 'c) world" where
  "consumer_name env w =
     (if we_worker_name env \<noteq> [] then (we_worker_name env, w)
      else (''worker-'' @ we_hostname env @ ''-'' @ int_str (we_pid env) @ ''-'' @ uuid_str (ids w (ids_used w)),
            w\<lparr>ids_used := Suc (ids_used w)\<rparr>))"

datatype worker_task = Consume | Heartbeat | Recover

type_synonym ('q, 'c) worker_state = "HeartbeatController \<times> ('q, 'c) world"

definition consume_turn :: "('q, 'c) worker_env \<Rightarrow> ('q, 'c) worker_state \<Rightarrow> unit result \<times> ('q, 'c) worker_state" where
  "consume_turn env hw =
     (case consumer_turn (we_api env) (we_registry env) (we_publish env) (we_ws_publish env) (we_is_timeout env)
             (we_poll_count env) (Some (fst hw), snd hw) of
        (res, Some h, w) \<Rightarrow> (res, h, w)
      | (res, None, w) \<Rightarrow> (res, fst hw, w))"

fun run_tasks ::
  "('q, 'c) worker_env \<Rightarrow> string \<Rightarrow> worker_task list \<Rightarrow> ('q, 'c) worker_state \<Rightarrow> unit result \<times> ('q, 'c) worker_state" where
  "run_tasks env name [] hw = (Inr (), hw)"
| "run_tasks env name (Consume # ts) hw =
     (case consume_turn env hw of
        (Inl e, hw1) \<Rightarrow> (Inl e, hw1)
      | (Inr _, hw1) \<Rightarrow> run_tasks env name ts hw1)"
| "run_tasks env name (Heartbeat # ts) hw = run_tasks env name ts (fst hw, heartbeat_tick (fst hw) (snd hw))"
| "run_tasks env name (Recover # ts) hw =
     run_tasks env name ts
       (fst hw, recovery_pass (we_api env) (we_registry env) (we_publish env) (we_ws_publish env) name
                  (we_idle_timeout_ms env) (snd hw))"

definition run_worker ::
  "('q, 'c) worker_env \<Rightarrow> string \<Rightarrow> worker_task list \<Rightarrow> ('q, 'c) worker_state \<Rightarrow> unit result \<times> ('q, 'c) worker_state" where
  "run_worker env name ts hw =
     (case we_ensure_group env (queue (snd hw)) of
        (Inl e, q) \<Rightarrow> (Inl e, fst hw, (snd hw)\<lparr>queue := q\<rparr>)
      | (Inr _, q) \<Rightarrow> run_tasks env name ts (set_status W_IDLE None (fst hw), (snd hw)\<lparr>queue := q\<rparr>))"

text \<open>The \<open>finally\<close> block: the controller says STOPPING, the row goes offline.\<close>

definition stop_worker :: "('q, 'c) worker_state \<Rightarrow> ('q, 'c) worker_state" where
  "stop_worker hw =
     (set_status W_STOPPING None (fst hw),
      commit_session (mark_offline (hb_worker_id (fst hw)) (open_session (snd hw))) (snd hw))"

definition start_background_worker ::
  "('q, 'c) worker_env \<Rightarrow> uuid option \<Rightarrow> worker_task list \<Rightarrow> ('q, 'c) world \<Rightarrow>
   HeartbeatController result \<times> ('q, 'c) world" where
  "start_background_worker env owner ts w =
     (let (name, w0) = consumer_name env w in
      case in_session (register_worker name (we_hostname env) owner) w0 of
        (Inl e, w1) \<Rightarrow> (Inl e, w1)
      | (Inr worker, w1) \<Rightarrow>
          (let (res, hw) = run_worker env name ts (set_status W_IDLE None (new_heartbeat (wk_id worker)), w1);
               (h, w2) = stop_worker hw
           in (rbind res (\<lambda>_. Inr h), w2)))"

text \<open>The worker process is a worker without an owner.\<close>

definition worker_main ::
  "('q, 'c) worker_env \<Rightarrow> worker_task list \<Rightarrow> ('q, 'c) world \<Rightarrow> HeartbeatController result \<times> ('q, 'c) world" where
  "worker_main env ts w = start_background_worker env None ts w"

subsection \<open>The controller\<close>

lemma hb_set_status [simp]: "hb_worker_id (set_status st job h) = hb_worker_id h"
  by (simp add: set_status_def Let_def split: option.splits)

lemma process_and_ack_heartbeat:
  assumes "fst hw = Some h" and "heartbeat_ok h"
  obtains h1 where "fst (snd (process_and_ack api registry publish ws_publish msg hw)) = Some h1"
    and "heartbeat_ok h1" and "hb_worker_id h1 = hb_worker_id h"
proof -
  obtain w where hw: "hw = (Some h, w)" using assms(1) by (cases hw) simp
  show thesis
  proof (cases "deserialize_job_payload (snd msg)")
    case (Inl e)
    then show ?thesis using that assms by (simp add: process_and_ack_def)
  next
    case (Inr job)
    let ?h = "set_status W_BUSY (Some (uuid_str (j_node_execution_id job))) h"
    have "fst (snd (process_and_ack api registry publish ws_publish msg hw)) = Some ?h"
      by (simp add: process_and_ack_def hw Inr Let_def split: prod.splits sum.splits)
    then show ?thesis by (rule that) (simp_all add: set_status_ok)
  qed
qed

lemma process_batch_heartbeat:
  assumes "fst hw = Some h" and "heartbeat_ok h"
  shows "\<exists>h1. fst (process_batch api registry publish ws_publish msgs hw) = Some h1 \<and>
    heartbeat_ok h1 \<and> hb_worker_id h1 = hb_worker_id h"
  using assms
proof (induction msgs arbitrary: hw h)
  case (Cons msg msgs)
  obtain h1 where "fst (snd (process_and_ack api registry publish ws_publish msg hw)) = Some h1"
    and "heartbeat_ok h1" and "hb_worker_id h1 = hb_worker_id h"
    by (rule process_and_ack_heartbeat [OF Cons.prems])
  with Cons.IH show ?case by fastforce
qed simp

lemma consume_turn_heartbeat:
  assumes "heartbeat_ok (fst hw)"
  shows "heartbeat_ok (fst (snd (consume_turn env hw))) \<and>
    hb_worker_id (fst (snd (consume_turn env hw))) = hb_worker_id (fst hw)"
proof (cases "xreadgroup (we_api env) (we_poll_count env) (queue (snd hw))")
  case (Pair r q)
  show ?thesis
  proof (cases r)
    case (Inl e)
    then show ?thesis using assms Pair by (simp add: consume_turn_def consumer_turn_def)
  next
    case (Inr ms)
    obtain h1 where "fst (process_batch (we_api env) (we_registry env) (we_publish env) (we_ws_publish env) ms
          (Some (fst hw), (snd hw)\<lparr>queue := q\<rparr>)) = Some h1" and "hb_worker_id h1 = hb_worker_id (fst hw)"
      using process_batch_heartbeat [of "(Some (fst hw), (snd hw)\<lparr>queue := q\<rparr>)" "fst hw" "we_api env" "we_registry env"
          "we_publish env" "we_ws_publish env" ms] assms by auto
    then show ?thesis using assms Pair Inr
      by (auto simp: consume_turn_def consumer_turn_def set_status_ok split: prod.splits)
  qed
qed

lemma run_tasks_heartbeat:
  assumes "heartbeat_ok (fst hw)"
  shows "heartbeat_ok (fst (snd (run_tasks env name ts hw))) \<and>
    hb_worker_id (fst (snd (run_tasks env name ts hw))) = hb_worker_id (fst hw)"
  using assms
proof (induction env name ts hw rule: run_tasks.induct)
  case (2 env name ts hw)
  then show ?case using consume_turn_heartbeat [OF 2(2), of env] by (auto split: prod.splits sum.splits)
qed auto

subsection \<open>The tables\<close>

lemma run_view_workers [simp]: "run_view x (workers_update f db) = run_view x db"
  by (rule ext) (simp add: run_view_def execution_rows_def)

lemma db_ok_workers [simp]: "db_ok (workers_update f db) = db_ok db"
  by (simp add: db_ok_def tables_ok_def nodes_ok_def runs_ok_def rows_ok_def status_ok_def run_ok_def
      execution_rows_def dead_letters_def)

lemma register_worker_Inr:
  assumes "register_worker n h owner s = Inr (k, s')"
  obtains f where "sdb s' = workers_update f (sdb s)" and "wk_status k = W_STARTING" and "wk_current_job_id k = None"
proof -
  let ?q = "scalar_one_or_none (filter (\<lambda>k. wk_worker_name k = n \<and>
      (case owner of None \<Rightarrow> True | Some i \<Rightarrow> wk_owner_api_key_id k = Some i)) (workers (sdb s)))"
  obtain found where q: "?q = Inr found" using assms by (cases ?q) (simp_all add: register_worker_def)
  note r = assms [unfolded register_worker_def q rbind_Inr]
  show thesis
  proof (cases found)
    case None
    with r show thesis by (intro that [of "\<lambda>ks. ks @ [k]"])
      (auto simp: new_uuid_def modify_db_def new_worker_def Let_def split: if_splits)
  next
    case (Some r0)
    with r show thesis by (intro that [of "row_modify wk_id (wk_id r0) (restart_worker h (now s))"])
      (auto simp: modify_db_def restart_worker_def)
  qed
qed

lemma register_worker_db_ok: "register_worker n h owner s = Inr (k, s') \<Longrightarrow> db_ok (sdb s) \<Longrightarrow> db_ok (sdb s')"
  by (erule register_worker_Inr) simp

lemma heartbeat_tick_ok: "db_ok (durable w) \<Longrightarrow> db_ok (durable (heartbeat_tick h w))"
  by (simp add: heartbeat_tick_def snapshot_def update_heartbeat_def commit_session_def open_session_def
      modify_db_def split: option.splits)

lemma consume_turn_ok: "db_ok (durable (snd hw)) \<Longrightarrow> db_ok (durable (snd (snd (consume_turn env hw))))"
  using consumer_turn_ok [of "(Some (fst hw), snd hw)" "we_api env" "we_registry env" "we_publish env" "we_ws_publish env"
      "we_is_timeout env" "we_poll_count env"]
  by (auto simp: consume_turn_def split: prod.splits option.splits)

lemma run_tasks_ok: "db_ok (durable (snd hw)) \<Longrightarrow> db_ok (durable (snd (snd (run_tasks env name ts hw))))"
proof (induction env name ts hw rule: run_tasks.induct)
  case (2 env name ts hw)
  then show ?case using consume_turn_ok [OF 2(2), of env] by (auto split: prod.splits sum.splits)
qed (simp_all add: heartbeat_tick_ok recovery_pass_ok)

lemma run_worker_ok: "db_ok (durable (snd hw)) \<Longrightarrow> db_ok (durable (snd (snd (run_worker env name ts hw))))"
  by (auto simp: run_worker_def split: prod.splits sum.splits intro: run_tasks_ok)

lemma run_worker_id:
  assumes "heartbeat_ok (fst hw)"
  shows "hb_worker_id (fst (snd (run_worker env name ts hw))) = hb_worker_id (fst hw)"
  using run_tasks_heartbeat [of "(set_status W_IDLE None (fst hw), q)" env name ts for q]
  by (auto simp: run_worker_def set_status_ok split: prod.splits sum.splits)

lemma stop_worker_ok: "db_ok (durable (snd hw)) \<Longrightarrow> db_ok (durable (snd (stop_worker hw)))"
  by (simp add: stop_worker_def mark_offline_def commit_session_def open_session_def modify_db_def split: option.splits)

lemma stop_worker_offline:
  "row_get wk_id (hb_worker_id (fst hw)) (workers (durable (snd (stop_worker hw)))) = Some k \<Longrightarrow>
   wk_status k = W_OFFLINE \<and> wk_current_job_id k = None"
  by (auto simp: stop_worker_def mark_offline_def commit_session_def open_session_def modify_db_def row_get_modify
      beat_def split: option.splits)

lemma consumer_name_durable [simp]: "durable (snd (consumer_name env w)) = durable w"
  by (simp add: consumer_name_def)

lemma worker_life:
  assumes "db_ok (durable w)" and "start_background_worker env owner ts w = (res, w')"
  shows "db_ok (durable w')" and "res = Inr h \<Longrightarrow> hb_status h = W_STOPPING \<and> hb_current_job_id h = None \<and>
    (\<forall>k. row_get wk_id (hb_worker_id h) (workers (durable w')) = Some k \<longrightarrow>
       wk_status k = W_OFFLINE \<and> wk_current_job_id k = None)"
proof -
  obtain name w0 where n: "consumer_name env w = (name, w0)" by (cases "consumer_name env w")
  have d0: "db_ok (durable w0)" using assms(1) consumer_name_durable [of env w] n by simp
  show "db_ok (durable w')"
  proof (cases "register_worker name (we_hostname env) owner (open_session w0)")
    case (Inl e)
    then show ?thesis using assms(2) d0 by (simp add: start_background_worker_def n in_session_def)
  next
    case (Inr ks)
    obtain k s where ks: "ks = (k, s)" by (cases ks)
    have "db_ok (sdb s)" using register_worker_db_ok [OF Inr [unfolded ks]] d0 by (simp add: open_session_def)
    then have "db_ok (durable (commit_session s w0))" by (simp add: commit_session_def)
    then show ?thesis using assms(2) Inr ks
      run_worker_ok [of "(set_status W_IDLE None (new_heartbeat (wk_id k)), commit_session s w0)" env name ts]
      stop_worker_ok [of "snd (run_worker env name ts (set_status W_IDLE None (new_heartbeat (wk_id k)), commit_session s w0))"]
      by (auto simp: start_background_worker_def n in_session_def Let_def split: prod.splits)
  qed
  show "res = Inr h \<Longrightarrow> hb_status h = W_STOPPING \<and> hb_current_job_id h = None \<and>
    (\<forall>k. row_get wk_id (hb_worker_id h) (workers (durable w')) = Some k \<longrightarrow>
       wk_status k = W_OFFLINE \<and> wk_current_job_id k = None)"
  proof -
    assume "res = Inr h"
    then obtain hw where s: "stop_worker hw = (h, w')" using assms(2) n
      by (auto simp: start_background_worker_def in_session_def Let_def rbind_eq_Inr split: prod.splits sum.splits)
    have h: "h = set_status W_STOPPING None (fst hw)" using s by (simp add: stop_worker_def)
    show ?thesis using stop_worker_offline [of hw] s by (auto simp: h set_status_def)
  qed
qed

end
