(* ===== verification/Engine_Facts.thy ===== *)
theory Engine_Facts
  imports Samples_Done Api Worker_Lifecycle
begin

section \<open>Recovery, retry and deletion\<close>

text \<open>
  What the operations of the recovery loop and of the engine do to the rows, and the sample queue on
  which they are run.
\<close>

subsection \<open>Recovery\<close>

lemma claim_stale_pending_stale:
  assumes claim: "\<And>t ms q r q'. xclaim api t ms q = (Inr r, q') \<Longrightarrow> fst ` set r \<subseteq> set ms"
    and c: "claim_stale_pending api idle_timeout_ms batch_size q = (Inr claimed, q')" and m: "(message_id, fs, previous) \<in> set claimed"
  shows "\<exists>pending q1. xpending_range api batch_size q = (Inr pending, q1) \<and>
    (\<exists>p \<in> set pending. pe_message_id p = message_id \<and> pe_time_since_delivered p \<ge> idle_timeout_ms \<and> pe_consumer p = previous)"
proof -
  obtain pending q1 where p: "xpending_range api batch_size q = (Inr pending, q1)"
    using c by (auto simp: claim_stale_pending_def split: prod.splits sum.splits)
  let ?stale = "filter (\<lambda>p. pe_time_since_delivered p \<ge> idle_timeout_ms) pending"
  let ?prev = "rev (map (\<lambda>p. (pe_message_id p, pe_consumer p)) ?stale)"
  obtain r where x: "xclaim api idle_timeout_ms (map pe_message_id ?stale) q1 = (Inr r, q')"
    and cl: "claimed = map (\<lambda>(i, fs). (i, fs, case map_of ?prev i of None \<Rightarrow> None | Some c \<Rightarrow> c)) r"
    using c m by (auto simp: claim_stale_pending_def p Let_def split: prod.splits sum.splits if_splits)
  have prev: "previous = (case map_of ?prev message_id of None \<Rightarrow> None | Some c \<Rightarrow> c)" and "message_id \<in> fst ` set r"
    using m cl by force+
  then have "message_id \<in> pe_message_id ` set ?stale" using claim [OF x] by (auto simp del: set_filter)
  then have "message_id \<in> fst ` set ?prev" by force
  then obtain c where c: "map_of ?prev message_id = Some c" by (metis map_of_eq_None_iff not_None_eq)
  then have "(message_id, c) \<in> set ?prev" by (rule map_of_SomeD)
  then show ?thesis using p prev c by auto
qed

lemma recover_unit_requeues:
  assumes ok: "nodes_ok (sdb s)" and n: "row_get ne_id (j_node_execution_id job) (node_executions (sdb s)) = Some n"
    and st: "ne_status n = RUNNING" and r: "recover_unit job m p c s = (r, s')"
  shows "r = Some True \<and> row_get ne_id (ne_id n) (node_executions (sdb s')) = Some (n\<lparr>ne_status := QUEUED\<rparr>) \<and>
    (\<exists>n' s2. claim_unit job s' = Inr (Some n', s2) \<and> ne_id n' = ne_id n \<and> ne_status n' = RUNNING \<and> ne_attempt n' = ne_attempt n)"
proof -
  let ?q = "n\<lparr>ne_status := QUEUED\<rparr>"
  have i: "n \<in> set (node_executions (sdb s))" "ne_id n = j_node_execution_id job" using row_get_Some [OF n] by auto
  have rows: "node_executions (sdb s') = row_modify ne_id (ne_id n) revert_row (node_executions (sdb s))" and t: "r = Some True"
    using r n st by (auto simp: recover_unit_def Let_def is_terminal_def TERMINAL_NODE_STATUSES_def worker_recovered_job_def)
  have g: "row_get ne_id (ne_id n) (node_executions (sdb s')) = Some ?q"
    using n i by (simp add: rows row_get_modify revert_row_def)
  have "map ne_id (node_executions (sdb s')) = map ne_id (node_executions (sdb s))"
    unfolding rows by (rule map_row_modify) (simp add: revert_row_def)
  then have "distinct (map ne_id (node_executions (sdb s')))" using ok by (simp add: nodes_ok_def)
  from transition_node_status_ok [OF this g, of QUEUED RUNNING] obtain s2 where
    "transition_node_status (ne_id n) QUEUED RUNNING s' = Inr (set_node_status RUNNING (now s') ?q, s2)" by auto
  moreover have "\<not> is_terminal ?q" by (simp add: is_terminal_def TERMINAL_NODE_STATUSES_def)
  ultimately show ?thesis using t g i(2) by (simp add: claim_unit_def)
qed

definition sample_pending :: "pending_entry list" where
  "sample_pending = [\<lparr>pe_message_id = ''1-0'', pe_consumer = Some ''w1'', pe_time_since_delivered = 700000\<rparr>,
                     \<lparr>pe_message_id = ''2-0'', pe_consumer = Some ''w2'', pe_time_since_delivered = 5\<rparr>]"

definition sample_consumer_api :: "unit consumer_api" where
  "sample_consumer_api =
     \<lparr>xreadgroup = \<lambda>k q. (Inr [], q), xack = \<lambda>m q. (Inr (), q), xpending_range = \<lambda>k q. (Inr sample_pending, q),
      xclaim = \<lambda>t ms q. (Inr (map (\<lambda>m. (m, [])) ms), q)\<rparr>"

definition sample_env :: "(jdict list, (string \<times> Envelope) option list) worker_env" where
  "sample_env =
     \<lparr>we_api = \<lparr>xreadgroup = \<lambda>k q. (Inr [(''1-0'', serialize_job_payload sample_job)], q), xack = \<lambda>m q. (Inr (), q),
                xpending_range = \<lambda>k q. (Inr sample_pending, q), xclaim = \<lambda>t ms q. (Inr (map (\<lambda>m. (m, [])) ms), q)\<rparr>,
      we_registry = sample_registry, we_publish = memory_publish, we_ws_publish = pubsub_publish,
      we_ensure_group = \<lambda>q. (Inr (), q), we_is_timeout = \<lambda>e. False, we_worker_name = ''w1'', we_hostname = ''host'', we_pid = 1,
      we_poll_count = 4, we_idle_timeout_ms = 600000\<rparr>"

subsection \<open>Retry\<close>

lemma retry_unit_revives:
  assumes ok: "db_ok (sdb s)" and r: "retry_unit x nid owner s = Inr ((e, n'), s')"
  shows "\<exists>n \<in> set (node_executions (sdb s)). ne_execution_id n = x \<and> ne_node_id n = nid \<and> ne_status n = DEAD_LETTERED \<and>
    owns owner x (sdb s) \<and> n' = set_node_status QUEUED (now s) n \<and>
    node_executions (sdb s') = row_modify ne_id (ne_id n) (set_node_status QUEUED (now s)) (node_executions (sdb s)) \<and>
    executions (sdb s') = executions (sdb s) \<and> unresolved (dead_letters (ne_id n) (sdb s')) = 0"
  using r
proof (rule retry_unit_Inr)
  fix n s1 assume n: "n \<in> set (node_executions (sdb s))" "ne_execution_id n = x" "ne_node_id n = nid" "ne_status n = DEAD_LETTERED"
    and e: "e \<in> set (owned (sdb s) owner)" "ex_id e = x"
    and t: "transition_node_status (ne_id n) DEAD_LETTERED QUEUED s = Inr (n', s1)"
    and c: "(filter (\<lambda>j. dj_node_execution_id j = ne_id n \<and> dj_resolved_at j = None) (dead_letter_jobs (sdb s1)) = [] \<and> s' = s1) \<or>
      (\<exists>j. filter (\<lambda>j. dj_node_execution_id j = ne_id n \<and> dj_resolved_at j = None) (dead_letter_jobs (sdb s1)) = [j] \<and>
         s' = modify_db (dead_letter_jobs_update (row_modify dj_id (dj_id j) (resolve_job (now s1) (Some ''Manually retried via API'')))) s1)"
  note fr = transition_node_status_frame [OF t]
  have own: "owns owner x (sdb s)" using e by (auto simp: owns_def)
  have rows: "node_executions (sdb s') = row_modify ne_id (ne_id n) (set_node_status QUEUED (now s)) (node_executions (sdb s))"
    "executions (sdb s') = executions (sdb s)" using c by (auto simp: fr(1))
  have "dead_letter_jobs (sdb s1) = dead_letter_jobs (sdb s)" by (simp add: fr(1))
  then have u: "unresolved (dead_letters (ne_id n) (sdb s')) = 0"
    using c resolve_all_unresolved [OF resolves_resolve_job] by (auto simp: dead_letters_def unresolved_def)
  obtain k where k: "filter (\<lambda>m. ne_id m = ne_id n) (node_executions (sdb s)) = [k]" "n' = set_node_status QUEUED (now s) k"
    using t unfolding transition_node_status_Inr by auto
  have "n \<in> set (filter (\<lambda>m. ne_id m = ne_id n) (node_executions (sdb s)))" using n by simp
  then have "n = k" unfolding k(1) by simp
  then show ?thesis using n own rows u k(2) by blast
qed

subsection \<open>Deletion\<close>

lemma delete_unit_effect:
  assumes "delete_unit x owner s = Inr (r, s')"
  shows "owns owner x (sdb s) \<and> executions (sdb s') = filter (\<lambda>e. ex_id e \<noteq> x) (executions (sdb s)) \<and>
    node_executions (sdb s') = filter (\<lambda>n. ne_execution_id n \<noteq> x) (node_executions (sdb s)) \<and>
    dead_letter_jobs (sdb s') = filter (\<lambda>j. dj_execution_id j \<noteq> x) (dead_letter_jobs (sdb s)) \<and>
    workflow_versions (sdb s') = workflow_versions (sdb s) \<and> workflows (sdb s') = workflows (sdb s)"
  using delete_unit_Inr [OF assms] by (auto simp: owns_def modify_db_def)

text \<open>Both on a sample.\<close>

lemma solo_retry: "\<exists>e n' s'. retry_unit 10 ''a'' 7 (sample_session solo_dead 50) = Inr ((e, n'), s') \<and> ex_status e = X_FAILED"
proof -
  have "unresolved (dead_letters 11 solo_dead) \<le> 1"
    using sys_ok_reachable [OF solo_dead_reachable] by (simp add: sys_ok_def db_ok_def rows_ok_def row_ok_def)
  then have "length (filter (\<lambda>j. dj_node_execution_id j = 11 \<and> dj_resolved_at j = None) (dead_letter_jobs solo_dead)) \<le> 1"
    by (simp add: unresolved_def dead_letters_def conj_commute)
  then show ?thesis
    by (cases "filter (\<lambda>j. dj_node_execution_id j = 11 \<and> dj_resolved_at j = None) (dead_letter_jobs solo_dead)")
      (simp_all add: retry_unit_def first_row_def transition_node_status_def Let_def)
qed

lemma sample_delete: "\<exists>r s'. delete_unit 10 7 (sample_session started_db 50) = Inr (r, s')"
  by (simp add: delete_unit_def owned_def)

end
