(* ===== verification/Rate_Limit.thy ===== *)
theory Rate_Limit
  imports Py_Text Json
begin

section \<open>Rate limiting\<close>

text \<open>
  \<open>app/api/middleware/rate_limit.py\<close>: the in-memory sliding window and the middleware around it.
  The counter in Redis (the pipeline of INCR and EXPIRE NX) and the rest of the application are
  parameters: \<open>redis_incr\<close> on the state of Redis, \<open>call_next\<close> on the state of the application. Times are
  integers. The in-memory table is the dictionary from identifiers to time stamps.
\<close>

subsection \<open>The sliding window\<close>

type_synonym limiter = "(string \<times> time list) list"

definition stamps :: "limiter \<Rightarrow> string \<Rightarrow> time list" where
  "stamps reqs identifier = (case map_of reqs identifier of None \<Rightarrow> [] | Some ts \<Rightarrow> ts)"

definition is_allowed :: "string \<Rightarrow> nat \<Rightarrow> time \<Rightarrow> time \<Rightarrow> limiter \<Rightarrow> (bool \<times> nat) \<times> limiter" where
  "is_allowed identifier limit window t reqs =
     (let cutoff = t - window;
          timestamps = filter (\<lambda>x. x > cutoff) (stamps reqs identifier) @ [t];
          count = length timestamps
      in ((count \<le> limit, limit - count), AList.update identifier timestamps reqs))"

text \<open>A sequence of requests \<open>(identifier, time)\<close>, each with its answer.\<close>

fun requests :: "nat \<Rightarrow> time \<Rightarrow> (string \<times> time) list \<Rightarrow> limiter \<Rightarrow> (string \<times> time \<times> bool) list" where
  "requests limit window [] reqs = []"
| "requests limit window ((i, t) # rs) reqs =
     (let ((ok, remaining), reqs') = is_allowed i limit window t reqs
      in (i, t, ok) # requests limit window rs reqs')"

subsection \<open>The middleware\<close>

text \<open>
  A request as the middleware and the routes read it: \<open>rq_bearer\<close> is what \<open>OAuth2PasswordBearer\<close> finds in the
  header \<open>Authorization\<close>. The content of a response is JSON that the sources write themselves, or a value of
  a response model (the type \<open>'b\<close>).
\<close>

datatype http_body = NoBody | NotJson | JsonBody json

record http_request =
  rq_method :: string
  rq_path :: string
  rq_forwarded_for :: "string option"
  rq_client_host :: "string option"
  rq_api_key :: "string option"
  rq_cookies :: "(string \<times> string) list"
  rq_bearer :: "string option"
  rq_query :: "(string \<times> string) list"
  rq_body :: http_body

record 'b http_response =
  rp_status :: nat
  rp_headers :: "(string \<times> string) list"
  rp_content :: "json + 'b"

definition set_header :: "string \<Rightarrow> string \<Rightarrow> 'b http_response \<Rightarrow> 'b http_response" where
  "set_header name v r = r\<lparr>rp_headers := AList.update name v (rp_headers r)\<rparr>"

definition excluded :: "http_request \<Rightarrow> bool" where
  "excluded rq \<longleftrightarrow> rq_method rq = ''GET'' \<and>
     (rq_path rq \<in> {''/api/v1/metrics/summary'', ''/health/live'', ''/health/ready''} \<or> starts_with ''/health/'' (rq_path rq))"

definition client_ip :: "http_request \<Rightarrow> string" where
  "client_ip rq =
     (case rq_forwarded_for rq of
        Some f \<Rightarrow>
          if f \<noteq> [] then strip_chars is_space (takeWhile (\<lambda>c. c \<noteq> CHR '','') f)
          else (case rq_client_host rq of None \<Rightarrow> ''unknown'' | Some h \<Rightarrow> h)
      | None \<Rightarrow> (case rq_client_host rq of None \<Rightarrow> ''unknown'' | Some h \<Rightarrow> h))"

definition client_identifier :: "http_request \<Rightarrow> string" where
  "client_identifier rq =
     (case rq_api_key rq of
        None \<Rightarrow> client_ip rq
      | Some k \<Rightarrow> if k \<noteq> [] then k else client_ip rq)"

definition too_many :: "nat \<Rightarrow> int \<Rightarrow> 'b http_response" where
  "too_many limit window =
     \<lparr>rp_status = 429,
      rp_headers = [(''X-RateLimit-Limit'', int_str (int limit)), (''X-RateLimit-Remaining'', ''0''),
                    (''X-RateLimit-Reset'', int_str window)],
      rp_content = Inl (JObj [(''detail'', JStr ''Too many requests, please try again later.'')])\<rparr>"

definition limited :: "nat \<Rightarrow> nat \<Rightarrow> 'b http_response \<Rightarrow> 'b http_response" where
  "limited limit remaining r =
     set_header ''X-RateLimit-Remaining'' (int_str (int remaining)) (set_header ''X-RateLimit-Limit'' (int_str (int limit)) r)"

record ('r, 'a) gateway =
  gw_redis :: 'r
  gw_memory :: limiter
  gw_app :: 'a

definition run_app ::
  "(http_request \<Rightarrow> 'a \<Rightarrow> 'b http_response result \<times> 'a) \<Rightarrow> http_request \<Rightarrow> ('r, 'a) gateway \<Rightarrow>
   'b http_response result \<times> ('r, 'a) gateway" where
  "run_app call_next rq g = (let (r, a) = call_next rq (gw_app g) in (r, g\<lparr>gw_app := a\<rparr>))"

text \<open>The \<open>except\<close> branch: it also catches what \<open>call_next\<close> raises, and then calls it again.\<close>

definition fallback ::
  "(http_request \<Rightarrow> 'a \<Rightarrow> 'b http_response result \<times> 'a) \<Rightarrow> nat \<Rightarrow> int \<Rightarrow> time \<Rightarrow> http_request \<Rightarrow> ('r, 'a) gateway \<Rightarrow>
   'b http_response result \<times> ('r, 'a) gateway" where
  "fallback call_next limit window t rq g =
     (let ((allowed, remaining), m) = is_allowed (client_identifier rq) limit (window * 1000000) t (gw_memory g);
          g1 = g\<lparr>gw_memory := m\<rparr>
      in if \<not> allowed then (Inr (too_many limit window), g1)
         else (case run_app call_next rq g1 of
                 (Inl e, g2) \<Rightarrow> (Inl e, g2)
               | (Inr r, g2) \<Rightarrow> (Inr (limited limit remaining r), g2)))"

definition dispatch ::
  "(string \<Rightarrow> int \<Rightarrow> 'r \<Rightarrow> int result \<times> 'r) \<Rightarrow> (http_request \<Rightarrow> 'a \<Rightarrow> 'b http_response result \<times> 'a) \<Rightarrow>
   nat \<Rightarrow> int \<Rightarrow> time \<Rightarrow> http_request \<Rightarrow> ('r, 'a) gateway \<Rightarrow> 'b http_response result \<times> ('r, 'a) gateway" where
  "dispatch redis_incr call_next limit window t rq g =
     (if \<not> starts_with ''/api/'' (rq_path rq) then run_app call_next rq g
      else if excluded rq then run_app call_next rq g
      else
        (case redis_incr (''rate_limit:'' @ client_identifier rq) window (gw_redis g) of
           (Inl e, rd) \<Rightarrow> fallback call_next limit window t rq (g\<lparr>gw_redis := rd\<rparr>)
         | (Inr request_count, rd) \<Rightarrow>
             (let g1 = g\<lparr>gw_redis := rd\<rparr> in
              if request_count > int limit then (Inr (too_many limit window), g1)
              else (case run_app call_next rq g1 of
                      (Inl e, g2) \<Rightarrow> fallback call_next limit window t rq g2
                    | (Inr r, g2) \<Rightarrow> (Inr (limited limit (nat (int limit - request_count)) r), g2)))))"

subsection \<open>Security headers\<close>

text \<open>\<open>SecurityHeadersMiddleware\<close>: \<open>headers.setdefault\<close> for each of six headers.\<close>

definition setdefault_header :: "string \<times> string \<Rightarrow> 'b http_response \<Rightarrow> 'b http_response" where
  "setdefault_header h r = (if map_of (rp_headers r) (fst h) = None then set_header (fst h) (snd h) r else r)"

definition security_headers :: "(string \<times> string) list" where
  "security_headers =
     [(''X-Content-Type-Options'', ''nosniff''), (''X-Frame-Options'', ''DENY''),
      (''X-XSS-Protection'', ''1; mode=block''), (''Referrer-Policy'', ''strict-origin-when-cross-origin''),
      (''Permissions-Policy'', ''geolocation=(), camera=(), microphone=()''),
      (''Content-Security-Policy'', ''default-src '' @ quoted ''self'' @ ''; frame-ancestors '' @ quoted ''none'' @ '';'')]"

definition security_dispatch ::
  "(http_request \<Rightarrow> 'a \<Rightarrow> 'b http_response result \<times> 'a) \<Rightarrow> http_request \<Rightarrow> 'a \<Rightarrow> 'b http_response result \<times> 'a" where
  "security_dispatch call_next rq a =
     (case call_next rq a of
        (Inl e, a') \<Rightarrow> (Inl e, a')
      | (Inr r, a') \<Rightarrow> (Inr (fold setdefault_header security_headers r), a'))"

lemma setdefault_header_keeps: "map_of (rp_headers r) k = Some v \<Longrightarrow> map_of (rp_headers (setdefault_header h r)) k = Some v"
  by (auto simp: setdefault_header_def set_header_def update_conv')

lemma setdefault_keeps: "map_of (rp_headers r) k = Some v \<Longrightarrow> map_of (rp_headers (fold setdefault_header hs r)) k = Some v"
  by (induction hs arbitrary: r) (simp_all add: setdefault_header_keeps)

lemma setdefault_sets: "h \<in> set hs \<Longrightarrow> map_of (rp_headers (fold setdefault_header hs r)) (fst h) \<noteq> None"
proof (induction hs arbitrary: r)
  case (Cons h' hs)
  show ?case
  proof (cases "h = h'")
    case True
    have "\<exists>v. map_of (rp_headers (setdefault_header h r)) (fst h) = Some v"
      by (cases "map_of (rp_headers r) (fst h)") (auto simp: setdefault_header_def set_header_def update_conv')
    then show ?thesis using setdefault_keeps True by fastforce
  next
    case False
    then show ?thesis using Cons by simp
  qed
qed simp

lemma security_dispatch_headers:
  assumes "security_dispatch call_next rq a = (Inr r, a')" and "h \<in> set security_headers"
  shows "map_of (rp_headers r) (fst h) \<noteq> None"
proof -
  obtain r0 where "r = fold setdefault_header security_headers r0"
    using assms(1) by (auto simp: security_dispatch_def split: prod.splits sum.splits)
  then show ?thesis using setdefault_sets [OF assms(2)] by simp
qed

subsection \<open>The window is a window\<close>

text \<open>
  With a clock that does not run backwards, the stamps kept for an identifier are, from the point
  of view of every later request, exactly its requests within the window.
\<close>

definition window_ok :: "time \<Rightarrow> (string \<times> time) list \<Rightarrow> time \<Rightarrow> limiter \<Rightarrow> bool" where
  "window_ok window past t reqs \<longleftrightarrow>
     (\<forall>i u. u \<ge> t \<longrightarrow> filter (\<lambda>x. x > u - window) (stamps reqs i) =
        filter (\<lambda>x. x > u - window) (map snd (filter (\<lambda>r. fst r = i) past)))"

lemma window_ok_step:
  assumes ok: "window_ok window past t0 reqs" and t: "t0 \<le> t"
  shows "window_ok window (past @ [(i, t)]) t (snd (is_allowed i limit window t reqs))"
  unfolding window_ok_def
proof (intro allI impI)
  fix j u assume u: "t \<le> u"
  have old: "filter (\<lambda>x. x > v - window) (stamps reqs k) = filter (\<lambda>x. x > v - window) (map snd (filter (\<lambda>r. fst r = k) past))"
    if "v \<ge> t" for v k using ok t that by (simp add: window_ok_def)
  show "filter (\<lambda>x. x > u - window) (stamps (snd (is_allowed i limit window t reqs)) j) =
      filter (\<lambda>x. x > u - window) (map snd (filter (\<lambda>r. fst r = j) (past @ [(i, t)])))"
  proof (cases "j = i")
    case False
    then show ?thesis using old [OF u, of j] by (simp add: is_allowed_def Let_def stamps_def update_conv)
  next
    case True
    have "filter (\<lambda>x. x > u - window) (filter (\<lambda>x. x > t - window) (stamps reqs i)) = filter (\<lambda>x. x > u - window) (stamps reqs i)"
      using u by (auto intro: filter_cong)
    then show ?thesis using old [OF u, of i] True by (simp add: is_allowed_def Let_def stamps_def update_conv)
  qed
qed

lemma is_allowed_count:
  assumes "window_ok window past t0 reqs" and "t0 \<le> t"
  shows "fst (fst (is_allowed i limit window t reqs)) \<longleftrightarrow>
    length (filter (\<lambda>r. fst r = i \<and> snd r > t - window) past) < limit"
proof -
  have "length (filter (\<lambda>x. x > t - window) (stamps reqs i)) =
      length (filter (\<lambda>x. x > t - window) (map snd (filter (\<lambda>r. fst r = i) past)))"
    using assms by (simp add: window_ok_def)
  also have "\<dots> = length (filter (\<lambda>r. fst r = i \<and> snd r > t - window) past)"
    by (simp add: filter_map comp_def conj_commute)
  finally show ?thesis by (simp add: is_allowed_def Let_def Suc_le_eq)
qed

lemma requests_split:
  assumes "requests limit window rs reqs = a @ (i, t, ok) # b"
  shows "\<exists>xs ys reqs'. rs = xs @ (i, t) # ys \<and> map (\<lambda>(i, t, ok). (i, t)) a = xs \<and>
    reqs' = foldl (\<lambda>m r. snd (is_allowed (fst r) limit window (snd r) m)) reqs xs \<and> ok = fst (fst (is_allowed i limit window t reqs'))"
  using assms
proof (induction a arbitrary: rs reqs)
  case Nil
  then show ?case by (cases rs) (auto simp: Let_def split: prod.splits)
next
  case (Cons x a)
  obtain j u rest where rs: "rs = (j, u) # rest" using Cons.prems by (cases rs) auto
  let ?m = "snd (is_allowed j limit window u reqs)"
  have x: "x = (j, u, fst (fst (is_allowed j limit window u reqs)))" and r: "requests limit window rest ?m = a @ (i, t, ok) # b"
    using Cons.prems by (auto simp: rs Let_def split: prod.splits)
  show ?case using Cons.IH [OF r] x rs by auto
qed

lemma window_ok_run:
  assumes "sorted (map snd (past @ xs))" and "window_ok window past t0 reqs" and "\<forall>r \<in> set xs. t0 \<le> snd r"
  shows "\<exists>t1. window_ok window (past @ xs) t1 (foldl (\<lambda>m r. snd (is_allowed (fst r) limit window (snd r) m)) reqs xs) \<and>
    (xs = [] \<and> t1 = t0 \<or> xs \<noteq> [] \<and> t1 = snd (last xs))"
  using assms
proof (induction xs arbitrary: past t0 reqs)
  case (Cons x xs)
  have step: "window_ok window (past @ [x]) (snd x) (snd (is_allowed (fst x) limit window (snd x) reqs))"
    using window_ok_step [OF Cons.prems(2), of "snd x" "fst x" limit] Cons.prems(3) by simp
  have "\<forall>r \<in> set xs. snd x \<le> snd r" using Cons.prems(1) by (auto simp: sorted_append)
  then show ?case using Cons.IH [of "past @ [x]" "snd x"] step Cons.prems(1) by (cases xs) auto
qed auto

text \<open>Every request that is let through is one of at most \<open>limit\<close> requests of its client in the window.\<close>

lemma allowed_iff_window:
  assumes "sorted (map snd rs)" and "requests limit window rs [] = a @ (i, t, ok) # b"
  shows "ok \<longleftrightarrow> length (filter (\<lambda>(j, u, ok). j = i \<and> u > t - window) a) < limit"
proof -
  obtain xs ys where rs: "rs = xs @ (i, t) # ys" and xs: "map (\<lambda>(i, t, ok). (i, t)) a = xs"
    and ok: "ok = fst (fst (is_allowed i limit window t (foldl (\<lambda>m r. snd (is_allowed (fst r) limit window (snd r) m)) [] xs)))"
    using requests_split [OF assms(2)] by auto
  have s: "sorted (map snd xs)" "\<forall>r \<in> set xs. snd r \<le> t" using assms(1) by (auto simp: rs sorted_append)
  define t0 where "t0 = (if xs = [] then t else snd (hd xs))"
  have "window_ok window [] t0 []" by (simp add: window_ok_def stamps_def)
  moreover have "\<forall>r \<in> set xs. t0 \<le> snd r" using s(1) by (cases xs) (auto simp: t0_def)
  ultimately obtain t1 where w: "window_ok window xs t1 (foldl (\<lambda>m r. snd (is_allowed (fst r) limit window (snd r) m)) [] xs)"
    and t1: "xs = [] \<and> t1 = t0 \<or> xs \<noteq> [] \<and> t1 = snd (last xs)"
    using window_ok_run [of "[]" xs window t0 "[]" limit] s(1) by auto
  have "t1 \<le> t" using t1 s(2) by (auto simp: t0_def)
  then have "ok \<longleftrightarrow> length (filter (\<lambda>r. fst r = i \<and> snd r > t - window) xs) < limit" using is_allowed_count [OF w, of t i limit] ok by simp
  moreover have "filter (\<lambda>r. fst r = i \<and> snd r > t - window) xs = map (\<lambda>(i, t, ok). (i, t)) (filter (\<lambda>(j, u, ok). j = i \<and> u > t - window) a)"
    unfolding xs [symmetric] filter_map by (simp add: comp_def split_def)
  ultimately show ?thesis by simp
qed

subsection \<open>The middleware: facts\<close>

text \<open>An exception of the application behind a working Redis counter makes it run a second time.\<close>

lemma dispatch_runs_twice:
  assumes "starts_with ''/api/'' (rq_path rq)" and "\<not> excluded rq"
    and "redis_incr (''rate_limit:'' @ client_identifier rq) window (gw_redis g) = (Inr n, rd)" and "n \<le> int limit"
    and "call_next rq (gw_app g) = (Inl e, a1)" and "call_next rq a1 = (r, a2)"
    and "fst (fst (is_allowed (client_identifier rq) limit (window * 1000000) t (gw_memory g)))"
  shows "gw_app (snd (dispatch redis_incr call_next limit window t rq g)) = a2"
  using assms by (cases r) (auto simp: dispatch_def run_app_def fallback_def Let_def split: prod.splits)

text \<open>A request over the limit does not reach the application.\<close>

lemma dispatch_over_limit:
  assumes "starts_with ''/api/'' (rq_path rq)" and "\<not> excluded rq"
    and "redis_incr (''rate_limit:'' @ client_identifier rq) window (gw_redis g) = (Inr n, rd)" and "int limit < n"
  shows "dispatch redis_incr call_next limit window t rq g = (Inr (too_many limit window), g\<lparr>gw_redis := rd\<rparr>)"
  using assms by (simp add: dispatch_def)

end
