(* ===== verification/Workflow_Api.thy ===== *)
theory Workflow_Api
  imports Api
begin

section \<open>The workflow routes\<close>

text \<open>
  The rest of \<open>app/api/workflows.py\<close> with the responses of \<open>app/schemas/workflow.py\<close>.
\<close>

record WorkflowVersionResponse =
  vr_id :: uuid
  vr_workflow_id :: uuid
  vr_version_number :: int
  vr_checksum :: string
  vr_created_at :: time
  vr_definition :: WorkflowDefinition

definition version_response :: "WorkflowVersion \<Rightarrow> WorkflowVersionResponse" where
  "version_response v =
     \<lparr>vr_id = wv_id v, vr_workflow_id = wv_workflow_id v, vr_version_number = wv_version_number v,
      vr_checksum = wv_checksum v, vr_created_at = wv_created_at v, vr_definition = wv_definition v\<rparr>"

definition validate_workflow_endpoint :: "WorkflowDefinition \<Rightarrow> ExecutorRegistry \<Rightarrow> ValidationResult result" where
  "validate_workflow_endpoint workflow registry =
     (if valid_WorkflowDefinition workflow then validate_workflow workflow registry
      else Inl (RequestValidationError ''workflow''))"

text \<open>\<open>CreateWorkflowRequest\<close>: the name is not empty, the definition is well formed.\<close>

definition create_workflow_route ::
  "(rat \<Rightarrow> string) \<Rightarrow> ExecutorRegistry \<Rightarrow> string \<Rightarrow> string \<Rightarrow> WorkflowDefinition \<Rightarrow> uuid \<Rightarrow> ('q, 'c) world \<Rightarrow>
   WorkflowVersionResponse result \<times> ('q, 'c) world" where
  "create_workflow_route float_repr registry name description d owner w =
     (if name = [] \<or> \<not> valid_WorkflowDefinition d then (Inl (RequestValidationError ''body''), w)
      else
        (case in_session (create_workflow float_repr registry name description d owner) w of
           (Inl e, w') \<Rightarrow> (Inl e, w')
         | (Inr (workflow, version), w') \<Rightarrow> (Inr (version_response version), w')))"

definition create_workflow_version_route ::
  "(rat \<Rightarrow> string) \<Rightarrow> ExecutorRegistry \<Rightarrow> uuid \<Rightarrow> WorkflowDefinition \<Rightarrow> uuid \<Rightarrow> ('q, 'c) world \<Rightarrow>
   WorkflowVersionResponse result \<times> ('q, 'c) world" where
  "create_workflow_version_route float_repr registry workflow_id d owner w =
     (if \<not> valid_WorkflowDefinition d then (Inl (RequestValidationError ''body''), w)
      else
        (case in_session (create_workflow_version float_repr registry workflow_id d owner) w of
           (Inl e, w') \<Rightarrow> (Inl e, w')
         | (Inr version, w') \<Rightarrow> (Inr (version_response version), w')))"

record WorkflowListResponse =
  wl_id :: uuid
  wl_name :: string
  wl_description :: "string option"
  wl_created_at :: time
  wl_updated_at :: time
  wl_latest_version_number :: int

text \<open>\<open>latest_version_number: int\<close> refuses the NULL of a workflow without versions.\<close>

fun list_responses :: "(Workflow \<times> int option) list \<Rightarrow> WorkflowListResponse list result" where
  "list_responses [] = Inr []"
| "list_responses ((workflow, latest) # rows) =
     (case latest of
        None \<Rightarrow> Inl (ValueError ''latest_version_number'')
      | Some k \<Rightarrow>
          rbind (list_responses rows) (\<lambda>rs.
            Inr (\<lparr>wl_id = wf_id workflow, wl_name = wf_name workflow, wl_description = wf_description workflow,
                  wl_created_at = wf_created_at workflow, wl_updated_at = wf_updated_at workflow,
                  wl_latest_version_number = k\<rparr> # rs)))"

definition list_workflows_route :: "uuid \<Rightarrow> int \<Rightarrow> int \<Rightarrow> database \<Rightarrow> WorkflowListResponse list result" where
  "list_workflows_route owner limit offset db =
     rbind (paging 100 limit offset) (\<lambda>(l, k). list_responses (list_workflows owner l k db))"

subsection \<open>Facts\<close>

lemma list_responses_total:
  "(\<And>w m. (w, m) \<in> set rows \<Longrightarrow> m \<noteq> None) \<Longrightarrow>
   \<exists>rs. list_responses rows = Inr rs \<and> map wl_id rs = map (wf_id \<circ> fst) rows \<and>
     map (Some \<circ> wl_latest_version_number) rs = map snd rows"
proof (induction rows)
  case (Cons r rows)
  obtain w m where r: "r = (w, m)" by (cases r)
  obtain k where m: "m = Some k" using Cons.prems [of w m] r by auto
  obtain rs where "list_responses rows = Inr rs" "map wl_id rs = map (wf_id \<circ> fst) rows"
    "map (Some \<circ> wl_latest_version_number) rs = map snd rows"
    using Cons.IH Cons.prems by (meson list.set_intros(2))
  then show ?case by (simp add: r m o_def)
qed simp

text \<open>
  With the numbering of the versions intact, listing never meets the NULL, and shows for each workflow
  of the page the number of its versions.
\<close>

lemma list_workflows_route_total:
  assumes "versions_ok db" and "0 \<le> limit" and "limit \<le> 100" and "0 \<le> offset"
  obtains rs where "list_workflows_route owner limit offset db = Inr rs" and "length rs \<le> nat limit"
    and "\<And>r. r \<in> set rs \<Longrightarrow> \<exists>w \<in> set (workflows db). wl_id r = wf_id w \<and> wf_owner_api_key_id w = owner \<and>
      wl_latest_version_number r = int (length (version_numbers (wf_id w) db))"
proof -
  let ?rows = "list_workflows owner (nat limit) (nat offset) db"
  have row: "w \<in> set (workflows db) \<and> wf_owner_api_key_id w = owner \<and>
      m = Some (int (length (version_numbers (wf_id w) db)))" if "(w, m) \<in> set ?rows" for w m
  proof -
    have "w \<in> set (page (nat limit) (nat offset) (order_desc_nullslast (\<lambda>w. Some (wf_created_at w)) (owned_workflows owner db)))"
      and m: "m = max_version (wf_id w) db" using that by (auto simp: list_workflows_def)
    from subsetD [OF set_page_subset this(1)] have "w \<in> set (owned_workflows owner db)" by simp
    then show ?thesis using max_version_ok [OF assms(1), of w] m by (simp add: owned_workflows_def)
  qed
  obtain rs where rs: "list_responses ?rows = Inr rs" and i: "map wl_id rs = map (wf_id \<circ> fst) ?rows"
    and k: "map (Some \<circ> wl_latest_version_number) rs = map snd ?rows"
    using list_responses_total [of ?rows] row by blast
  have l: "length rs = length ?rows" using arg_cong [OF i, of length] by simp
  show thesis
  proof (rule that)
    show "list_workflows_route owner limit offset db = Inr rs"
      using assms rs by (simp add: list_workflows_route_def paging_def)
    show "length rs \<le> nat limit" unfolding l by (simp add: list_workflows_def page_def)
    fix r assume "r \<in> set rs"
    then obtain n where n: "n < length rs" "r = rs ! n" by (auto simp: in_set_conv_nth)
    have "wl_id r = wf_id (fst (?rows ! n))" using nth_map [of n rs wl_id] i n l by simp
    moreover have "Some (wl_latest_version_number r) = snd (?rows ! n)"
      using nth_map [of n rs "Some \<circ> wl_latest_version_number"] k n l by simp
    moreover have "(fst (?rows ! n), snd (?rows ! n)) \<in> set ?rows" using n l by simp
    ultimately show "\<exists>w \<in> set (workflows db). wl_id r = wf_id w \<and> wf_owner_api_key_id w = owner \<and>
      wl_latest_version_number r = int (length (version_numbers (wf_id w) db))"
      using row by (metis option.inject)
  qed
qed

end
