(* ===== verification/Service_Properties.thy ===== *)
theory Service_Properties
  imports Engine_Facts Rate_Limit Workflow_Api Json_Text
begin

section \<open>Properties of the services around the engine\<close>

text \<open>
  The job queue, the two transports and the isolation of the callers, the workflow service,
  authentication, the rate limiter, the notifications and the executors that evaluate conditions and
  reach the network.
\<close>

subsection \<open>The job queue\<close>


definition list_redis :: "fields list redis_api" where
  "list_redis = \<lparr>xgroup_create = \<lambda>s g r. (Inr (), r), xadd = \<lambda>s fs r. if s = ''jobs'' then (Inr ''1-0'', r @ [fs]) else (Inl (OtherError s), r),
     xlen = \<lambda>s r. Inr (length r)\<rparr>"

definition list_publisher :: "fields list redis_publisher" where
  "list_publisher = \<lparr>rp_redis = [], rp_stream_name = ''jobs'', rp_consumer_group = ''workers'', rp_group_ready = False\<rparr>"


subsection \<open>Executions over gRPC\<close>


definition sample_dto :: ExecutionDTO where
  "sample_dto = \<lparr>xd_id = 10, xd_workflow_id = 1, xd_workflow_version_id = 2, xd_status = ''RUNNING'', xd_input_payload = Some [],
     xd_error_message = None, xd_node_executions = []\<rparr>"


subsection \<open>The workflow service\<close>



text \<open>A workflow that has an execution cannot be deleted.\<close>

lemma used_workflow_stays:
  assumes "e \<in> set (executions (durable w))" and "ex_workflow_id e = i" and "find_workflow i owner (durable w) = Inr (Some workflow)"
  shows "\<exists>err. delete_workflow_route i owner w = (Inl (IntegrityError err), w)"
  using assms by (auto simp: delete_workflow_route_def in_session_def delete_workflow_def open_session_def Let_def list_ex_iff)

subsection \<open>Authentication\<close>


definition sample_settings :: Settings where
  "sample_settings = \<lparr>jwt_access_secret_key = ''a'', jwt_refresh_secret_key = ''r'', jwt_algorithm = ''HS256'',
     jwt_access_token_expire_minutes = 60, jwt_refresh_token_expire_days = 7\<rparr>"

definition sample_token :: "bool \<Rightarrow> RefreshToken" where
  "sample_token b = (new_refresh_token sample_settings 21 ''secret'' 22 7 1000)\<lparr>rt_is_valid := b\<rparr>"

definition token_db :: "bool \<Rightarrow> database" where
  "token_db b = keyed_db\<lparr>refresh_tokens := [sample_token b]\<rparr>"

lemma token_db_tokens [simp]: "refresh_tokens (token_db b) = [sample_token b]"
  by (simp add: token_db_def)

lemma sample_token_simps [simp]:
  "rt_id (sample_token b) = 21" "rt_token_hash (sample_token b) = sha256_hexdigest ''secret''" "rt_family_id (sample_token b) = 22"
  "rt_is_valid (sample_token b) = b"
  by (simp_all add: sample_token_def)


text \<open>
  C33: presenting a refresh token that was already used or revoked is answered with 401, and ends the
  whole family: none of its tokens is valid any more, those of other families are untouched.
\<close>

theorem reuse_revokes_family:
  assumes "or_else cookie body = Some token" and "token \<noteq> []" and "find_token token (durable w) = Inr (Some t)"
    and "\<not> rt_is_valid t"
  shows "\<exists>w'. refresh_access_token settings enc random cookie body w = (Inl (AppError ''Refresh token reused'' ''token_reused'' 401), w') \<and>
    valid_tokens (rt_family_id t) (durable w') = [] \<and>
    (\<forall>f. f \<noteq> rt_family_id t \<longrightarrow> valid_tokens f (durable w') = valid_tokens f (durable w))"
  using refresh_reused [OF assms] by (auto simp: unauthorized_def)

theorem reuse_revokes_family_witness:
  "\<exists>w'. refresh_access_token sample_settings (\<lambda>p k a. ''jwt'') ''fresh'' (Some ''secret'') None (sample_world (token_db False) 30) =
     (Inl (AppError ''Refresh token reused'' ''token_reused'' 401), w') \<and> valid_tokens 22 (durable w') = []"
  using reuse_revokes_family [of "Some ''secret''" None "''secret''" "sample_world (token_db False) 30" "sample_token False"
      sample_settings "\<lambda>p k a. ''jwt''" "''fresh''"]
  by (auto simp: or_else_def find_token_def)

subsection \<open>The rate limiter\<close>

text \<open>
  C36: the in-memory limiter is the sliding window: with a clock that does not run backwards, a request
  of a client is allowed exactly when fewer than \<open>limit\<close> requests of that client, refused ones
  included, lie within the window before it.
\<close>

theorem limiter_is_sliding_window:
  assumes "sorted (map snd rs)" and "requests limit window rs [] = a @ (i, t, ok) # b"
  shows "ok \<longleftrightarrow> length (filter (\<lambda>(j, u, ok). j = i \<and> u > t - window) a) < limit"
  using assms by (rule allowed_iff_window)

theorem limiter_is_sliding_window_witness:
  "requests 2 60 [(''c'', 0), (''c'', 10), (''c'', 20), (''c'', 90)] [] = [(''c'', 0, True), (''c'', 10, True)] @ (''c'', 20, False) # [(''c'', 90, True)] \<and>
   \<not> length (filter (\<lambda>(j, u, ok). j = ''c'' \<and> u > (20::int) - 60) [(''c'', 0::int, True), (''c'', 10, True)]) < 2"
proof -
  have r: "requests 2 60 [(''c'', 0), (''c'', 10), (''c'', 20), (''c'', 90)] [] = [(''c'', 0, True), (''c'', 10, True)] @ (''c'', 20, False) # [(''c'', 90, True)]"
    by (simp add: is_allowed_def stamps_def)
  have "sorted (map snd [(''c'', 0::int), (''c'', 10), (''c'', 20), (''c'', 90)])" by simp
  from limiter_is_sliding_window [OF this r] r show ?thesis by simp
qed

text \<open>
  C37: when the handler of a request raises, the middleware takes that for a failure of Redis and runs
  the handler a second time: its effects happen twice.
\<close>

theorem failing_handler_runs_twice:
  assumes "starts_with ''/api/'' (rq_path rq)" and "\<not> excluded rq"
    and "redis_incr (''rate_limit:'' @ client_identifier rq) window (gw_redis g) = (Inr n, rd)" and "n \<le> int limit"
    and "call_next rq (gw_app g) = (Inl e, a1)" and "call_next rq a1 = (r, a2)"
    and "fst (fst (is_allowed (client_identifier rq) limit (window * 1000000) t (gw_memory g)))"
  shows "gw_app (snd (dispatch redis_incr call_next limit window t rq g)) = a2"
  using assms by (rule dispatch_runs_twice)

definition sample_request :: http_request where
  "sample_request = \<lparr>rq_method = ''POST'', rq_path = ''/api/v1/executions'', rq_forwarded_for = None, rq_client_host = Some ''h'', rq_api_key = None,
     rq_cookies = [], rq_bearer = None, rq_query = [], rq_body = NoBody\<rparr>"

theorem failing_handler_runs_twice_witness:
  "gw_app (snd (dispatch (\<lambda>k w r. (Inr 1, r)) (\<lambda>rq n. (Inl (OtherError ''boom'') :: unit http_response result, Suc n)) 100 60 0 sample_request
     \<lparr>gw_redis = (), gw_memory = [], gw_app = 0\<rparr>)) = 2"
  by (rule failing_handler_runs_twice [where n = 1 and rd = "()" and r = "Inl (OtherError ''boom'')" and e = "OtherError ''boom''" and ?a1.0 = "Suc 0"])
    (simp_all add: sample_request_def excluded_def starts_with_def is_allowed_def stamps_def numeral_2_eq_2)

subsection \<open>Notifications\<close>



subsection \<open>Executors\<close>


definition sample_network :: network where
  "sample_network = \<lparr>urlparse = \<lambda>u. (''https'', Some ''example.org''), getaddrinfo = \<lambda>h. Inr [''93.184.216.34''], forbidden_ip = \<lambda>a. Some False\<rparr>"

definition http_context :: ExecutionContext where
  "http_context = \<lparr>cx_execution_id = 10, cx_node_execution_id = 11, cx_node_id = ''a'', cx_config = [(''url'', JStr ''https://example.org'')],
     cx_workflow_input = [], cx_upstream_outputs = [], cx_attempt = 1, cx_idempotency_key = ''k''\<rparr>"



definition condition_context :: ExecutionContext where
  "condition_context = http_context\<lparr>cx_config := [(''expression'', JStr ''input.x == a''), (''true_path'', JStr ''b''), (''false_path'', JStr ''c'')]\<rparr>"


end
