(* ===== verification/Application.thy ===== *)
theory Application
  imports Rate_Limit Api Publishing
begin

section \<open>The application: settings, middleware, queue, sockets and shutdown\<close>

text \<open>
  What \<open>main.py\<close>, \<open>core/config.py\<close>, \<open>transport/local_execution_client.py\<close> and \<open>api/websocket.py\<close> put
  together: the settings that select a publisher, the order of the middleware around the routes, the
  life of a web socket, and the steps in which the application goes down. Starlette's rule that the
  middleware added last is the outermost is the composition \<open>application\<close>; CORS, the routes and
  Redis are parameters.
\<close>

subsection \<open>Settings\<close>

text \<open>
  The class \<open>Settings\<close>: the record of that name in \<open>Auth\<close> has the fields of the tokens, \<open>AppSettings\<close>
  extends it by all others. Seconds that the class has as floats are microseconds here. The four
  fields without a default are arguments of \<open>default_settings\<close>.
\<close>

record AppSettings = Settings +
  app_name :: string
  environment :: string
  debug :: bool
  eventflow_internal_transport :: TransportMode
  database_url :: string
  redis_url :: string
  redis_stream_name :: string
  redis_consumer_group :: string
  queue_publisher_backend :: string
  worker_name :: "string option"
  worker_concurrency :: int
  worker_heartbeat_interval_seconds :: time
  worker_pending_idle_timeout_seconds :: time
  worker_recovery_poll_interval_seconds :: time
  websocket_heartbeat_interval_seconds :: time
  api_key_header_name :: string
  cors_origins :: string
  rate_limit_requests :: nat
  rate_limit_window_seconds :: int

definition default_settings :: "string \<Rightarrow> string \<Rightarrow> string \<Rightarrow> string \<Rightarrow> AppSettings" where
  "default_settings db_url redis access_key refresh_key = \<lparr>
     jwt_access_secret_key = access_key, jwt_refresh_secret_key = refresh_key, jwt_algorithm = ''HS256'',
     jwt_access_token_expire_minutes = 60, jwt_refresh_token_expire_days = 7,
     app_name = ''EventFlow'', environment = ''development'', debug = False,
     eventflow_internal_transport = LOCAL, database_url = db_url, redis_url = redis,
     redis_stream_name = ''eventflow:jobs'', redis_consumer_group = ''eventflow-workers'', queue_publisher_backend = ''memory'',
     worker_name = None, worker_concurrency = 4, worker_heartbeat_interval_seconds = 5000000,
     worker_pending_idle_timeout_seconds = 600000000, worker_recovery_poll_interval_seconds = 30000000,
     websocket_heartbeat_interval_seconds = 20000000, api_key_header_name = ''X-EventFlow-API-Key'',
     cors_origins = ''http://localhost:3000,http://localhost:3001,http://127.0.0.1:3000,http://127.0.0.1:3001'',
     rate_limit_requests = 100, rate_limit_window_seconds = 60\<rparr>"

definition cors_origins_list :: "AppSettings \<Rightarrow> string list" where
  "cors_origins_list settings =
     map (strip_chars is_space) (filter (\<lambda>origin. strip_chars is_space origin \<noteq> [])
       (split_char (CHR '','') (cors_origins settings)))"

lemma default_origins:
  "cors_origins_list (default_settings u r a k) =
     [''http://localhost:3000'', ''http://localhost:3001'', ''http://127.0.0.1:3000'', ''http://127.0.0.1:3001'']"
proof -
  have "map (strip_chars is_space) (filter (\<lambda>origin. strip_chars is_space origin \<noteq> []) (split_char (CHR '','')
      ''http://localhost:3000,http://localhost:3001,http://127.0.0.1:3000,http://127.0.0.1:3001'')) =
    [''http://localhost:3000'', ''http://localhost:3001'', ''http://127.0.0.1:3000'', ''http://127.0.0.1:3001'']" by code_simp
  then show ?thesis by (simp add: cors_origins_list_def default_settings_def)
qed

lemma origins_nonempty: "[] \<notin> set (cors_origins_list settings)"
  by (auto simp: cors_origins_list_def)

subsection \<open>The publisher of the settings\<close>

text \<open>
  \<open>get_queue_publisher\<close>, and the same choice in the workers and in the gRPC server: the Redis
  publisher on the configured stream for the backend \<open>redis\<close>, an in-memory one for every other value.
\<close>

record 'r publishers =
  in_memory :: "jdict list"
  on_redis :: "'r redis_publisher"

definition new_publishers :: "AppSettings \<Rightarrow> 'r \<Rightarrow> 'r publishers" where
  "new_publishers settings redis = \<lparr>in_memory = [],
     on_redis = \<lparr>rp_redis = redis, rp_stream_name = redis_stream_name settings,
       rp_consumer_group = redis_consumer_group settings, rp_group_ready = False\<rparr>\<rparr>"

definition configured_publish :: "AppSettings \<Rightarrow> 'r redis_api \<Rightarrow> Job \<Rightarrow> 'r publishers \<Rightarrow> string option result \<times> 'r publishers" where
  "configured_publish settings api j p =
     (if queue_publisher_backend settings = ''redis''
      then (let (m, q) = redis_publish api j (on_redis p) in (m, p\<lparr>on_redis := q\<rparr>))
      else (let (m, q) = memory_publish j (in_memory p) in (m, p\<lparr>in_memory := q\<rparr>)))"

definition configured_jobs :: "AppSettings \<Rightarrow> ('r \<Rightarrow> string \<Rightarrow> fields list) \<Rightarrow> 'r publishers \<Rightarrow> Job list" where
  "configured_jobs settings entries p =
     (if queue_publisher_backend settings = ''redis'' then redis_jobs entries (on_redis p) else map memory_job (in_memory p))"

text \<open>Either way it is a publisher in the sense of the interface.\<close>

lemma configured_queue_publisher:
  assumes "redis_streams api entries"
  shows "queue_publisher (configured_publish settings api) (configured_jobs settings entries)"
proof -
  note redis = queue_publisher.publish_ok [OF redis_queue_publisher [OF assms]]
    queue_publisher.publish_fail [OF redis_queue_publisher [OF assms]]
  show ?thesis
    by unfold_locales
      (auto simp: configured_publish_def configured_jobs_def split: prod.splits if_splits
        dest: redis memory.publish_ok memory.publish_fail)
qed

text \<open>
  The workers read the stream of Redis whatever the setting. With the default backend nothing the
  engine publishes ever gets there.
\<close>

lemma publish_nodes_in_memory:
  assumes "queue_publisher_backend settings \<noteq> ''redis''"
  shows "on_redis (snd (publish_nodes (configured_publish settings api) x v ns s q)) = on_redis q"
proof (induction ns arbitrary: s q)
  case (Cons n ns)
  show ?case using assms Cons
    by (simp add: configured_publish_def memory_publish_def)
qed simp

lemma memory_backend_starves_workers:
  assumes "queue_publisher_backend settings \<noteq> ''redis''"
    and "start_execution registry (configured_publish settings api) ws_publish command owner w = (r, w')"
  shows "on_redis (queue w') = on_redis (queue w)"
proof -
  have phase: "on_redis (queue (snd (publish_phase (configured_publish settings api) ws_publish x v ns s u))) = on_redis (queue u)"
    for x v ns s and u :: "('a publishers, 'b) world"
    using publish_nodes_in_memory [OF assms(1), of api x v ns "resume s u" "queue u"]
    by (auto simp: publish_phase_def Let_def split: prod.splits sum.splits)
  show ?thesis
  proof (cases "start_unit registry command owner (open_session w)")
    case (Inl e)
    then show ?thesis using assms(2) by (simp add: start_execution_def)
  next
    case (Inr b)
    then obtain e ns s where u: "start_unit registry command owner (open_session w) = Inr ((e, ns), s)" by (metis surj_pair)
    let ?p = "publish_phase (configured_publish settings api) ws_publish (ex_id e) (ex_workflow_version_id e) ns s (commit_session s w)"
    have "w' = snd ?p" using assms(2) u by (simp add: start_execution_def split: prod.splits sum.splits)
    then show ?thesis using phase [of "ex_id e" "ex_workflow_version_id e" ns s "commit_session s w"]
      by (simp add: commit_session_def)
  qed
qed

subsection \<open>Middleware\<close>

text \<open>
  \<open>create_app\<close> adds the security headers, then the rate limiter, then CORS; the one added last is the
  outermost, so the limiter answers outside of the security headers.
\<close>

definition application ::
  "((http_request \<Rightarrow> ('r, 'a) gateway \<Rightarrow> 'b http_response result \<times> ('r, 'a) gateway) \<Rightarrow>
     http_request \<Rightarrow> ('r, 'a) gateway \<Rightarrow> 'b http_response result \<times> ('r, 'a) gateway) \<Rightarrow>
   (string \<Rightarrow> int \<Rightarrow> 'r \<Rightarrow> int result \<times> 'r) \<Rightarrow> (http_request \<Rightarrow> 'a \<Rightarrow> 'b http_response result \<times> 'a) \<Rightarrow>
   AppSettings \<Rightarrow> time \<Rightarrow> http_request \<Rightarrow> ('r, 'a) gateway \<Rightarrow> 'b http_response result \<times> ('r, 'a) gateway" where
  "application cors redis_incr routes settings t =
     cors (dispatch redis_incr (security_dispatch routes) (rate_limit_requests settings) (rate_limit_window_seconds settings) t)"

definition secured :: "'b http_response \<Rightarrow> bool" where
  "secured r \<longleftrightarrow> (\<forall>h \<in> set security_headers. map_of (rp_headers r) (fst h) \<noteq> None)"

lemma secured_routes: "security_dispatch routes rq a = (Inr r, a') \<Longrightarrow> secured r"
  by (auto simp: secured_def dest: security_dispatch_headers)

lemma secured_limited: "secured r \<Longrightarrow> secured (limited limit remaining r)"
  by (auto simp: secured_def limited_def set_header_def update_conv')

lemma too_many_unsecured: "\<not> secured (too_many limit window)"
  by (simp add: secured_def too_many_def security_headers_def)

lemma run_app_secured: "run_app (security_dispatch routes) rq g = (Inr r, g') \<Longrightarrow> secured r"
  by (auto simp: run_app_def Let_def split: prod.splits intro: secured_routes)

lemma fallback_secured:
  assumes "fallback (security_dispatch routes) limit window t rq g = (Inr r, g')"
  shows "r = too_many limit window \<or> secured r"
  using assms run_app_secured secured_limited
  by (fastforce simp: fallback_def Let_def split: prod.splits sum.splits if_splits)

lemma dispatch_secured:
  assumes "dispatch redis_incr (security_dispatch routes) limit window t rq g = (Inr r, g')"
  shows "secured r \<longleftrightarrow> r \<noteq> too_many limit window"
proof -
  have "r = too_many limit window \<or> secured r"
    using assms run_app_secured [of routes rq] fallback_secured [of routes limit window t rq] secured_limited
    by (fastforce simp: dispatch_def Let_def split: prod.splits sum.splits if_splits)
  then show ?thesis using too_many_unsecured by blast
qed

text \<open>
  C27: what reaches CORS from the inner application carries every security header, exactly unless it is
  the refusal of the rate limiter, which is answered outside of the middleware that adds them.
\<close>

theorem headers_unless_refused:
  assumes "application (\<lambda>inner. inner) redis_incr routes settings t rq g = (Inr r, g')"
  shows "secured r \<longleftrightarrow> r \<noteq> too_many (rate_limit_requests settings) (rate_limit_window_seconds settings)"
  using assms unfolding application_def by (rule dispatch_secured)

theorem headers_unless_refused_witness:
  "\<exists>r g'. application (\<lambda>inner. inner) (\<lambda>k n r. (Inr 1, r)) (\<lambda>rq a. (Inr \<lparr>rp_status = 200, rp_headers = [], rp_content = Inl JNull\<rparr> :: unit http_response result, a)) (default_settings [] [] [] []) 0
     \<lparr>rq_method = ''GET'', rq_path = ''/api/v1/workflows'', rq_forwarded_for = None, rq_client_host = None, rq_api_key = Some ''k'',
       rq_cookies = [], rq_bearer = None, rq_query = [], rq_body = NoBody\<rparr>
     \<lparr>gw_redis = (), gw_memory = [], gw_app = ()\<rparr> = (Inr r, g') \<and> secured r"
proof -
  let ?rq = "\<lparr>rq_method = ''GET'', rq_path = ''/api/v1/workflows'', rq_forwarded_for = None, rq_client_host = None, rq_api_key = Some ''k'',
       rq_cookies = [], rq_bearer = None, rq_query = [], rq_body = NoBody\<rparr>"
  let ?app = "application (\<lambda>inner. inner) (\<lambda>k n r. (Inr 1, r)) (\<lambda>rq a. (Inr \<lparr>rp_status = 200, rp_headers = [], rp_content = Inl JNull\<rparr> :: unit http_response result, a)) (default_settings [] [] [] []) 0
     ?rq \<lparr>gw_redis = (), gw_memory = [], gw_app = ()\<rparr>"
  obtain r g' where app: "?app = (Inr r, g')" and "rp_status r = 200"
    by (simp add: application_def dispatch_def excluded_def starts_with_def default_settings_def run_app_def security_dispatch_def
        limited_def set_header_def security_headers_def setdefault_header_def Let_def)
  then have "r \<noteq> too_many (rate_limit_requests (default_settings [] [] [] [])) (rate_limit_window_seconds (default_settings [] [] [] []))" by (auto simp: too_many_def)
  then show ?thesis using headers_unless_refused [OF app] app by blast
qed

subsection \<open>The life of a web socket\<close>

text \<open>
  After the handshake the endpoint waits for frames, which it ignores, until the client disconnects or
  receiving fails; beside it the heartbeat sends a ping at every interval until one fails. The
  interleaving of the two is the list of what happens.
\<close>

datatype ws_event = Frame | Tick time bool | Disconnected | ReceiveFailed

fun ws_receive :: "bool \<Rightarrow> ws_event list \<Rightarrow> bool \<times> Envelope list" where
  "ws_receive beating [] = (False, [])"
| "ws_receive beating (Frame # es) = ws_receive beating es"
| "ws_receive beating (Tick t ok # es) =
     (if beating \<and> ok then (let (closed, pings) = ws_receive True es in (closed, ping t # pings)) else ws_receive False es)"
| "ws_receive beating (Disconnected # es) = (True, [])"
| "ws_receive beating (ReceiveFailed # es) = (True, [])"

definition execution_updates ::
  "Settings \<Rightarrow> jwt_decoder \<Rightarrow> uuid \<Rightarrow> string option \<Rightarrow> bool \<Rightarrow> 'w \<Rightarrow> database \<Rightarrow> ws_event list \<Rightarrow> 'w connections \<Rightarrow>
   (ws_outcome \<times> bool \<times> Envelope list) result \<times> 'w connections" where
  "execution_updates settings jwt_decode execution_id token accept_ok websocket db events m =
     (case ws_open settings jwt_decode execution_id token accept_ok websocket db m of
        (Inl e, m1) \<Rightarrow> (Inl e, m1)
      | (Inr Connected, m1) \<Rightarrow>
          (let (closed, pings) = ws_receive True events
           in (Inr (Connected, closed, pings), if closed then ws_close execution_id websocket m1 else m1))
      | (Inr outcome, m1) \<Rightarrow> (Inr (outcome, True, []), m1))"

lemma ws_receive_closed: "fst (ws_receive b es) \<longleftrightarrow> Disconnected \<in> set es \<or> ReceiveFailed \<in> set es"
  by (induction b es rule: ws_receive.induct) (auto simp: Let_def split: prod.splits)

text \<open>A socket that is gone is not in the manager any more, and nobody else's was touched.\<close>

lemma socket_leaves_nothing:
  assumes "execution_updates settings jwt_decode x token accept_ok ws db events m = (Inr (outcome, True, pings), m')"
    and "ws \<notin> set (sockets_of m (uuid_str x))"
  shows "sockets_of m' y = sockets_of m y"
proof -
  have "removeAll ws (sockets_of m (uuid_str x)) = sockets_of m (uuid_str x)" using assms(2) by simp
  then show ?thesis using assms
    by (auto simp: execution_updates_def ws_open_def ws_close_def Let_def sockets_of_connect sockets_of_disconnect
        split: prod.splits sum.splits ws_outcome.splits if_splits bool.splits)
qed

lemma unauthorized_not_connected:
  assumes "ws_authorize settings jwt_decode x token db = Inr False"
  shows "execution_updates settings jwt_decode x token accept_ok ws db events m = (Inr (Rejected 1008, True, []), m)"
  using assms by (simp add: execution_updates_def ws_open_def)

subsection \<open>Going down\<close>

text \<open>
  \<open>GrpcServerContext\<close>: starting it makes a server with a servicer of its own publisher, stopping it
  leaves the object where it is. The start of \<open>lifespan\<close> makes the two tasks and, with the transport
  \<open>grpc\<close>, starts the server.
\<close>

record 'r grpc_server =
  gs_port :: nat
  gs_publishers :: "'r publishers"
  gs_serving :: bool

definition start_grpc_server :: "AppSettings \<Rightarrow> 'r \<Rightarrow> nat \<Rightarrow> 'r grpc_server option \<Rightarrow> 'r grpc_server option" where
  "start_grpc_server settings redis port server =
     Some \<lparr>gs_port = port, gs_publishers = new_publishers settings redis, gs_serving = True\<rparr>"

definition stop_grpc_server :: "'r grpc_server option \<Rightarrow> 'r grpc_server option" where
  "stop_grpc_server server = (case server of None \<Rightarrow> None | Some g \<Rightarrow> Some (g\<lparr>gs_serving := False\<rparr>))"

datatype startup_step = CreateListener | CreateWorker | StartGrpc

definition lifespan_start :: "AppSettings \<Rightarrow> 'r \<Rightarrow> 'r grpc_server option \<Rightarrow> startup_step list \<times> 'r grpc_server option" where
  "lifespan_start settings redis server =
     (if eventflow_internal_transport settings = GRPC
      then ([CreateListener, CreateWorker, StartGrpc], start_grpc_server settings redis 50051 server)
      else ([CreateListener, CreateWorker], server))"

text \<open>
  With the backend \<open>memory\<close> the servicer publishes to a list that starts empty, whatever the publisher of
  the process holds; and after a stop nothing serves any more.
\<close>

lemma grpc_server_own_queue:
  assumes "queue_publisher_backend settings \<noteq> ''redis''" and "start_grpc_server settings redis port server = Some g"
  shows "configured_jobs settings entries (gs_publishers g) = []"
  using assms by (auto simp: start_grpc_server_def new_publishers_def configured_jobs_def)

lemma nothing_serves_after_stop:
  "stop_grpc_server (snd (lifespan_start settings redis None)) = Some g \<Longrightarrow> \<not> gs_serving g"
  by (auto simp: lifespan_start_def start_grpc_server_def stop_grpc_server_def split: if_splits)

text \<open>
  The end of \<open>lifespan\<close>. A task that was cancelled ends with \<open>CancelledError\<close>, unless it returned (the
  listener catches it while it listens) or had already raised. The result is what the application did,
  and the exception that leaves it.
\<close>

datatype task_end = Returned | Cancelled | Raised exn

datatype shutdown_step = StopGrpc | CancelTasks | AwaitListener | AwaitWorker | DisposeEngine | CloseRedis

definition lifespan_end :: "AppSettings \<Rightarrow> task_end \<Rightarrow> task_end \<Rightarrow> shutdown_step list \<times> exn option" where
  "lifespan_end settings listener worker =
     (let before = (if eventflow_internal_transport settings = GRPC then [StopGrpc] else []) @ [CancelTasks];
          rest = [DisposeEngine, CloseRedis]
      in case listener of
           Raised e \<Rightarrow> (before @ [AwaitListener], Some e)
         | Cancelled \<Rightarrow> (before @ [AwaitListener] @ rest, None)
         | Returned \<Rightarrow>
             (case worker of
                Raised e \<Rightarrow> (before @ [AwaitListener, AwaitWorker], Some e)
              | _ \<Rightarrow> (before @ [AwaitListener, AwaitWorker] @ rest, None)))"

text \<open>
  The connections are closed exactly if no exception leaves the shutdown; a listener that lost Redis
  keeps them open. A worker is waited for only if the listener returned.
\<close>

lemma shutdown_closes:
  "snd (lifespan_end settings l k) = None \<longleftrightarrow> DisposeEngine \<in> set (fst (lifespan_end settings l k)) \<and> CloseRedis \<in> set (fst (lifespan_end settings l k))"
  by (auto simp: lifespan_end_def Let_def split: task_end.splits)

lemma shutdown_awaits_worker: "AwaitWorker \<in> set (fst (lifespan_end settings l k)) \<longleftrightarrow> l = Returned"
  by (auto simp: lifespan_end_def Let_def split: task_end.splits)

subsection \<open>The clients of the process\<close>

text \<open>
  \<open>db/session.py\<close> and \<open>queue/redis_client.py\<close> keep one engine, one session factory and one Redis client per
  process, made when they are first asked for. A client is the number under which it was made; a
  session factory is the engine it is bound to. \<open>shut\<close> lists the clients whose connections were closed.
\<close>

record clients =
  engine :: "nat option"
  session_factory :: "nat option"
  redis_client :: "nat option"
  made :: nat
  shut :: "nat list"

definition get_engine :: "clients \<Rightarrow> nat \<times> clients" where
  "get_engine c = (case engine c of
     None \<Rightarrow> (made c, c\<lparr>engine := Some (made c), made := Suc (made c)\<rparr>)
   | Some e \<Rightarrow> (e, c))"

definition get_session_factory :: "clients \<Rightarrow> nat \<times> clients" where
  "get_session_factory c = (case session_factory c of
     None \<Rightarrow> (let (e, c1) = get_engine c in (e, c1\<lparr>session_factory := Some e\<rparr>))
   | Some e \<Rightarrow> (e, c))"

definition dispose_engine :: "clients \<Rightarrow> clients" where
  "dispose_engine c = (case engine c of
     None \<Rightarrow> c
   | Some e \<Rightarrow> c\<lparr>engine := None, shut := e # shut c\<rparr>)"

definition get_redis :: "clients \<Rightarrow> nat \<times> clients" where
  "get_redis c = (case redis_client c of
     None \<Rightarrow> (made c, c\<lparr>redis_client := Some (made c), made := Suc (made c)\<rparr>)
   | Some r \<Rightarrow> (r, c))"

definition close_redis :: "clients \<Rightarrow> clients" where
  "close_redis c = (case redis_client c of
     None \<Rightarrow> c
   | Some r \<Rightarrow> c\<lparr>redis_client := None, shut := r # shut c\<rparr>)"

text \<open>
  Engine and Redis client are single and open: a client that is handed out was not shut, asking again
  gives the same one, and after a shutdown a new one is made.
\<close>

definition clients_ok :: "clients \<Rightarrow> bool" where
  "clients_ok c \<longleftrightarrow> (\<forall>k \<in> set (shut c). k < made c) \<and> (\<forall>k \<in> set_option (engine c) \<union> set_option (redis_client c). k < made c \<and> k \<notin> set (shut c)) \<and>
     set_option (engine c) \<inter> set_option (redis_client c) = {} \<and> (\<forall>k \<in> set_option (session_factory c). k < made c)"

lemmas client_defs = get_engine_def get_session_factory_def dispose_engine_def get_redis_def close_redis_def

lemma clients_ok_kept:
  assumes "clients_ok c"
  shows "clients_ok (snd (get_engine c))" and "clients_ok (snd (get_session_factory c))" and "clients_ok (dispose_engine c)"
    and "clients_ok (snd (get_redis c))" and "clients_ok (close_redis c)"
  using assms by (fastforce simp: clients_ok_def client_defs split: option.splits prod.splits)+

lemma handed_out_open:
  assumes "clients_ok c"
  shows "fst (get_engine c) \<notin> set (shut c)" and "fst (get_redis c) \<notin> set (shut c)"
    and "fst (get_engine (snd (get_engine c))) = fst (get_engine c)"
    and "fst (get_redis (snd (get_redis c))) = fst (get_redis c)"
  using assms by (auto simp: clients_ok_def client_defs split: option.splits)

text \<open>
  The session factory is not reset with the engine: after a shutdown it still hands out sessions of the
  engine that was disposed, while the process makes a second one.
\<close>

lemma factory_outlives_engine:
  assumes "clients_ok c" and "engine c = Some e" and "session_factory c = Some e"
  shows "fst (get_session_factory (dispose_engine c)) \<in> set (shut (dispose_engine c))"
    and "fst (get_engine (dispose_engine c)) \<noteq> fst (get_session_factory (dispose_engine c))"
  using assms by (auto simp: clients_ok_def client_defs)

subsection \<open>Health\<close>

text \<open>A probe that raises counts as down.\<close>

definition check_connection :: "bool result \<Rightarrow> bool" where
  "check_connection probe = (case probe of Inl e \<Rightarrow> False | Inr b \<Rightarrow> b)"

definition ready :: "unit result \<Rightarrow> bool result \<Rightarrow> ReadyResponse" where
  "ready select_1 redis_ping = ready_route (check_connection (map_sum id (\<lambda>_. True) select_1)) (check_connection redis_ping)"

lemma ready_iff: "rd_status_code (ready d r) = 200 \<longleftrightarrow> \<not> isl d \<and> r = Inr True"
  by (cases d; cases r) (auto simp: ready_def check_connection_def ready_route_def Let_def)

end
