(* ===== verification/Request_Schemas.thy ===== *)
theory Request_Schemas
  imports Workflow_Service "HOL-Library.Monad_Syntax"
begin

section \<open>Reading the schemas from JSON\<close>

text \<open>
  \<open>model_validate\<close> of the pydantic models in \<open>app/schemas\<close> and of the bodies declared in
  \<open>app/api/auth.py\<close>: which fields are required, their types, defaults, aliases and constraints. Unknown
  fields are ignored. How pydantic turns a JSON value into an integer, a float or a uuid is the
  parameter \<open>lax\<close>; \<open>None\<close> is a \<open>ValidationError\<close>. A definition is stored as \<open>model_dump\<close> gives it, in a
  column of type JSONB, which orders the keys of objects anew and keeps numbers as decimals; \<open>jsonb\<close> is
  what comes back. The theory shows that the engine and the workers read back the definition that was
  created, and that its checksum is the stored one. (A multiplier that is not a finite number is
  outside the record \<open>RetryPolicy\<close>; JSONB refuses it.)
\<close>

record lax =
  lax_int :: "json \<Rightarrow> int option"
  lax_float :: "json \<Rightarrow> rat option"
  lax_uuid :: "json \<Rightarrow> uuid option"

definition as_str :: "json \<Rightarrow> string option" where
  "as_str j = (case j of JStr s \<Rightarrow> Some s | _ \<Rightarrow> None)"

definition as_dict :: "json \<Rightarrow> jdict option" where
  "as_dict j = (case j of JObj d \<Rightarrow> Some d | _ \<Rightarrow> None)"

definition as_list :: "(json \<Rightarrow> 'a option) \<Rightarrow> json \<Rightarrow> 'a list option" where
  "as_list f j = (case j of JArr xs \<Rightarrow> those (map f xs) | _ \<Rightarrow> None)"

definition or_none :: "(json \<Rightarrow> 'a option) \<Rightarrow> json \<Rightarrow> 'a option option" where
  "or_none f j = (case j of JNull \<Rightarrow> Some None | _ \<Rightarrow> map_option Some (f j))"

definition required_field :: "string \<Rightarrow> (json \<Rightarrow> 'a option) \<Rightarrow> jdict \<Rightarrow> 'a option" where
  "required_field k f d = Option.bind (map_of d k) f"

definition defaulted_field :: "string \<Rightarrow> 'a \<Rightarrow> (json \<Rightarrow> 'a option) \<Rightarrow> jdict \<Rightarrow> 'a option" where
  "defaulted_field k v f d = (case map_of d k of None \<Rightarrow> Some v | Some j \<Rightarrow> f j)"

definition checked :: "('a \<Rightarrow> bool) \<Rightarrow> 'a \<Rightarrow> 'a option" where
  "checked p x = (if p x then Some x else None)"

definition validate_RetryPolicy :: "lax \<Rightarrow> json \<Rightarrow> RetryPolicy option" where
  "validate_RetryPolicy lx j = do {
     d \<leftarrow> as_dict j;
     a \<leftarrow> defaulted_field ''max_attempts'' 3 (lax_int lx) d;
     i \<leftarrow> defaulted_field ''initial_interval'' 1 (lax_int lx) d;
     m \<leftarrow> defaulted_field ''max_interval'' 3600 (lax_int lx) d;
     b \<leftarrow> defaulted_field ''backoff_multiplier'' 2 (lax_float lx) d;
     checked valid_RetryPolicy \<lparr>max_attempts = a, initial_interval = i, max_interval = m, backoff_multiplier = b\<rparr>
   }"

definition validate_Node :: "lax \<Rightarrow> json \<Rightarrow> Node option" where
  "validate_Node lx j = do {
     d \<leftarrow> as_dict j;
     i \<leftarrow> required_field ''id'' as_str d;
     t \<leftarrow> required_field ''type'' as_str d;
     n \<leftarrow> defaulted_field ''name'' [] as_str d;
     c \<leftarrow> defaulted_field ''config'' [] as_dict d;
     p \<leftarrow> defaulted_field ''retry_policy'' None (or_none (validate_RetryPolicy lx)) d;
     checked valid_Node \<lparr>n_id = i, n_type = t, n_name = n, n_config = c, n_retry_policy = p\<rparr>
   }"

text \<open>\<open>populate_by_name\<close>: the alias counts, and without it the name.\<close>

definition aliased :: "string \<Rightarrow> string \<Rightarrow> (json \<Rightarrow> 'a option) \<Rightarrow> jdict \<Rightarrow> 'a option" where
  "aliased alias name f d = (if map_of d alias = None then required_field name f d else required_field alias f d)"

definition validate_Edge :: "json \<Rightarrow> Edge option" where
  "validate_Edge j = do {
     d \<leftarrow> as_dict j;
     a \<leftarrow> aliased ''from'' ''from_node'' as_str d;
     b \<leftarrow> aliased ''to'' ''to_node'' as_str d;
     c \<leftarrow> defaulted_field ''condition'' None (or_none as_str) d;
     Some \<lparr>from_node = a, to_node = b, e_condition = c\<rparr>
   }"

definition validate_WorkflowDefinition :: "lax \<Rightarrow> json \<Rightarrow> WorkflowDefinition option" where
  "validate_WorkflowDefinition lx j = do {
     d \<leftarrow> as_dict j;
     n \<leftarrow> required_field ''name'' as_str d;
     t \<leftarrow> defaulted_field ''description'' [] as_str d;
     ns \<leftarrow> required_field ''nodes'' (as_list (validate_Node lx)) d;
     es \<leftarrow> defaulted_field ''edges'' [] (as_list validate_Edge) d;
     p \<leftarrow> defaulted_field ''default_retry_policy'' None (or_none (validate_RetryPolicy lx)) d;
     checked valid_WorkflowDefinition
       \<lparr>d_name = n, d_description = t, nodes = ns, edges = es, default_retry_policy = p\<rparr>
   }"

subsection \<open>The bodies of the requests\<close>

record CreateWorkflowRequest =
  cw_name :: string
  cw_description :: string
  cw_definition :: WorkflowDefinition

definition validate_CreateWorkflowRequest :: "lax \<Rightarrow> json \<Rightarrow> CreateWorkflowRequest option" where
  "validate_CreateWorkflowRequest lx j = do {
     d \<leftarrow> as_dict j;
     n \<leftarrow> required_field ''name'' as_str d;
     t \<leftarrow> defaulted_field ''description'' [] as_str d;
     f \<leftarrow> required_field ''definition'' (validate_WorkflowDefinition lx) d;
     checked (\<lambda>r. cw_name r \<noteq> []) \<lparr>cw_name = n, cw_description = t, cw_definition = f\<rparr>
   }"

definition validate_CreateWorkflowVersionRequest :: "lax \<Rightarrow> json \<Rightarrow> WorkflowDefinition option" where
  "validate_CreateWorkflowVersionRequest lx j =
     Option.bind (as_dict j) (required_field ''definition'' (validate_WorkflowDefinition lx))"

definition validate_CreateExecutionRequest :: "lax \<Rightarrow> json \<Rightarrow> (uuid \<times> jdict) option" where
  "validate_CreateExecutionRequest lx j = do {
     d \<leftarrow> as_dict j;
     i \<leftarrow> required_field ''workflow_version_id'' (lax_uuid lx) d;
     p \<leftarrow> defaulted_field ''input_payload'' [] as_dict d;
     Some (i, p)
   }"

definition validate_ResolveDlqRequest :: "json \<Rightarrow> string option option" where
  "validate_ResolveDlqRequest j = Option.bind (as_dict j) (defaulted_field ''resolution_note'' None (or_none as_str))"

definition validate_LoginRequest :: "json \<Rightarrow> string option" where
  "validate_LoginRequest j = Option.bind (as_dict j) (required_field ''api_key'' as_str)"

definition validate_RefreshRequest :: "json \<Rightarrow> string option option" where
  "validate_RefreshRequest j = Option.bind (as_dict j) (defaulted_field ''refresh_token'' None (or_none as_str))"

subsection \<open>JSONB\<close>

text \<open>
  Objects come back with their keys in the order of length and bytes. A float whose text has an
  exponent is expanded to a decimal number, which Python reads as an integer if it has no fraction.
\<close>

definition jsonb_float :: "(rat \<Rightarrow> string) \<Rightarrow> rat \<Rightarrow> json" where
  "jsonb_float float_repr r =
     (if CHR ''e'' \<in> set (float_repr r) \<and> r = of_int \<lfloor>r\<rfloor> then JInt \<lfloor>r\<rfloor> else JFloat (Finite r))"

definition jsonb_items :: "(string \<times> 'a) list \<Rightarrow> (string \<times> 'a) list" where
  "jsonb_items d = sort_key (length \<circ> fst) (sort_items d)"

fun jsonb :: "(rat \<Rightarrow> string) \<Rightarrow> json \<Rightarrow> json" where
  "jsonb fr (JFloat (Finite r)) = jsonb_float fr r"
| "jsonb fr (JArr xs) = JArr (map (jsonb fr) xs)"
| "jsonb fr (JObj d) = JObj (jsonb_items (map (\<lambda>kv. (fst kv, jsonb fr (snd kv))) d))"
| "jsonb fr j = j"

text \<open>Python's dictionaries have each key once; \<open>plain\<close> is a value whose floats JSONB gives back as floats.\<close>

fun distinct_keys :: "json \<Rightarrow> bool" where
  "distinct_keys (JArr xs) = list_all distinct_keys xs"
| "distinct_keys (JObj d) = (distinct (map fst d) \<and> list_all (\<lambda>kv. distinct_keys (snd kv)) d)"
| "distinct_keys j = True"

fun plain :: "(rat \<Rightarrow> string) \<Rightarrow> json \<Rightarrow> bool" where
  "plain fr (JFloat (Finite r)) = (jsonb_float fr r = JFloat (Finite r))"
| "plain fr (JArr xs) = list_all (plain fr) xs"
| "plain fr (JObj d) = list_all (\<lambda>kv. plain fr (snd kv)) d"
| "plain fr j = True"

definition jsonb_dict :: "(rat \<Rightarrow> string) \<Rightarrow> jdict \<Rightarrow> jdict" where
  "jsonb_dict fr d = jsonb_items (map (\<lambda>kv. (fst kv, jsonb fr (snd kv))) d)"

definition stored_definition :: "(rat \<Rightarrow> string) \<Rightarrow> WorkflowDefinition \<Rightarrow> WorkflowDefinition" where
  "stored_definition fr d = d\<lparr>nodes := map (n_config_update (jsonb_dict fr)) (nodes d)\<rparr>"

subsection \<open>What JSONB keeps\<close>

lemma mset_insert_item [simp]: "mset (insert_item x xs) = add_mset x (mset xs)"
  by (induction xs) auto

lemma mset_sort_items [simp]: "mset (sort_items d) = mset d"
  by (induction d) (simp_all add: sort_items_def)

lemma mset_jsonb_items [simp]: "mset (jsonb_items d) = mset d"
  by (simp add: jsonb_items_def)

lemma map_of_jsonb_items:
  assumes "distinct (map fst d)"
  shows "map_of (jsonb_items d) = map_of d"
proof (rule map_of_inject_set [THEN iffD2])
  show "distinct (map fst (jsonb_items d))"
    using assms by (metis mset_eq_imp_distinct_iff mset_jsonb_items mset_map)
  show "set (jsonb_items d) = set d" by (metis mset_eq_setD mset_jsonb_items)
qed fact

lemma canonical_json_jsonb:
  "distinct_keys j \<Longrightarrow> plain fr j \<Longrightarrow> canonical_json fr (jsonb fr j) = canonical_json fr j"
proof (induction fr j rule: jsonb.induct)
  case (1 fr r)
  then show ?case by simp
next
  case (2 fr xs)
  then have "\<forall>x \<in> set xs. canonical_json fr (jsonb fr x) = canonical_json fr x" by (auto simp: list_all_iff)
  then show ?case by (simp add: canonical_json_def comp_def cong: map_cong)
next
  case (3 fr d)
  let ?e = "map (\<lambda>kv. (fst kv, jsonb fr (snd kv))) d"
  have "distinct (map fst (jsonb_items ?e))"
    using 3(2) by (metis (no_types, lifting) distinct_keys.simps(2) map_eq_conv map_map mset_eq_imp_distinct_iff mset_jsonb_items mset_map o_apply fst_conv)
  then have "canonical_json fr (JObj (jsonb_items ?e)) = canonical_json fr (JObj ?e)"
    by (intro canonical_json_object) simp_all
  also have "\<dots> = canonical_json fr (JObj d)"
  proof -
    have "\<forall>kv \<in> set d. json_dumps fr True '','' '':'' (jsonb fr (snd kv)) = json_dumps fr True '','' '':'' (snd kv)"
      using 3 by (fastforce simp: canonical_json_def list_all_iff)
    then show ?thesis by (simp add: canonical_json_def comp_def cong: map_cong)
  qed
  finally show ?case by simp
qed simp_all

subsection \<open>A stored definition reads back\<close>

text \<open>What the sources rely on of pydantic's conversions: a number of the field's own type is taken as it is.\<close>

definition lax_numbers :: "lax \<Rightarrow> bool" where
  "lax_numbers lx \<longleftrightarrow> (\<forall>i. lax_int lx (JInt i) = Some i) \<and> (\<forall>r. lax_float lx (JFloat (Finite r)) = Some r) \<and>
     (\<forall>i. lax_float lx (JInt i) = Some (of_int i))"

named_theorems schema_simps

lemmas [schema_simps] = required_field_def defaulted_field_def aliased_def or_none_def as_str_def as_dict_def as_list_def checked_def
  map_of_jsonb_items optional_field_def

lemma lax_float_jsonb: "lax_numbers lx \<Longrightarrow> lax_float lx (jsonb_float fr r) = Some r"
  by (auto simp: lax_numbers_def jsonb_float_def)

lemma validate_retry_policy_dump:
  assumes "lax_numbers lx" and "valid_RetryPolicy p"
  shows "validate_RetryPolicy lx (jsonb fr (retry_policy_dump p)) = Some p"
  using assms lax_float_jsonb [OF assms(1)]
  by (simp add: validate_RetryPolicy_def retry_policy_dump_def schema_simps lax_numbers_def valid_RetryPolicy_def)

lemma validate_node_dump:
  assumes "lax_numbers lx" and "valid_Node n"
  shows "validate_Node lx (jsonb fr (node_dump n)) = Some (n_config_update (jsonb_dict fr) n)"
  using assms validate_retry_policy_dump [OF assms(1), of _ fr]
  by (cases "n_retry_policy n")
    (auto simp: validate_Node_def node_dump_def valid_Node_def jsonb_dict_def schema_simps retry_policy_dump_def)

lemma validate_edge_dump: "validate_Edge (jsonb fr (edge_dump e)) = Some e"
  by (cases "e_condition e") (simp_all add: validate_Edge_def edge_dump_def schema_simps)

lemma those_map_Some: "(\<And>x. x \<in> set xs \<Longrightarrow> f x = Some (g x)) \<Longrightarrow> those (map f xs) = Some (map g xs)"
  by (induction xs) auto

lemma validate_definition_dump:
  assumes "lax_numbers lx" and "valid_WorkflowDefinition d"
  shows "validate_WorkflowDefinition lx (jsonb fr (definition_dump d)) = Some (stored_definition fr d)"
proof -
  have ns: "those (map (validate_Node lx \<circ> (jsonb fr \<circ> node_dump)) (nodes d)) = Some (nodes (stored_definition fr d))"
    using assms by (subst those_map_Some [where g = "n_config_update (jsonb_dict fr)"])
      (auto simp: validate_node_dump valid_WorkflowDefinition_def list_all_iff stored_definition_def)
  have es: "those (map (validate_Edge \<circ> (jsonb fr \<circ> edge_dump)) (edges d)) = Some (edges d)"
    by (subst those_map_Some [where g = id]) (simp_all add: validate_edge_dump)
  have "valid_WorkflowDefinition (stored_definition fr d)"
    using assms(2) by (simp add: valid_WorkflowDefinition_def stored_definition_def list_all_iff valid_Node_def)
  then show ?thesis using ns es assms validate_retry_policy_dump [OF assms(1), of _ fr]
    by (cases "default_retry_policy d")
      (auto simp: validate_WorkflowDefinition_def definition_dump_def valid_WorkflowDefinition_def
        stored_definition_def schema_simps retry_policy_dump_def)
qed

lemma canonical_json_entry:
  "canonical_json fr x = canonical_json fr y \<Longrightarrow> canonical_json fr (JObj (as @ (k, x) # bs)) = canonical_json fr (JObj (as @ (k, y) # bs))"
  by (simp add: canonical_json_def)

lemma canonical_json_array:
  "(\<And>x. x \<in> set xs \<Longrightarrow> canonical_json fr (f x) = canonical_json fr (g x)) \<Longrightarrow>
   canonical_json fr (JArr (map f xs)) = canonical_json fr (JArr (map g xs))"
  by (simp add: canonical_json_def comp_def cong: map_cong)

lemma canonical_node_dump:
  assumes "distinct_keys (JObj (n_config n))" and "plain fr (JObj (n_config n))"
  shows "canonical_json fr (node_dump (n_config_update (jsonb_dict fr) n)) = canonical_json fr (node_dump n)"
  using canonical_json_entry [OF canonical_json_jsonb [OF assms], where k = "''config''"
      and as = "[(''id'', JStr (n_id n)), (''type'', JStr (n_type n)), (''name'', JStr (n_name n))]"
      and bs = "optional_field ''retry_policy'' retry_policy_dump (n_retry_policy n)"]
  by (simp add: node_dump_def jsonb_dict_def)

lemma checksum_stored:
  assumes "\<And>n. n \<in> set (nodes d) \<Longrightarrow> distinct_keys (JObj (n_config n)) \<and> plain fr (JObj (n_config n))"
  shows "generate_checksum fr (stored_definition fr d) = generate_checksum fr d"
proof -
  have "canonical_json fr (JArr (map (\<lambda>n. node_dump (n_config_update (jsonb_dict fr) n)) (nodes d))) =
      canonical_json fr (JArr (map node_dump (nodes d)))"
    using assms by (intro canonical_json_array canonical_node_dump) auto
  from canonical_json_entry [OF this, where k = "''nodes''" and as = "[(''name'', JStr (d_name d)), (''description'', JStr (d_description d))]"
      and bs = "(''edges'', JArr (map edge_dump (edges d))) # optional_field ''default_retry_policy'' retry_policy_dump (default_retry_policy d)"]
  show ?thesis by (simp add: generate_checksum_def definition_dump_def stored_definition_def comp_def)
qed

end
