(* ===== verification/Routing.thy ===== *)
theory Routing
  imports Workflow_Api Application Request_Schemas
begin

section \<open>The HTTP interface as a whole\<close>

text \<open>
  The routers of \<open>app/api\<close> as \<open>create_app\<close> includes them, one handler per decorated function: its
  parameters are read from the path, the query and the body, the identity comes from
  \<open>require_api_key_id\<close>, and the result is the response model with the status of the decorator. Around
  them are the handlers of \<open>app/core/errors.py\<close>. What FastAPI does between a request and a handler is
  here as it is documented: a body that is not JSON is refused first, then the dependencies run, then
  the parameters are validated; a path parameter is a segment that is not empty. What it answers when no
  route matches is the parameter \<open>unmatched\<close>. The exception handlers for \<open>AppError\<close> and for validation
  errors work inside of the middleware, the one for \<open>Exception\<close> outside of it.
\<close>

subsection \<open>Errors\<close>

text \<open>\<open>_envelope\<close>; no error of the sources carries details of its own.\<close>

definition error_envelope :: "string \<Rightarrow> string \<Rightarrow> json option \<Rightarrow> json" where
  "error_envelope c msg details =
     JObj [(''error'', JObj [(''code'', JStr c), (''message'', JStr msg), (''details'', case details of None \<Rightarrow> JNull | Some d \<Rightarrow> d)])]"

definition json_response :: "nat \<Rightarrow> json \<Rightarrow> 'b http_response" where
  "json_response status content = \<lparr>rp_status = status, rp_headers = [], rp_content = Inl content\<rparr>"

definition handle_http_exception :: "nat \<Rightarrow> string \<Rightarrow> 'b http_response" where
  "handle_http_exception status detail = json_response status (error_envelope ''http_error'' detail None)"

definition handle_unhandled_exception :: "'b http_response" where
  "handle_unhandled_exception = json_response 500 (error_envelope ''internal_error'' ''An unexpected error occurred'' None)"

text \<open>\<open>errors\<close> is \<open>RequestValidationError.errors()\<close>.\<close>

fun handle_error :: "(string \<Rightarrow> json) \<Rightarrow> exn \<Rightarrow> 'b http_response result" where
  "handle_error errors (AppError m c st) = Inr (json_response st (error_envelope c m None))"
| "handle_error errors (RequestValidationError m) =
     Inr (json_response 422 (error_envelope ''validation_error'' ''Request validation failed'' (Some (errors m))))"
| "handle_error errors e = Inl e"

subsection \<open>Handlers\<close>

datatype response_model =
    R_Live LiveResponse | R_Ready ReadyResponse
  | R_Token TokenResponse | R_Logout json "string list" | R_Me MeResponse | R_Verify VerifyResponse
  | R_Validation ValidationResult | R_Version WorkflowVersionResponse
  | R_Workflows "WorkflowListResponse list" | R_Workflow WorkflowDetailResponse
  | R_Execution ExecutionResponse | R_Executions "ExecutionResponse list"
  | R_Nodes "NodeExecutionResponse list" | R_Node NodeExecutionResponse | R_Logs "ExecutionLogResponse list"
  | R_Job DeadLetterJobResponse | R_Jobs "DeadLetterJobResponse list"
  | R_Worker WorkerResponse | R_Workers "WorkerResponse list" | R_Message string
  | R_Metrics MetricsSummaryResponse | R_NoContent

type_synonym response = "response_model http_response"

text \<open>
  What the process holds: the world of the services, the tasks of its background workers, for whom it
  started them, and how many random tokens it has drawn.
\<close>

record ('q, 'c) server =
  sv_world :: "('q, 'c) world"
  sv_tasks :: tasks
  sv_tokens :: nat
  sv_spawned :: "uuid list"

record ('q, 'c) dependencies =
  dp_settings :: AppSettings
  dp_jwt_encode :: jwt_encoder
  dp_jwt_decode :: jwt_decoder
  dp_random :: "nat \<Rightarrow> string"
  dp_lax :: lax
  dp_errors :: "string \<Rightarrow> json"
  dp_float_repr :: "rat \<Rightarrow> string"
  dp_registry :: ExecutorRegistry
  dp_client :: "('q, 'c) engine_client"
  dp_depth :: "('q \<Rightarrow> nat result) option"
  dp_select_1 :: "unit result"
  dp_redis_ping :: "bool result"

type_synonym ('q, 'c) action = "string list \<Rightarrow> http_request \<Rightarrow> ('q, 'c) server \<Rightarrow> response result \<times> ('q, 'c) server"

datatype ('q, 'c) handler = Open "('q, 'c) action" | Authenticated "uuid \<Rightarrow> ('q, 'c) action"

definition answered :: "nat \<Rightarrow> ('x \<Rightarrow> response_model) \<Rightarrow> 'x result \<Rightarrow> response result" where
  "answered status f r = rbind r (\<lambda>x. Inr \<lparr>rp_status = status, rp_headers = [], rp_content = Inr (f x)\<rparr>)"

definition reading ::
  "nat \<Rightarrow> ('x \<Rightarrow> response_model) \<Rightarrow> (('q, 'c) world \<Rightarrow> 'x result) \<Rightarrow> ('q, 'c) server \<Rightarrow> response result \<times> ('q, 'c) server" where
  "reading status f g s = (answered status f (g (sv_world s)), s)"

definition writing ::
  "nat \<Rightarrow> ('x \<Rightarrow> response_model) \<Rightarrow> (('q, 'c) world \<Rightarrow> 'x result \<times> ('q, 'c) world) \<Rightarrow> ('q, 'c) server \<Rightarrow>
   response result \<times> ('q, 'c) server" where
  "writing status f g s = (let (r, w) = g (sv_world s) in (answered status f r, s\<lparr>sv_world := w\<rparr>))"

definition given ::
  "'x result \<Rightarrow> ('x \<Rightarrow> ('q, 'c) server \<Rightarrow> response result \<times> ('q, 'c) server) \<Rightarrow> ('q, 'c) server \<Rightarrow> response result \<times> ('q, 'c) server" where
  "given r f s = (case r of Inl e \<Rightarrow> (Inl e, s) | Inr x \<Rightarrow> f x s)"

definition accepted :: "string \<Rightarrow> 'x option \<Rightarrow> 'x result" where
  "accepted where_found v = (case v of None \<Rightarrow> Inl (RequestValidationError where_found) | Some x \<Rightarrow> Inr x)"

definition path_uuid :: "('q, 'c) dependencies \<Rightarrow> string list \<Rightarrow> uuid result" where
  "path_uuid dp ps = accepted ''path'' (lax_uuid (dp_lax dp) (JStr (ps ! 0)))"

definition query_int :: "('q, 'c) dependencies \<Rightarrow> string \<Rightarrow> int \<Rightarrow> http_request \<Rightarrow> int result" where
  "query_int dp name v0 rq =
     (case map_of (rq_query rq) name of None \<Rightarrow> Inr v0 | Some v \<Rightarrow> accepted ''query'' (lax_int (dp_lax dp) (JStr v)))"

definition body_of :: "(json \<Rightarrow> 'x option) \<Rightarrow> http_request \<Rightarrow> 'x result" where
  "body_of f rq = (case rq_body rq of JsonBody j \<Rightarrow> accepted ''body'' (f j) | _ \<Rightarrow> Inl (RequestValidationError ''body''))"

text \<open>\<open>body: RefreshRequest | None = None\<close>\<close>

definition optional_body :: "(json \<Rightarrow> 'x option option) \<Rightarrow> http_request \<Rightarrow> 'x option result" where
  "optional_body f rq =
     (case rq_body rq of
        NoBody \<Rightarrow> Inr None
      | NotJson \<Rightarrow> Inl (RequestValidationError ''body'')
      | JsonBody j \<Rightarrow> (case j of JNull \<Rightarrow> Inr None | _ \<Rightarrow> accepted ''body'' (f j)))"

definition paged ::
  "('q, 'c) dependencies \<Rightarrow> http_request \<Rightarrow> (int \<Rightarrow> int \<Rightarrow> ('q, 'c) server \<Rightarrow> response result \<times> ('q, 'c) server) \<Rightarrow>
   ('q, 'c) server \<Rightarrow> response result \<times> ('q, 'c) server" where
  "paged dp rq f = given (query_int dp ''limit'' 50 rq) (\<lambda>limit. given (query_int dp ''offset'' 0 rq) (f limit))"

definition token_settings :: "('q, 'c) dependencies \<Rightarrow> Settings" where
  "token_settings dp = Settings.truncate (dp_settings dp)"

text \<open>Each token route draws a fresh random string.\<close>

definition drawing ::
  "('q, 'c) dependencies \<Rightarrow> (string \<Rightarrow> ('q, 'c) server \<Rightarrow> response result \<times> ('q, 'c) server) \<Rightarrow>
   ('q, 'c) server \<Rightarrow> response result \<times> ('q, 'c) server" where
  "drawing dp f s = f (dp_random dp (sv_tokens s)) (s\<lparr>sv_tokens := Suc (sv_tokens s)\<rparr>)"

subsection \<open>The routers\<close>

record ('q, 'c) route =
  ro_method :: string
  ro_path :: string
  ro_has_body :: bool
  ro_handler :: "('q, 'c) handler"

definition route :: "string \<Rightarrow> string \<Rightarrow> bool \<Rightarrow> ('q, 'c) handler \<Rightarrow> ('q, 'c) route" where
  "route m p b h = \<lparr>ro_method = m, ro_path = p, ro_has_body = b, ro_handler = h\<rparr>"

definition prefixed :: "string \<Rightarrow> ('q, 'c) route list \<Rightarrow> ('q, 'c) route list" where
  "prefixed p rs = map (ro_path_update (\<lambda>q. p @ q)) rs"

definition health_router :: "('q, 'c) dependencies \<Rightarrow> ('q, 'c) route list" where
  "health_router dp = prefixed ''/health''
     [route ''GET'' ''/live'' False (Open (\<lambda>ps rq. reading 200 R_Live (\<lambda>w. Inr live))),
      route ''GET'' ''/ready'' False (Open (\<lambda>ps rq s.
        let r = ready (dp_select_1 dp) (dp_redis_ping dp) in reading (rd_status_code r) R_Ready (\<lambda>w. Inr r) s))]"

definition auth_router :: "('q, 'c) dependencies \<Rightarrow> ('q, 'c) route list" where
  "auth_router dp = prefixed ''/api/v1/auth''
     [route ''POST'' ''/token'' True (Open (\<lambda>ps rq.
        given (body_of validate_LoginRequest rq) (\<lambda>api_key. drawing dp (\<lambda>random.
          writing 200 R_Token (login_for_access_token (token_settings dp) (dp_jwt_encode dp) random api_key))))),
      route ''POST'' ''/refresh'' True (Open (\<lambda>ps rq.
        given (optional_body validate_RefreshRequest rq) (\<lambda>body. drawing dp (\<lambda>random.
          writing 200 R_Token (refresh_access_token (token_settings dp) (dp_jwt_encode dp) random
            (map_of (rq_cookies rq) ''eventflow_refresh'') body))))),
      route ''POST'' ''/logout'' False (Open (\<lambda>ps rq.
        writing 200 (R_Logout (JObj [(''message'', JStr ''Logged out successfully'')]))
          (logout (map_of (rq_cookies rq) ''eventflow_refresh'')))),
      route ''GET'' ''/me'' False (Authenticated (\<lambda>principal ps rq.
        reading 200 R_Me (\<lambda>w. get_current_user principal (durable w)))),
      route ''GET'' ''/verify'' False (Authenticated (\<lambda>principal ps rq. reading 200 R_Verify (\<lambda>w. Inr verify)))]"

definition workflows_router :: "('q, 'c) dependencies \<Rightarrow> ('q, 'c) route list" where
  "workflows_router dp = prefixed ''/api/v1/workflows''
     [route ''POST'' ''/validate'' True (Authenticated (\<lambda>principal ps rq.
        given (body_of (validate_WorkflowDefinition (dp_lax dp)) rq) (\<lambda>d.
          reading 200 R_Validation (\<lambda>w. validate_workflow_endpoint d (dp_registry dp))))),
      route ''POST'' [] True (Authenticated (\<lambda>owner ps rq.
        given (body_of (validate_CreateWorkflowRequest (dp_lax dp)) rq) (\<lambda>b.
          writing 201 R_Version (create_workflow_route (dp_float_repr dp) (dp_registry dp)
            (cw_name b) (cw_description b) (cw_definition b) owner)))),
      route ''GET'' [] False (Authenticated (\<lambda>owner ps rq.
        paged dp rq (\<lambda>limit offset. reading 200 R_Workflows (\<lambda>w. list_workflows_route owner limit offset (durable w))))),
      route ''GET'' ''/{workflow_id}'' False (Authenticated (\<lambda>owner ps rq.
        given (path_uuid dp ps) (\<lambda>i. reading 200 R_Workflow (\<lambda>w. get_workflow_route i owner (durable w))))),
      route ''POST'' ''/{workflow_id}/versions'' True (Authenticated (\<lambda>owner ps rq.
        given (path_uuid dp ps) (\<lambda>i. given (body_of (validate_CreateWorkflowVersionRequest (dp_lax dp)) rq) (\<lambda>d.
          writing 201 R_Version (create_workflow_version_route (dp_float_repr dp) (dp_registry dp) i d owner))))),
      route ''DELETE'' ''/{workflow_id}'' False (Authenticated (\<lambda>owner ps rq.
        given (path_uuid dp ps) (\<lambda>i. writing 204 (\<lambda>_. R_NoContent) (delete_workflow_route i owner))))]"

definition executions_router :: "('q, 'c) dependencies \<Rightarrow> ('q, 'c) route list" where
  "executions_router dp = prefixed ''/api/v1/executions''
     [route ''GET'' [] False (Authenticated (\<lambda>owner ps rq.
        paged dp rq (\<lambda>limit offset. reading 200 R_Executions
          (list_executions_route (dp_client dp) owner (map_of (rq_query rq) ''status'') limit offset)))),
      route ''POST'' [] True (Authenticated (\<lambda>owner ps rq.
        given (body_of (validate_CreateExecutionRequest (dp_lax dp)) rq) (\<lambda>(i, payload).
          writing 201 R_Execution (create_execution_route (dp_client dp) i payload owner)))),
      route ''GET'' ''/{execution_id}'' False (Authenticated (\<lambda>owner ps rq.
        given (path_uuid dp ps) (\<lambda>i. reading 200 R_Execution (get_execution_route (dp_client dp) i owner)))),
      route ''DELETE'' ''/{execution_id}'' False (Authenticated (\<lambda>owner ps rq.
        given (path_uuid dp ps) (\<lambda>i. writing 204 (\<lambda>_. R_NoContent) (delete_execution_route (dp_client dp) i owner)))),
      route ''GET'' ''/{execution_id}/nodes'' False (Authenticated (\<lambda>owner ps rq.
        given (path_uuid dp ps) (\<lambda>i. reading 200 R_Nodes (get_execution_nodes_route (dp_client dp) i owner)))),
      route ''POST'' ''/{execution_id}/nodes/{node_id}/retry'' False (Authenticated (\<lambda>owner ps rq.
        given (path_uuid dp ps) (\<lambda>i. writing 200 R_Node (retry_node_execution_route (dp_client dp) i (ps ! 1) owner)))),
      route ''GET'' ''/{execution_id}/logs'' False (Authenticated (\<lambda>owner ps rq.
        given (path_uuid dp ps) (\<lambda>i. paged dp rq (\<lambda>limit offset.
          reading 200 R_Logs (\<lambda>w. get_execution_logs_route i owner limit offset (durable w)))))),
      route ''GET'' ''/{execution_id}/timeline'' False (Authenticated (\<lambda>owner ps rq.
        given (path_uuid dp ps) (\<lambda>i. given (query_int dp ''limit'' 500 rq) (\<lambda>limit.
          reading 200 R_Logs (\<lambda>w. get_execution_timeline_route i owner limit (durable w))))))]"

definition dlq_router :: "('q, 'c) dependencies \<Rightarrow> ('q, 'c) route list" where
  "dlq_router dp = prefixed ''/api/v1/dlq''
     [route ''GET'' [] False (Authenticated (\<lambda>owner ps rq.
        paged dp rq (\<lambda>limit offset. reading 200 R_Jobs (\<lambda>w. list_dlq_jobs_route owner limit offset (durable w))))),
      route ''GET'' ''/{dlq_id}'' False (Authenticated (\<lambda>owner ps rq.
        given (path_uuid dp ps) (\<lambda>i. reading 200 R_Job (\<lambda>w. get_dlq_job_route i owner (durable w))))),
      route ''POST'' ''/{dlq_id}/resolve'' True (Authenticated (\<lambda>owner ps rq.
        given (path_uuid dp ps) (\<lambda>i. given (body_of validate_ResolveDlqRequest rq) (\<lambda>note.
          writing 200 R_Job (resolve_dlq_job_route i note owner)))))]"

definition spawn_worker :: "uuid \<Rightarrow> ('q, 'c) server \<Rightarrow> response result \<times> ('q, 'c) server" where
  "spawn_worker owner s =
     (case spawn_worker_route (length (sv_spawned s)) (sv_tasks s) of
        (Inl e, ts) \<Rightarrow> (Inl e, s)
      | (Inr msg, ts) \<Rightarrow> (answered 202 R_Message (Inr msg), s\<lparr>sv_tasks := ts, sv_spawned := sv_spawned s @ [owner]\<rparr>))"

definition workers_router :: "('q, 'c) dependencies \<Rightarrow> ('q, 'c) route list" where
  "workers_router dp = prefixed ''/api/v1/workers''
     [route ''GET'' [] False (Authenticated (\<lambda>owner ps rq.
        paged dp rq (\<lambda>limit offset. reading 200 R_Workers (list_workers_route owner limit offset)))),
      route ''GET'' ''/{worker_id}'' False (Authenticated (\<lambda>owner ps rq.
        given (path_uuid dp ps) (\<lambda>i. reading 200 R_Worker (get_worker_route i owner)))),
      route ''POST'' ''/spawn'' False (Authenticated (\<lambda>owner ps rq. spawn_worker owner))]"

definition metrics_router :: "('q, 'c) dependencies \<Rightarrow> ('q, 'c) route list" where
  "metrics_router dp = prefixed ''/api/v1/metrics''
     [route ''GET'' ''/summary'' False (Authenticated (\<lambda>owner ps rq. reading 200 R_Metrics (get_metrics_summary (dp_depth dp) owner)))]"

definition app_routes :: "('q, 'c) dependencies \<Rightarrow> ('q, 'c) route list" where
  "app_routes dp = health_router dp @ auth_router dp @ workflows_router dp @ executions_router dp @
     dlq_router dp @ workers_router dp @ metrics_router dp"

subsection \<open>Matching and running\<close>

datatype segment = Lit string | Param

definition compile_path :: "string \<Rightarrow> segment list" where
  "compile_path p = map (\<lambda>s. if starts_with ''{'' s then Param else Lit s) (split_char (CHR ''/'') p)"

fun match_path :: "segment list \<Rightarrow> string list \<Rightarrow> string list option" where
  "match_path [] [] = Some []"
| "match_path (Lit a # ts) (s # ss) = (if a = s then match_path ts ss else None)"
| "match_path (Param # ts) (s # ss) = (if s = [] then None else map_option (\<lambda>ps. s # ps) (match_path ts ss))"
| "match_path _ _ = None"

definition route_params :: "http_request \<Rightarrow> ('q, 'c) route \<Rightarrow> string list option" where
  "route_params rq r =
     (if ro_method r = rq_method rq then match_path (compile_path (ro_path r)) (split_char (CHR ''/'') (rq_path rq)) else None)"

fun find_route :: "http_request \<Rightarrow> ('q, 'c) route list \<Rightarrow> (('q, 'c) route \<times> string list) option" where
  "find_route rq [] = None"
| "find_route rq (r # rs) = (case route_params rq r of None \<Rightarrow> find_route rq rs | Some ps \<Rightarrow> Some (r, ps))"

definition run_handler ::
  "('q, 'c) dependencies \<Rightarrow> ('q, 'c) route \<Rightarrow> string list \<Rightarrow> http_request \<Rightarrow> ('q, 'c) server \<Rightarrow> response result \<times> ('q, 'c) server" where
  "run_handler dp r ps rq s =
     (if ro_has_body r \<and> rq_body rq = NotJson then (Inl (RequestValidationError ''body''), s)
      else
        (case ro_handler r of
           Open f \<Rightarrow> f ps rq s
         | Authenticated f \<Rightarrow>
             given (require_api_key_id (token_settings dp) (dp_jwt_decode dp) (rq_cookies rq) (rq_bearer rq))
               (\<lambda>owner. f owner ps rq) s))"

definition routes ::
  "('q, 'c) dependencies \<Rightarrow> (http_request \<Rightarrow> response result) \<Rightarrow> http_request \<Rightarrow> ('q, 'c) server \<Rightarrow>
   response result \<times> ('q, 'c) server" where
  "routes dp unmatched rq s =
     (case find_route rq (app_routes dp) of
        None \<Rightarrow> (unmatched rq, s)
      | Some (r, ps) \<Rightarrow>
          (case run_handler dp r ps rq s of
             (Inl e, s') \<Rightarrow> (handle_error (dp_errors dp) e, s')
           | (Inr a, s') \<Rightarrow> (Inr a, s')))"

text \<open>The application with the handler for \<open>Exception\<close> around it.\<close>

definition eventflow ::
  "((http_request \<Rightarrow> ('r, ('q, 'c) server) gateway \<Rightarrow> response result \<times> ('r, ('q, 'c) server) gateway) \<Rightarrow>
     http_request \<Rightarrow> ('r, ('q, 'c) server) gateway \<Rightarrow> response result \<times> ('r, ('q, 'c) server) gateway) \<Rightarrow>
   (string \<Rightarrow> int \<Rightarrow> 'r \<Rightarrow> int result \<times> 'r) \<Rightarrow> ('q, 'c) dependencies \<Rightarrow> (http_request \<Rightarrow> response result) \<Rightarrow> time \<Rightarrow>
   http_request \<Rightarrow> ('r, ('q, 'c) server) gateway \<Rightarrow> response \<times> ('r, ('q, 'c) server) gateway" where
  "eventflow cors redis_incr dp unmatched t rq g =
     (case application cors redis_incr (routes dp unmatched) (dp_settings dp) t rq g of
        (Inl e, g') \<Rightarrow> (handle_unhandled_exception, g')
      | (Inr a, g') \<Rightarrow> (a, g'))"

subsection \<open>What the middleware leaves alone\<close>

lemma content_setdefault [simp]:
  "rp_status (fold setdefault_header hs r) = rp_status r" "rp_content (fold setdefault_header hs r) = rp_content r"
  by (induction hs arbitrary: r) (simp_all add: setdefault_header_def set_header_def)

lemma content_limited [simp]: "rp_status (limited l k r) = rp_status r" "rp_content (limited l k r) = rp_content r"
  by (simp_all add: limited_def set_header_def)

text \<open>
  If the routes leave the state as it is, so does the application; its answer is then the refusal of the
  limiter, or has the status and the content that the routes gave it.
\<close>

lemma dispatch_pure:
  assumes "inner rq (gw_app g) = (r0, gw_app g)"
    and "dispatch redis_incr (security_dispatch inner) limit window t rq g = (r, g')"
  shows "gw_app g' = gw_app g"
    and "r = Inr a \<Longrightarrow> a = too_many limit window \<or> (\<exists>b. r0 = Inr b \<and> rp_status a = rp_status b \<and> rp_content a = rp_content b)"
    and "r = Inl e \<Longrightarrow> r0 = Inl e"
  using assms
  by (auto simp: dispatch_def fallback_def run_app_def security_dispatch_def Let_def split: if_splits prod.splits sum.splits)

lemma eventflow_pure:
  assumes "routes dp unmatched rq (gw_app g) = (r0, gw_app g)"
    and "eventflow (\<lambda>inner. inner) redis_incr dp unmatched t rq g = (a, g')"
  shows "gw_app g' = gw_app g"
    and "a = handle_unhandled_exception \<and> isl r0 \<or> (\<exists>limit window. a = too_many limit window) \<or>
      (\<exists>b. r0 = Inr b \<and> rp_status a = rp_status b \<and> rp_content a = rp_content b)"
proof -
  obtain r where d: "dispatch redis_incr (security_dispatch (routes dp unmatched)) (rate_limit_requests (dp_settings dp))
      (rate_limit_window_seconds (dp_settings dp)) t rq g = (r, g')"
    and a: "a = (case r of Inl e \<Rightarrow> handle_unhandled_exception | Inr b \<Rightarrow> b)"
    using assms(2) by (auto simp: eventflow_def application_def split: prod.splits sum.splits)
  note pure = dispatch_pure [where inner = "routes dp unmatched", OF assms(1) d]
  show "gw_app g' = gw_app g" by (rule pure(1))
  show "a = handle_unhandled_exception \<and> isl r0 \<or> (\<exists>limit window. a = too_many limit window) \<or>
      (\<exists>b. r0 = Inr b \<and> rp_status a = rp_status b \<and> rp_content a = rp_content b)"
    using a pure(2, 3) by (cases r) auto
qed

subsection \<open>Routes\<close>

lemma find_route_Some: "find_route rq rs = Some (r, ps) \<Longrightarrow> r \<in> set rs \<and> route_params rq r = Some ps"
  by (induction rs) (auto split: option.splits)

lemma split_char_nonempty [simp]: "split_char c s \<noteq> []"
  by (cases s) (auto split: list.splits)

lemmas [simp] = split_char_nonempty [symmetric]

lemma split_char_inject: "split_char c s = split_char c t \<Longrightarrow> s = t"
proof (induction s arbitrary: t)
  case Nil
  then show ?case by (cases t) (auto split: if_splits list.splits)
next
  case (Cons x s)
  obtain p ps where p: "split_char c s = p # ps" by (cases "split_char c s") auto
  obtain y t' where t: "t = y # t'" using Cons.prems by (cases t) (auto split: if_splits list.splits)
  obtain q qs where q: "split_char c t' = q # qs" by (cases "split_char c t'") auto
  show ?case using Cons.prems Cons.IH [of t'] p q t by (auto split: if_splits)
qed

text \<open>A path without parameters is matched by itself only.\<close>

lemma match_literals: "match_path (map Lit as) ss = Some ps \<Longrightarrow> ss = as \<and> ps = []"
  by (induction "map Lit as" ss arbitrary: as rule: match_path.induct) (auto split: if_splits)

lemma literal_route:
  assumes "route_params rq r = Some ps" and "compile_path (ro_path r) = map Lit (split_char (CHR ''/'') (ro_path r))"
  shows "ps = []" and "rq_path rq = ro_path r"
proof -
  have "match_path (map Lit (split_char (CHR ''/'') (ro_path r))) (split_char (CHR ''/'') (rq_path rq)) = Some ps"
    using assms by (simp add: route_params_def split: if_splits)
  from match_literals [OF this] show "ps = []" and "rq_path rq = ro_path r" using split_char_inject by auto
qed

lemmas router_defs = app_routes_def health_router_def auth_router_def workflows_router_def executions_router_def
  dlq_router_def workers_router_def metrics_router_def prefixed_def route_def

definition open_paths :: "string list" where
  "open_paths = [''/health/live'', ''/health/ready'', ''/api/v1/auth/token'', ''/api/v1/auth/refresh'', ''/api/v1/auth/logout'']"

lemma open_routes:
  assumes "r \<in> set (app_routes dp)" and "ro_handler r = Open f" and "route_params rq r = Some ps"
  shows "rq_path rq \<in> set open_paths"
proof -
  have path: "ro_path r \<in> set open_paths" using assms(1, 2) by (auto simp: router_defs open_paths_def)
  then have "compile_path (ro_path r) = map Lit (split_char (CHR ''/'') (ro_path r))"
    by (auto simp: open_paths_def compile_path_def starts_with_def)
  then show ?thesis using literal_route(2) [OF assms(3)] path by simp
qed

lemma require_api_key_id_Inl:
  "require_api_key_id settings dec cookies bearer = Inl e \<Longrightarrow> (\<exists>m c. e = AppError m c 401) \<or> e = AttributeError ''replace''"
  by (auto simp: require_api_key_id_def require_api_key_def resolve_api_key_id_def get_current_principal_from_token_def unauthorized_def
      rbind_eq_Inl split: option.splits if_splits sum.splits jwt_error.splits json.splits)

lemma routes_unauthenticated:
  assumes "require_api_key_id (token_settings dp) (dp_jwt_decode dp) (rq_cookies rq) (rq_bearer rq) = Inl e"
    and "find_route rq (app_routes dp) = Some (r, ps)" and "rq_path rq \<notin> set open_paths"
  obtains r0 where "routes dp unmatched rq s = (r0, s)" and "\<And>b. r0 = Inr b \<Longrightarrow> rp_status b \<in> {401, 422}"
proof -
  obtain f where f: "ro_handler r = Authenticated f"
    using open_routes [of r dp] find_route_Some [OF assms(2)] assms(3) by (cases "ro_handler r") auto
  have "\<exists>e'. run_handler dp r ps rq s = (Inl e', s) \<and> (e' = e \<or> e' = RequestValidationError ''body'')"
    using assms(1) f by (simp add: run_handler_def given_def)
  then obtain e' where "run_handler dp r ps rq s = (Inl e', s)" and "e' = e \<or> e' = RequestValidationError ''body''" by blast
  then show ?thesis using that [of "handle_error (dp_errors dp) e'"] require_api_key_id_Inl [OF assms(1)] assms(2)
    by (auto simp: routes_def json_response_def)
qed

subsection \<open>Strangers\<close>

lemma owned_none: "\<not> owns owner x db \<Longrightarrow> filter (\<lambda>e. ex_id e = x) (owned db owner) = []"
  by (auto simp: owns_def filter_empty_conv)

lemma logs_stranger:
  assumes "\<not> owns owner x db"
  shows "isl (get_execution_logs_route x owner limit offset db)" and "isl (get_execution_timeline_route x owner limit db)"
  using owned_none [OF assms]
  by (auto simp: get_execution_logs_route_def get_execution_timeline_route_def list_logs_def get_timeline_def check_ownership_def paging_def)

text \<open>An answer that shows nothing: an error, or an empty list of nodes.\<close>

definition shows_nothing :: "response result \<Rightarrow> bool" where
  "shows_nothing r = (case r of Inl e \<Rightarrow> True | Inr a \<Rightarrow> (case rp_content a of Inl j \<Rightarrow> True | Inr m \<Rightarrow> m = R_Nodes []))"

lemma shows_nothing_Inl [simp]: "shows_nothing (Inl e)"
  by (simp add: shows_nothing_def)

lemma reading_refused: "isl (g (sv_world s)) \<Longrightarrow> \<exists>e. reading status f g s = (Inl e, s)"
  by (cases "g (sv_world s)") (auto simp: reading_def answered_def)

lemma writing_refused: "isl (fst (g (sv_world s))) \<Longrightarrow> snd (g (sv_world s)) = sv_world s \<Longrightarrow> \<exists>e. writing status f g s = (Inl e, s)"
  by (cases "g (sv_world s)"; cases "fst (g (sv_world s))") (auto simp: writing_def answered_def)

lemma paged_refused:
  assumes "\<And>limit offset. \<exists>e. f limit offset s = (Inl e, s)"
  shows "\<exists>e. paged dp rq f s = (Inl e, s)"
  using assms by (auto simp: paged_def given_def split: sum.splits)

lemma handle_error_shows_nothing: "shows_nothing (handle_error errors e)"
  by (cases e) (simp_all add: shows_nothing_def json_response_def)

lemma nodes_refused:
  assumes "isolating_client client" and "\<not> owns owner x (durable (sv_world s))"
  shows "\<exists>r0. reading 200 R_Nodes (get_execution_nodes_route client x owner) s = (r0, s) \<and> shows_nothing r0"
proof (cases "get_execution_nodes_route client x owner (sv_world s)")
  case (Inr ns)
  with isolating_client.nodes_route_stranger [OF assms(1, 2)] have "ns = []" by blast
  with Inr show ?thesis by (simp add: reading_def answered_def shows_nothing_def)
qed (simp add: reading_def answered_def shows_nothing_def)

lemma executions_stranger:
  assumes client: "isolating_client (dp_client dp)" and stranger: "\<not> owns owner x (durable (sv_world s))"
    and r: "r \<in> set (executions_router dp)" and ps: "route_params rq r = Some ps" "ps \<noteq> []"
    and x: "lax_uuid (dp_lax dp) (JStr (ps ! 0)) = Some x" and f: "ro_handler r = Authenticated f"
  shows "\<exists>r0. f owner ps rq s = (r0, s) \<and> shows_nothing r0"
proof -
  have params: "ro_path r \<noteq> ''/api/v1/executions''"
    using literal_route(1) [OF ps(1)] ps(2) by (auto simp: compile_path_def starts_with_def)
  have uuid: "given (path_uuid dp ps) k s = k x s" for k :: "uuid \<Rightarrow> ('a, 'b) server \<Rightarrow> response result \<times> ('a, 'b) server"
    using x by (simp add: path_uuid_def accepted_def given_def)
  note get = reading_refused [where g = "get_execution_route (dp_client dp) x owner", OF isolating_client.get_route_stranger [OF client stranger]]
  note delete = writing_refused [where g = "delete_execution_route (dp_client dp) x owner", OF isolating_client.writes_stranger(4, 3) [OF client stranger]]
  note retry = writing_refused [where g = "retry_node_execution_route (dp_client dp) x (ps ! 1) owner",
      OF isolating_client.writes_stranger(2, 1) [OF client stranger]]
  have logs: "\<exists>e. paged dp rq (\<lambda>limit offset. reading 200 R_Logs (\<lambda>w. get_execution_logs_route x owner limit offset (durable w))) s = (Inl e, s)"
    by (intro paged_refused reading_refused logs_stranger stranger)
  have timeline: "\<exists>e. given (query_int dp ''limit'' 500 rq) (\<lambda>limit. reading 200 R_Logs (\<lambda>w. get_execution_timeline_route x owner limit (durable w))) s = (Inl e, s)"
    using reading_refused [where g = "\<lambda>w. get_execution_timeline_route x owner _ (durable w)", OF logs_stranger(2) [OF stranger]]
    by (auto simp: given_def split: sum.splits)
  show ?thesis
    using r params f get [of 200 R_Execution] delete [of 204 "\<lambda>_. R_NoContent"] retry [of 200 R_Node] logs timeline nodes_refused [OF client stranger]
    by (auto simp: executions_router_def prefixed_def route_def uuid)
qed

lemma routes_stranger:
  assumes "isolating_client (dp_client dp)" and "\<not> owns owner x (durable (sv_world s))"
    and "require_api_key_id (token_settings dp) (dp_jwt_decode dp) (rq_cookies rq) (rq_bearer rq) = Inr owner"
    and r: "find_route rq (app_routes dp) = Some (r, ps)" "r \<in> set (executions_router dp)" "ps \<noteq> []"
    and "lax_uuid (dp_lax dp) (JStr (ps ! 0)) = Some x"
  obtains r0 where "routes dp unmatched rq s = (r0, s)" and "shows_nothing r0"
proof -
  have ps: "route_params rq r = Some ps" using find_route_Some [OF r(1)] by simp
  obtain f where f: "ro_handler r = Authenticated f"
    using r(2) by (auto simp: executions_router_def prefixed_def route_def)
  have "\<exists>r0. run_handler dp r ps rq s = (r0, s) \<and> shows_nothing r0"
    using executions_stranger [OF assms(1, 2) r(2) ps r(3) assms(7) f] assms(3) f by (auto simp: run_handler_def given_def)
  then obtain r0 where "run_handler dp r ps rq s = (r0, s)" and "shows_nothing r0" by blast
  then show ?thesis using that [of "case r0 of Inl e \<Rightarrow> handle_error (dp_errors dp) e | Inr a \<Rightarrow> Inr a"] r(1)
    by (cases r0) (auto simp: routes_def handle_error_shows_nothing)
qed

subsection \<open>No route shadows another\<close>

fun overlap :: "segment list \<Rightarrow> segment list \<Rightarrow> bool" where
  "overlap [] [] = True"
| "overlap (Lit a # ts) (Lit b # us) = (a = b \<and> overlap ts us)"
| "overlap (Lit a # ts) (Param # us) = (a \<noteq> [] \<and> overlap ts us)"
| "overlap (Param # ts) (Lit b # us) = (b \<noteq> [] \<and> overlap ts us)"
| "overlap (Param # ts) (Param # us) = overlap ts us"
| "overlap _ _ = False"

lemma match_path_Nil [simp]: "match_path ts [] = (if ts = [] then Some [] else None)" "match_path [] ss = (if ss = [] then Some [] else None)"
  by (cases ts rule: list.exhaust; cases "hd ts"; simp) (cases ss; simp)

lemma match_overlap: "match_path ts ss \<noteq> None \<Longrightarrow> match_path us ss \<noteq> None \<Longrightarrow> overlap ts us"
proof (induction ts arbitrary: us ss)
  case Nil
  then show ?case by (auto split: if_splits)
next
  case (Cons t ts)
  then obtain s ss' u us' where ss: "ss = s # ss'" and us: "us = u # us'"
    by (cases ss; cases us) (auto split: if_splits)
  show ?case using Cons.prems Cons.IH [of ss' us'] unfolding ss us
    by (cases t; cases u) (auto split: if_splits)
qed

fun separate :: "(string \<times> segment list) list \<Rightarrow> bool" where
  "separate [] = True"
| "separate (x # xs) = (list_all (\<lambda>y. fst x = fst y \<longrightarrow> \<not> overlap (snd x) (snd y)) xs \<and> separate xs)"

abbreviation signature_of :: "('q, 'c) route \<Rightarrow> string \<times> segment list" where
  "signature_of r \<equiv> (ro_method r, compile_path (ro_path r))"

lemma separate_find:
  assumes "separate (map signature_of rs)" and "r \<in> set rs" and "route_params rq r = Some ps"
  shows "find_route rq rs = Some (r, ps)"
  using assms
proof (induction rs)
  case (Cons x rs)
  show ?case
  proof (cases "route_params rq x")
    case None
    then show ?thesis using Cons by auto
  next
    case (Some qs)
    have "r \<notin> set rs"
      using Cons.prems(1, 3) Some match_overlap by (fastforce simp: route_params_def list_all_iff split: if_splits)
    then show ?thesis using Cons.prems Some by auto
  qed
qed simp

lemma app_routes_separate: "separate (map signature_of (app_routes dp))"
  by (simp add: router_defs compile_path_def starts_with_def)

text \<open>A request is handled by every route it matches, wherever that route stands in the table.\<close>

lemma routes_reachable:
  assumes "r \<in> set (app_routes dp)" and "route_params rq r = Some ps"
  shows "find_route rq (app_routes dp) = Some (r, ps)"
  using separate_find [OF app_routes_separate assms] .

end
