(* ===== verification/Api_Invariant.thy ===== *)
theory Api_Invariant
  imports Routing
begin

section \<open>Requests keep the invariant of the database\<close>

text \<open>
  \<open>Reachability\<close> shows that every transaction keeps \<open>db_ok\<close>. Here this is carried to the HTTP interface:
  whatever a client sends, the handler that runs, and the middleware that may run it twice, leave a
  database that satisfies it. The routes rely on the engine through an \<open>engine_client\<close> only, so what they
  need of it is the interface \<open>keeping_client\<close>, interpreted on the local client and on the gRPC client.
\<close>

text \<open>
  The uuids still to be drawn are new: enough of them to start any stored version, and to store one
  workflow more.
\<close>

definition fresh_world :: "('q, 'c) world \<Rightarrow> bool" where
  "fresh_world w \<longleftrightarrow>
     (\<forall>v \<in> set (workflow_versions (durable w)). fresh_ids (Suc (length (nodes (wv_definition v)))) (open_session w)) \<and>
     ids w (ids_used w) \<notin> wv_id ` set (workflow_versions (durable w)) \<and>
     ids w (Suc (ids_used w)) \<notin> wv_id ` set (workflow_versions (durable w))"

lemma route_worlds:
  "snd (create_execution_route client v payload owner w) =
     snd (ec_start client \<lparr>cmd_workflow_version_id = v, cmd_input_payload = payload\<rparr> owner w)"
  "snd (retry_node_execution_route client x nid owner w) = snd (ec_retry client x nid owner w)"
  "snd (delete_execution_route client x owner w) = snd (ec_delete client x owner w)"
  by (simp_all add: create_execution_route_def retry_node_execution_route_def delete_execution_route_def split: prod.splits sum.splits option.splits)

locale keeping_client =
  fixes client :: "('q, 'c) engine_client"
  assumes start_keeps: "db_ok (durable w) \<Longrightarrow> fresh_world w \<Longrightarrow> db_ok (durable (snd (ec_start client command owner w)))"
    and retry_keeps: "db_ok (durable w) \<Longrightarrow> db_ok (durable (snd (ec_retry client x nid owner w)))"
    and delete_keeps: "db_ok (durable w) \<Longrightarrow> db_ok (durable (snd (ec_delete client x owner w)))"
begin

lemma create_execution_keeps:
  "db_ok (durable w) \<Longrightarrow> fresh_world w \<Longrightarrow> db_ok (durable (snd (create_execution_route client v payload owner w)))"
  by (simp add: route_worlds start_keeps)

lemma retry_route_keeps: "db_ok (durable w) \<Longrightarrow> db_ok (durable (snd (retry_node_execution_route client x nid owner w)))"
  by (simp add: route_worlds retry_keeps)

lemma delete_route_keeps: "db_ok (durable w) \<Longrightarrow> db_ok (durable (snd (delete_execution_route client x owner w)))"
  by (simp add: route_worlds delete_keeps)

end

lemma start_fresh_ok:
  "db_ok (durable w) \<Longrightarrow> fresh_world w \<Longrightarrow> db_ok (durable (snd (start_execution registry publish ws_publish command owner w)))"
  by (rule start_execution_ok [OF _ surjective_pairing]) (simp_all add: fresh_world_def)

interpretation local_keeps: keeping_client "local_client registry publish ws_publish"
  using retry_node_ok [OF _ surjective_pairing] delete_execution_ok [OF _ surjective_pairing]
  by unfold_locales (simp_all add: local_client_def start_fresh_ok)

text \<open>Over gRPC an operation ends in the world its engine left, or in the one it found.\<close>

lemma grpc_worlds:
  "snd (ec_start (grpc_client eng to_struct struct_items to_dict) command owner w) \<in>
     insert w (range (\<lambda>c. snd (ec_start eng c owner w)))"
  "snd (ec_retry (grpc_client eng to_struct struct_items to_dict) x nid owner w) = snd (ec_retry eng x nid owner w)"
  "snd (ec_delete (grpc_client eng to_struct struct_items to_dict) x owner w) = snd (ec_delete eng x owner w)"
  by (auto simp: grpc_client_def grpc_start_def grpc_retry_def grpc_delete_def StartExecution_def RetryNode_def DeleteExecution_def
      uuid_parse_str Let_def image_iff split: sum.splits prod.splits) (metis snd_conv)+

lemma grpc_keeping:
  assumes "keeping_client eng"
  shows "keeping_client (grpc_client eng to_struct struct_items to_dict)"
proof unfold_locales
  show "db_ok (durable (snd (ec_start (grpc_client eng to_struct struct_items to_dict) command owner w)))"
    if "db_ok (durable w)" and "fresh_world w" for w command owner
    using grpc_worlds(1) [of eng to_struct struct_items to_dict command owner w] keeping_client.start_keeps [OF assms] that by auto
qed (simp_all add: grpc_worlds keeping_client.retry_keeps [OF assms] keeping_client.delete_keeps [OF assms])

interpretation remote_keeps: keeping_client "grpc_client (local_client registry publish ws_publish) to_struct struct_items to_dict"
  by (rule grpc_keeping) (rule local_keeps.keeping_client_axioms)

subsection \<open>The services behind the other routes\<close>

lemma in_session_keeps:
  assumes "db_ok (durable w)" and "\<And>x s. f (open_session w) = Inr (x, s) \<Longrightarrow> db_ok (sdb s)"
  shows "db_ok (durable (snd (in_session f w)))"
  using assms by (auto simp: in_session_def split: sum.splits prod.splits)

lemma step_keeps: "sys_step float_repr registry (db, {}) (db', {}) \<Longrightarrow> db_ok db \<Longrightarrow> db_ok db'"
  using sys_ok_step [of float_repr registry "(db, {})" "(db', {})"] by (simp add: sys_ok_def)

lemma create_workflow_keeps:
  assumes "db_ok (durable w)" and "fresh_world w"
  shows "db_ok (durable (snd (create_workflow_route float_repr registry name description d owner w)))"
proof -
  have "db_ok (durable (snd (in_session (create_workflow float_repr registry name description d owner) w)))" if "valid_WorkflowDefinition d"
  proof (rule in_session_keeps [OF assms(1)])
    fix x s assume c: "create_workflow float_repr registry name description d owner (open_session w) = Inr (x, s)"
    have "sys_step float_repr registry (sdb (open_session w), {}) (sdb s, {})"
      by (rule sys_step.create [OF c that]) (use assms(2) in \<open>simp add: fresh_world_def open_session_def\<close>)
    then show "db_ok (sdb s)" by (rule step_keeps) (use assms in simp)
  qed
  then show ?thesis using assms(1) by (auto simp: create_workflow_route_def split: prod.splits sum.splits)
qed

lemma create_version_keeps:
  assumes "db_ok (durable w)" and "fresh_world w"
  shows "db_ok (durable (snd (create_workflow_version_route float_repr registry i d owner w)))"
proof -
  have "db_ok (durable (snd (in_session (create_workflow_version float_repr registry i d owner) w)))" if "valid_WorkflowDefinition d"
  proof (rule in_session_keeps [OF assms(1)])
    fix x s assume c: "create_workflow_version float_repr registry i d owner (open_session w) = Inr (x, s)"
    have "sys_step float_repr registry (sdb (open_session w), {}) (sdb s, {})"
      by (rule sys_step.add_version [OF c that]) (use assms(2) in \<open>simp add: fresh_world_def open_session_def\<close>)
    then show "db_ok (sdb s)" by (rule step_keeps) (use assms in simp)
  qed
  then show ?thesis using assms(1) by (auto simp: create_workflow_version_route_def split: prod.splits sum.splits)
qed

lemma delete_workflow_keeps:
  assumes "db_ok (durable w)"
  shows "db_ok (durable (snd (delete_workflow_route i owner w)))"
proof -
  have "db_ok (durable (snd (in_session (delete_workflow i owner) w)))"
  proof (rule in_session_keeps [OF assms])
    fix x s assume c: "delete_workflow i owner (open_session w) = Inr (x, s)"
    have "sys_step (\<lambda>r. []) [] (sdb (open_session w), {}) (sdb s, {})"
      by (rule sys_step.drop_workflow [OF c])
    then show "db_ok (sdb s)" by (rule step_keeps) (use assms in simp)
  qed
  then show ?thesis by (auto simp: delete_workflow_route_def split: prod.splits sum.splits)
qed

lemma resolve_keeps:
  assumes "db_ok (durable w)"
  shows "db_ok (durable (snd (resolve_dlq_job_route i note owner w)))"
proof -
  have "db_ok (durable (snd (in_session (resolve_dlq_job i owner note) w)))"
  proof (rule in_session_keeps [OF assms])
    fix x s assume c: "resolve_dlq_job i owner note (open_session w) = Inr (x, s)"
    have "sys_step (\<lambda>r. []) [] (sdb (open_session w), {}) (sdb s, {})"
      by (rule sys_step.resolve [OF c])
    then show "db_ok (sdb s)" by (rule step_keeps) (use assms in simp)
  qed
  then show ?thesis by (auto simp: resolve_dlq_job_route_def split: prod.splits sum.splits)
qed

text \<open>The token routes write keys and tokens only.\<close>

definition same_runs :: "database \<Rightarrow> database \<Rightarrow> bool" where
  "same_runs db db' \<longleftrightarrow> node_executions db' = node_executions db \<and> executions db' = executions db \<and>
     dead_letter_jobs db' = dead_letter_jobs db \<and> workflow_versions db' = workflow_versions db"

lemma same_runs_keeps: "same_runs db db' \<Longrightarrow> db_ok db \<Longrightarrow> db_ok db'"
  by (auto simp: same_runs_def intro: db_ok_same)

lemma add_refresh_token_runs: "add_refresh_token settings random f k s = Inr s' \<Longrightarrow> same_runs (sdb s) (sdb s')"
  by (auto simp: add_refresh_token_def new_uuid_def Let_def same_runs_def modify_db_def split: if_splits)

lemma login_keeps: "db_ok (durable w) \<Longrightarrow> db_ok (durable (snd (login_for_access_token settings enc random api_key w)))"
  by (rule same_runs_keeps [rotated], assumption)
    (auto simp: login_for_access_token_def authenticate_api_key_def touch_key_def same_runs_def new_uuid_def modify_db_def open_session_def Let_def
      split: sum.splits prod.splits option.splits if_splits dest!: add_refresh_token_runs)

lemma refresh_keeps: "db_ok (durable w) \<Longrightarrow> db_ok (durable (snd (refresh_access_token settings enc random cookie body w)))"
  by (rule same_runs_keeps [rotated], assumption)
    (auto simp: refresh_access_token_def invalidate_family_def same_runs_def modify_db_def open_session_def Let_def
      split: sum.splits option.splits dest!: add_refresh_token_runs)

lemma logout_keeps: "db_ok (durable w) \<Longrightarrow> db_ok (durable (snd (logout cookie w)))"
  by (rule same_runs_keeps [rotated], assumption)
    (auto simp: logout_def same_runs_def Let_def split: sum.splits option.splits)

subsection \<open>Every handler\<close>

abbreviation server_ok :: "('q, 'c) server \<Rightarrow> bool" where
  "server_ok s \<equiv> db_ok (durable (sv_world s))"

named_theorems keeps

lemma reading_keeps [keeps]: "server_ok s \<Longrightarrow> server_ok (snd (reading status f g s))"
  by (simp add: reading_def)

lemma writing_keeps [keeps]: "db_ok (durable (snd (g (sv_world s)))) \<Longrightarrow> server_ok (snd (writing status f g s))"
  by (cases "g (sv_world s)") (simp add: writing_def)

lemma given_keeps [keeps]: "server_ok s \<Longrightarrow> (\<And>x. server_ok (snd (f x s))) \<Longrightarrow> server_ok (snd (given r f s))"
  by (simp add: given_def split: sum.splits)

lemma paged_keeps [keeps]: "server_ok s \<Longrightarrow> (\<And>l k. server_ok (snd (f l k s))) \<Longrightarrow> server_ok (snd (paged dp rq f s))"
  unfolding paged_def by (intro keeps)

lemma drawing_keeps [keeps]: "(\<And>x k. server_ok (snd (f x (s\<lparr>sv_tokens := k\<rparr>)))) \<Longrightarrow> server_ok (snd (drawing dp f s))"
  by (simp add: drawing_def)

lemma spawn_worker_keeps [keeps]: "server_ok s \<Longrightarrow> server_ok (snd (spawn_worker owner s))"
  by (simp add: spawn_worker_def split: prod.splits sum.splits)

lemmas [keeps] = login_keeps refresh_keeps logout_keeps create_workflow_keeps create_version_keeps delete_workflow_keeps resolve_keeps

lemma handler_keeps:
  assumes "keeping_client (dp_client dp)" and "server_ok s" and "fresh_world (sv_world s)" and "r \<in> set (app_routes dp)"
  shows "case ro_handler r of Open f \<Rightarrow> server_ok (snd (f ps rq s)) | Authenticated f \<Rightarrow> server_ok (snd (f owner ps rq s))"
proof -
  note [keeps] = keeping_client.create_execution_keeps [OF assms(1)] keeping_client.retry_route_keeps [OF assms(1)]
    keeping_client.delete_route_keeps [OF assms(1)]
  show ?thesis using assms(2-4) by (auto simp: router_defs Let_def intro!: keeps split: prod.splits)
qed

lemma routes_keep:
  assumes "keeping_client (dp_client dp)" and "server_ok s" and "fresh_world (sv_world s)"
  shows "server_ok (snd (routes dp unmatched rq s))"
proof (cases "find_route rq (app_routes dp)")
  case (Some rp)
  obtain r ps where rp: "rp = (r, ps)" by (cases rp)
  have "server_ok (snd (run_handler dp r ps rq s))"
    using handler_keeps [OF assms, of r ps rq] find_route_Some [OF Some [unfolded rp]] assms(2)
    by (auto simp: run_handler_def given_def split: handler.splits sum.splits)
  then show ?thesis using Some rp by (auto simp: routes_def split: prod.splits sum.splits)
qed (use assms(2) in \<open>simp add: routes_def\<close>)

text \<open>The middleware runs the routes not at all, once, or, when they raise, twice.\<close>

lemma dispatch_runs:
  "gw_app (snd (dispatch redis_incr (security_dispatch inner) limit window t rq g)) \<in>
     {gw_app g, snd (inner rq (gw_app g)), snd (inner rq (snd (inner rq (gw_app g))))}"
  by (auto simp: dispatch_def fallback_def run_app_def security_dispatch_def Let_def split: if_splits prod.splits sum.splits)

lemma eventflow_runs:
  "gw_app (snd (eventflow (\<lambda>inner. inner) redis_incr dp unmatched t rq g)) \<in>
     {gw_app g, snd (routes dp unmatched rq (gw_app g)), snd (routes dp unmatched rq (snd (routes dp unmatched rq (gw_app g))))}"
proof -
  have "snd (eventflow (\<lambda>inner. inner) redis_incr dp unmatched t rq g) = snd (dispatch redis_incr (security_dispatch (routes dp unmatched))
      (rate_limit_requests (dp_settings dp)) (rate_limit_window_seconds (dp_settings dp)) t rq g)"
    by (simp add: eventflow_def application_def split: prod.splits sum.splits)
  then show ?thesis by (simp only: dispatch_runs)
qed

lemma eventflow_keeps:
  assumes "keeping_client (dp_client dp)" and "server_ok (gw_app g)" and "fresh_world (sv_world (gw_app g))"
    and "fresh_world (sv_world (snd (routes dp unmatched rq (gw_app g))))"
  shows "server_ok (gw_app (snd (eventflow (\<lambda>inner. inner) redis_incr dp unmatched t rq g)))"
  using eventflow_runs [of redis_incr dp unmatched t rq g] assms(2) routes_keep [OF assms(1-3)] routes_keep [OF assms(1) _ assms(4)] by auto

end
