(* ===== verification/Row_Types.thy ===== *)
theory Row_Types
  imports Migrations Execution_Engine Workflow_Service Auth Workers
begin

section \<open>Rows and the columns they have to fit\<close>

text \<open>
  The models of the services let a row hold any value of its field's Python type. PostgreSQL does not:
  a \<open>VARCHAR(n)\<close> holds at most n characters and no NUL, an \<open>INTEGER\<close> 32 bits, \<open>JSONB\<close> neither NUL
  nor a float that is not a number, a column is NULL only if it may be, and an enumeration one of its
  members. This theory gives each mapped object its row, says when a row fits the columns its class
  declares (the tables of \<open>models_metadata\<close>, to which the migrations lead), and shows for the rows the
  services create which conditions remain on what a client sends: exactly those that no schema checks.
\<close>

datatype sql_value = SqlNull | SqlText string | SqlBool bool | SqlTime time | SqlUuid uuid | SqlInt int | SqlJson json

definition text_ok :: "string \<Rightarrow> bool" where
  "text_ok s \<longleftrightarrow> CHR 0x00 \<notin> set s"

definition varchar :: "nat \<Rightarrow> string \<Rightarrow> bool" where
  "varchar n s \<longleftrightarrow> length s \<le> n \<and> text_ok s"

definition integer32 :: "int \<Rightarrow> bool" where
  "integer32 i \<longleftrightarrow> - (2 ^ 31) \<le> i \<and> i < 2 ^ 31"

fun json_ok :: "json \<Rightarrow> bool" where
  "json_ok (JFloat f) = (case f of Finite r \<Rightarrow> True | _ \<Rightarrow> False)"
| "json_ok (JStr s) = text_ok s"
| "json_ok (JArr xs) = list_all json_ok xs"
| "json_ok (JObj d) = list_all (\<lambda>kv. text_ok (fst kv) \<and> json_ok (snd kv)) d"
| "json_ok j = True"

fun fits :: "sa_type \<Rightarrow> sql_value \<Rightarrow> bool" where
  "fits (String None) (SqlText s) = text_ok s"
| "fits (String (Some n)) (SqlText s) = varchar n s"
| "fits Boolean (SqlBool b) = True"
| "fits DateTime (SqlTime t) = True"
| "fits SaUUID (SqlUuid u) = True"
| "fits SaUuid (SqlUuid u) = True"
| "fits Integer (SqlInt i) = integer32 i"
| "fits JSONB (SqlJson j) = json_ok j"
| "fits (Enum members name n) (SqlText s) = (s \<in> set members \<and> varchar n s)"
| "fits _ _ = False"

definition column_fits :: "column \<Rightarrow> sql_value \<Rightarrow> bool" where
  "column_fits c v = (if v = SqlNull then nullable c else fits (col_type c) v)"

text \<open>A row of a table names its columns.\<close>

type_synonym row = "(string \<times> sql_value) list"

definition row_fits :: "table \<Rightarrow> row \<Rightarrow> bool" where
  "row_fits t r \<longleftrightarrow> mset (map fst r) = mset (map col_name (tb_columns t)) \<and>
     list_all (\<lambda>c. case map_of r (col_name c) of None \<Rightarrow> False | Some v \<Rightarrow> column_fits c v) (tb_columns t)"

definition maybe :: "('a \<Rightarrow> sql_value) \<Rightarrow> 'a option \<Rightarrow> sql_value" where
  "maybe f x = (case x of None \<Rightarrow> SqlNull | Some v \<Rightarrow> f v)"

definition sql_dict :: "jdict \<Rightarrow> sql_value" where
  "sql_dict d = SqlJson (JObj d)"

subsection \<open>The row of each mapped class\<close>

definition api_key_row :: "APIKey \<Rightarrow> row" where
  "api_key_row k =
     [(''id'', SqlUuid (ak_id k)), (''created_at'', SqlTime (ak_created_at k)), (''name'', SqlText (ak_name k)),
      (''key_hash'', SqlText (ak_key_hash k)), (''is_active'', SqlBool (ak_is_active k)),
      (''last_used_at'', maybe SqlTime (ak_last_used_at k))]"

definition refresh_token_row :: "RefreshToken \<Rightarrow> row" where
  "refresh_token_row t =
     [(''id'', SqlUuid (rt_id t)), (''created_at'', SqlTime (rt_created_at t)), (''token_hash'', SqlText (rt_token_hash t)),
      (''family_id'', SqlUuid (rt_family_id t)), (''is_valid'', SqlBool (rt_is_valid t)),
      (''expires_at'', SqlTime (rt_expires_at t)), (''api_key_id'', SqlUuid (rt_api_key_id t))]"

definition workflow_row :: "Workflow \<Rightarrow> row" where
  "workflow_row w =
     [(''id'', SqlUuid (wf_id w)), (''created_at'', SqlTime (wf_created_at w)), (''updated_at'', SqlTime (wf_updated_at w)),
      (''owner_api_key_id'', SqlUuid (wf_owner_api_key_id w)), (''name'', SqlText (wf_name w)),
      (''description'', maybe SqlText (wf_description w))]"

definition workflow_version_row :: "WorkflowVersion \<Rightarrow> row" where
  "workflow_version_row v =
     [(''id'', SqlUuid (wv_id v)), (''created_at'', SqlTime (wv_created_at v)), (''workflow_id'', SqlUuid (wv_workflow_id v)),
      (''version_number'', SqlInt (wv_version_number v)), (''definition'', SqlJson (definition_dump (wv_definition v))),
      (''checksum'', SqlText (wv_checksum v))]"

definition execution_row :: "Execution \<Rightarrow> row" where
  "execution_row e =
     [(''id'', SqlUuid (ex_id e)), (''workflow_id'', SqlUuid (ex_workflow_id e)),
      (''workflow_version_id'', SqlUuid (ex_workflow_version_id e)), (''status'', SqlText (execution_status_name (ex_status e))),
      (''started_at'', maybe SqlTime (ex_started_at e)), (''finished_at'', maybe SqlTime (ex_finished_at e)),
      (''triggered_by'', maybe SqlText (ex_triggered_by e)), (''input_payload'', maybe sql_dict (ex_input_payload e)),
      (''error_message'', maybe SqlText (ex_error_message e))]"

definition node_execution_row :: "NodeExecution \<Rightarrow> row" where
  "node_execution_row n =
     [(''id'', SqlUuid (ne_id n)), (''execution_id'', SqlUuid (ne_execution_id n)), (''node_id'', SqlText (ne_node_id n)),
      (''node_type'', SqlText (ne_node_type n)), (''status'', SqlText (node_status_name (ne_status n))),
      (''attempt'', SqlInt (ne_attempt n)), (''max_attempts'', SqlInt (ne_max_attempts n)),
      (''input_payload'', maybe sql_dict (ne_input_payload n)), (''output_payload'', maybe sql_dict (ne_output_payload n)),
      (''error_message'', maybe SqlText (ne_error_message n)), (''idempotency_key'', maybe SqlText (ne_idempotency_key n)),
      (''redis_message_id'', maybe SqlText (ne_redis_message_id n)), (''worker_id'', maybe SqlUuid (ne_worker_id n)),
      (''queued_at'', maybe SqlTime (ne_queued_at n)), (''started_at'', maybe SqlTime (ne_started_at n)),
      (''finished_at'', maybe SqlTime (ne_finished_at n))]"

definition dead_letter_row :: "DeadLetterJob \<Rightarrow> row" where
  "dead_letter_row j =
     [(''id'', SqlUuid (dj_id j)), (''created_at'', SqlTime (dj_created_at j)), (''execution_id'', SqlUuid (dj_execution_id j)),
      (''node_execution_id'', SqlUuid (dj_node_execution_id j)), (''redis_message_id'', maybe SqlText (dj_redis_message_id j)),
      (''reason'', SqlText (dj_reason j)), (''attempts'', SqlInt (dj_attempts j)), (''payload'', maybe sql_dict (dj_payload j)),
      (''resolved_at'', maybe SqlTime (dj_resolved_at j)), (''resolution_note'', maybe SqlText (dj_resolution_note j))]"

definition execution_log_row :: "ExecutionLog \<Rightarrow> row" where
  "execution_log_row l =
     [(''id'', SqlUuid (lg_id l)), (''created_at'', SqlTime (lg_created_at l)), (''execution_id'', SqlUuid (lg_execution_id l)),
      (''node_execution_id'', maybe SqlUuid (lg_node_execution_id l)), (''level'', SqlText (log_level_value (lg_level l))),
      (''event_type'', SqlText (lg_event_type l)), (''message'', SqlText (lg_message l)), (''metadata'', maybe sql_dict (lg_metadata l))]"

definition worker_row :: "Worker \<Rightarrow> row" where
  "worker_row k =
     [(''id'', SqlUuid (wk_id k)), (''created_at'', SqlTime (wk_created_at k)), (''updated_at'', SqlTime (wk_updated_at k)),
      (''worker_name'', SqlText (wk_worker_name k)), (''status'', SqlText (worker_status_value (wk_status k))),
      (''last_heartbeat_at'', maybe SqlTime (wk_last_heartbeat_at k)), (''current_job_id'', maybe SqlText (wk_current_job_id k)),
      (''metadata'', maybe sql_dict (wk_metadata k)), (''owner_api_key_id'', maybe SqlUuid (wk_owner_api_key_id k))]"

subsection \<open>What fitting amounts to\<close>

definition opt_ok :: "('a \<Rightarrow> bool) \<Rightarrow> 'a option \<Rightarrow> bool" where
  "opt_ok p x = (case x of None \<Rightarrow> True | Some v \<Rightarrow> p v)"

lemma column_fits_maybe:
  assumes "\<And>v. f v \<noteq> SqlNull"
  shows "column_fits (Column c ty True) (maybe f x) \<longleftrightarrow> opt_ok (\<lambda>v. fits ty (f v)) x"
  using assms by (cases x) (simp_all add: column_fits_def maybe_def opt_ok_def)

lemma opt_ok_True [simp]: "opt_ok (\<lambda>v. True) x"
  by (cases x) (simp_all add: opt_ok_def)

named_theorems row_simps

lemmas [row_simps] = row_fits_def column_fits_maybe id_column_def created_at_column_def updated_at_column_def sql_dict_def
  varchar_def [of 32] varchar_def [of 16]

lemma column_fits_value [row_simps]:
  "column_fits (Column c ty nl) (SqlText s) = fits ty (SqlText s)" "column_fits (Column c ty nl) (SqlInt i) = fits ty (SqlInt i)"
  "column_fits (Column c ty nl) (SqlBool b) = fits ty (SqlBool b)" "column_fits (Column c ty nl) (SqlTime t) = fits ty (SqlTime t)"
  "column_fits (Column c ty nl) (SqlUuid u) = fits ty (SqlUuid u)" "column_fits (Column c ty nl) (SqlJson j) = fits ty (SqlJson j)"
  by (simp_all add: column_fits_def)

lemma workflow_fits: "row_fits workflows_table (workflow_row w) \<longleftrightarrow> varchar 255 (wf_name w) \<and> opt_ok text_ok (wf_description w)"
  by (auto simp: workflow_row_def workflows_table_def row_simps)

lemma workflow_version_fits:
  "row_fits workflow_versions_table (workflow_version_row v) \<longleftrightarrow>
     integer32 (wv_version_number v) \<and> json_ok (definition_dump (wv_definition v)) \<and> varchar 64 (wv_checksum v)"
  by (auto simp: workflow_version_row_def workflow_versions_table_def row_simps)

lemma node_execution_fits:
  "row_fits node_executions_table (node_execution_row n) \<longleftrightarrow>
     varchar 255 (ne_node_id n) \<and> varchar 100 (ne_node_type n) \<and> integer32 (ne_attempt n) \<and> integer32 (ne_max_attempts n) \<and>
     opt_ok (\<lambda>d. json_ok (JObj d)) (ne_input_payload n) \<and> opt_ok (\<lambda>d. json_ok (JObj d)) (ne_output_payload n) \<and>
     opt_ok text_ok (ne_error_message n) \<and> opt_ok (varchar 255) (ne_idempotency_key n) \<and> opt_ok (varchar 64) (ne_redis_message_id n)"
  by (cases "ne_status n") (auto simp: node_execution_row_def node_executions_table_def row_simps text_ok_def [abs_def])

lemma execution_fits:
  "row_fits executions_table (execution_row e) \<longleftrightarrow>
     opt_ok (varchar 255) (ex_triggered_by e) \<and> opt_ok (\<lambda>d. json_ok (JObj d)) (ex_input_payload e) \<and> opt_ok text_ok (ex_error_message e)"
  by (cases "ex_status e") (auto simp: execution_row_def executions_table_def row_simps text_ok_def [abs_def])

lemma api_key_fits: "row_fits api_keys_table (api_key_row k) \<longleftrightarrow> varchar 255 (ak_name k) \<and> varchar 255 (ak_key_hash k)"
  by (auto simp: api_key_row_def api_keys_table_def row_simps)

lemma refresh_token_fits: "row_fits refresh_tokens_table (refresh_token_row t) \<longleftrightarrow> varchar 255 (rt_token_hash t)"
  by (auto simp: refresh_token_row_def refresh_tokens_table_def row_simps)

lemma dead_letter_fits:
  "row_fits dead_letter_jobs_table (dead_letter_row j) \<longleftrightarrow>
     opt_ok (varchar 64) (dj_redis_message_id j) \<and> text_ok (dj_reason j) \<and> integer32 (dj_attempts j) \<and>
     opt_ok (\<lambda>d. json_ok (JObj d)) (dj_payload j) \<and> opt_ok text_ok (dj_resolution_note j)"
  by (auto simp: dead_letter_row_def dead_letter_jobs_table_def row_simps)

lemma execution_log_fits:
  "row_fits execution_logs_table (execution_log_row l) \<longleftrightarrow>
     varchar 100 (lg_event_type l) \<and> text_ok (lg_message l) \<and> opt_ok (\<lambda>d. json_ok (JObj d)) (lg_metadata l)"
  by (cases "lg_level l") (auto simp: execution_log_row_def execution_logs_table_def row_simps text_ok_def [abs_def])

lemma worker_fits:
  "row_fits workers_table (worker_row k) \<longleftrightarrow>
     varchar 255 (wk_worker_name k) \<and> opt_ok (varchar 255) (wk_current_job_id k) \<and> opt_ok (\<lambda>d. json_ok (JObj d)) (wk_metadata k)"
  by (cases "wk_status k") (auto simp: worker_row_def workers_table_def row_simps text_ok_def [abs_def])

subsection \<open>The rows the services create\<close>

lemma sha256_fits: "64 \<le> n \<Longrightarrow> varchar n (sha256_hexdigest s)"
proof -
  have "set (sha256_hexdigest s) \<subseteq> set ''0123456789abcdef''"
    using hex_fixed_chars by (force simp: sha256_hexdigest_def hex_word_def)
  then have "text_ok (sha256_hexdigest s)" by (auto simp: text_ok_def)
  then show "64 \<le> n \<Longrightarrow> varchar n (sha256_hexdigest s)" by (simp add: varchar_def length_sha256_hexdigest)
qed

lemma created_workflow_fits: "row_fits workflows_table (workflow_row (new_workflow i owner name description t)) \<longleftrightarrow> varchar 255 name \<and> text_ok description"
  by (simp add: workflow_fits new_workflow_def opt_ok_def)

lemma created_version_fits:
  "row_fits workflow_versions_table (workflow_version_row (new_version fr i w k d t)) \<longleftrightarrow> integer32 k \<and> json_ok (definition_dump d)"
  by (simp add: workflow_version_fits new_version_def generate_checksum_def sha256_fits)

lemma created_refresh_token_fits: "row_fits refresh_tokens_table (refresh_token_row (new_refresh_token settings i raw f k t))"
  by (simp add: refresh_token_fits new_refresh_token_def sha256_fits)

text \<open>The types of the nodes are names of executors.\<close>

definition registry_fits :: "ExecutorRegistry \<Rightarrow> bool" where
  "registry_fits registry \<longleftrightarrow> list_all (\<lambda>r. varchar 100 (fst r)) registry"

lemma created_node_fits:
  assumes "valid_WorkflowDefinition d" and "configs_ok d registry" and "registry_fits registry" and "node \<in> set (nodes d)"
  shows "row_fits node_executions_table (node_execution_row (new_node i x d node)) \<longleftrightarrow> varchar 255 (n_id node)"
proof -
  have "varchar 100 (n_type node)"
    using assms(2-4) by (fastforce simp: configs_ok_def registry_fits_def list_all_iff dest: map_of_SomeD)
  moreover have "valid_RetryPolicy (resolve_retry_policy node d)"
    using assms(1, 4) by (auto simp: resolve_retry_policy_def valid_WorkflowDefinition_def list_all_iff valid_Node_def
        DEFAULT_RETRY_POLICY_def valid_RetryPolicy_def split: option.splits)
  then have "integer32 (max_attempts (resolve_retry_policy node d))" by (simp add: valid_RetryPolicy_def integer32_def)
  ultimately show ?thesis by (simp add: node_execution_fits new_node_def opt_ok_def integer32_def)
qed

end
