(* ===== verification/Interface_Properties.thy ===== *)
theory Interface_Properties
  imports Service_Properties Api_Invariant Row_Types
begin

section \<open>Properties of the HTTP interface and of what it stores\<close>

text \<open>
  The properties of the whole application: a request goes through the middleware to its route, the
  service and the database (\<open>eventflow\<close> in \<open>Routing\<close>); what a client may see and change, what every
  request leaves intact, and what becomes of the data it sends. CORS is the identity here: the
  statements are about what reaches it.
\<close>

text \<open>
  C35: without a valid token a request to any path but the five open ones (health checks, login,
  refresh, logout) changes nothing, neither database nor queue nor workers, and unless the path is
  unknown it is answered with 401, or 422 for a body that is not JSON, 429 from the rate limiter, or
  500 for a token whose key is not a string.
\<close>

theorem tokens_are_required:
  assumes "require_api_key_id (token_settings dp) (dp_jwt_decode dp) (rq_cookies rq) (rq_bearer rq) = Inl e"
    and "rq_path rq \<notin> set open_paths" and "eventflow (\<lambda>inner. inner) redis_incr dp unmatched t rq g = (a, g')"
  shows "gw_app g' = gw_app g \<and> (find_route rq (app_routes dp) = None \<or> rp_status a \<in> {401, 422, 429, 500})"
proof (cases "find_route rq (app_routes dp)")
  case None
  then have "routes dp unmatched rq (gw_app g) = (unmatched rq, gw_app g)" by (simp add: routes_def)
  from eventflow_pure(1) [OF this assms(3)] None show ?thesis by simp
next
  case (Some rp)
  obtain r ps where "rp = (r, ps)" by (cases rp)
  with Some have fr: "find_route rq (app_routes dp) = Some (r, ps)" by simp
  obtain r0 where r0: "routes dp unmatched rq (gw_app g) = (r0, gw_app g)" and st: "\<And>b. r0 = Inr b \<Longrightarrow> rp_status b \<in> {401, 422}"
    using routes_unauthenticated [OF assms(1) fr assms(2), of unmatched "gw_app g"] by blast
  show ?thesis using eventflow_pure [OF r0 assms(3)] st
    by (auto simp: handle_unhandled_exception_def json_response_def too_many_def)
qed

definition sample_lax :: lax where
  "sample_lax = \<lparr>lax_int = (\<lambda>j. case j of JInt i \<Rightarrow> Some i | _ \<Rightarrow> None),
     lax_float = (\<lambda>j. case j of JInt i \<Rightarrow> Some (of_int i) | JFloat (Finite r) \<Rightarrow> Some r | _ \<Rightarrow> None),
     lax_uuid = (\<lambda>j. if j = JStr ''ten'' then Some 10 else None)\<rparr>"

text \<open>Tokens of this decoder are \<open>seven\<close> and \<open>eight\<close>, for the keys 7 and 8.\<close>

definition sample_decoder :: jwt_decoder where
  "sample_decoder t k algs =
     (if t = ''seven'' then Inr [(''type'', JStr ''access''), (''api_key_id'', JStr (uuid_str 7))]
      else if t = ''eight'' then Inr [(''type'', JStr ''access''), (''api_key_id'', JStr (uuid_str 8))]
      else Inl OtherPyJWTError)"

definition sample_dependencies :: "(jdict list, (string \<times> Envelope) option list) dependencies" where
  "sample_dependencies = \<lparr>dp_settings = default_settings [] [] ''a'' ''r'', dp_jwt_encode = (\<lambda>d k a. ''seven''),
     dp_jwt_decode = sample_decoder, dp_random = (\<lambda>k. ''random''), dp_lax = sample_lax, dp_errors = (\<lambda>m. JNull),
     dp_float_repr = sample_repr, dp_registry = sample_registry,
     dp_client = get_execution_engine_client LOCAL
       (grpc_client (local_client sample_registry memory_publish pubsub_publish) Inr (\<lambda>d. d) (\<lambda>d. d))
       (local_client sample_registry memory_publish pubsub_publish),
     dp_depth = None, dp_select_1 = Inr (), dp_redis_ping = Inr True\<rparr>"

definition sample_gateway :: "(unit, (jdict list, (string \<times> Envelope) option list) server) gateway" where
  "sample_gateway = \<lparr>gw_redis = (), gw_memory = [],
     gw_app = \<lparr>sv_world = sample_world started_db 20, sv_tasks = [], sv_tokens = 0, sv_spawned = []\<rparr>\<rparr>"

definition delete_request :: "string option \<Rightarrow> http_request" where
  "delete_request token = \<lparr>rq_method = ''DELETE'', rq_path = ''/api/v1/executions/ten'', rq_forwarded_for = None, rq_client_host = Some ''h'',
     rq_api_key = None, rq_cookies = [], rq_bearer = token, rq_query = [], rq_body = NoBody\<rparr>"

abbreviation sample_run :: "http_request \<Rightarrow> response \<times> (unit, (jdict list, (string \<times> Envelope) option list) server) gateway" where
  "sample_run rq \<equiv> eventflow (\<lambda>inner. inner) (\<lambda>k n r. (Inr 1, r)) sample_dependencies (\<lambda>rq. Inr (json_response 404 JNull)) 0 rq sample_gateway"

lemma sample_route:
  "find_route (delete_request token) (app_routes dp) = Some (executions_router dp ! 3, [''ten'']) \<and> executions_router dp ! 3 \<in> set (executions_router dp)"
proof
  show r: "executions_router dp ! 3 \<in> set (executions_router dp)" by (rule nth_mem) (simp add: executions_router_def prefixed_def)
  show "find_route (delete_request token) (app_routes dp) = Some (executions_router dp ! 3, [''ten''])"
    by (rule routes_reachable) (use r in \<open>simp add: app_routes_def\<close>,
      simp add: executions_router_def prefixed_def route_def route_params_def delete_request_def compile_path_def starts_with_def)
qed

theorem tokens_are_required_witness:
  "gw_app (snd (sample_run (delete_request None))) = gw_app sample_gateway \<and> rp_status (fst (sample_run (delete_request None))) \<in> {401, 422, 429, 500}"
proof -
  have "require_api_key_id (token_settings sample_dependencies) (dp_jwt_decode sample_dependencies) (rq_cookies (delete_request None))
      (rq_bearer (delete_request None)) = Inl (unauthorized ''Missing or invalid token'' ''unauthorized'')"
    by (simp add: require_api_key_id_def require_api_key_def get_token_def or_else_def get_current_principal_from_token_def delete_request_def)
  moreover have "rq_path (delete_request None) \<notin> set open_paths" by (simp add: delete_request_def open_paths_def)
  ultimately show ?thesis
    using tokens_are_required [OF _ _ prod.collapse [symmetric]] sample_route [of None sample_dependencies] by fastforce
qed

text \<open>
  C26: whichever transport is configured, a caller who presents a valid token but does not own an
  execution sees and changes nothing of it: on every path below \<open>/api/v1/executions/{execution_id}\<close>
  (reading it, its nodes, its logs or its timeline, retrying a node, deleting it) the answer is an error
  or an empty list of nodes, and the state is as before. Over gRPC this holds whatever the marshalling
  of payloads does.
\<close>

theorem strangers_see_nothing:
  assumes "\<not> owns owner x (durable (sv_world (gw_app g)))"
    and "dp_client dp = get_execution_engine_client mode (grpc_client (local_client registry publish ws_publish) to_struct struct_items to_dict)
      (local_client registry publish ws_publish)"
    and "require_api_key_id (token_settings dp) (dp_jwt_decode dp) (rq_cookies rq) (rq_bearer rq) = Inr owner"
    and "find_route rq (app_routes dp) = Some (r, ps)" and "r \<in> set (executions_router dp)" and "ps \<noteq> []"
    and "lax_uuid (dp_lax dp) (JStr (ps ! 0)) = Some x"
    and "eventflow (\<lambda>inner. inner) redis_incr dp unmatched t rq g = (a, g')"
  shows "gw_app g' = gw_app g \<and> shows_nothing (Inr a)"
proof -
  have "isolating_client (dp_client dp)"
    using assms(2) by (simp add: get_execution_engine_client_def remote.isolating_client_axioms local.isolating_client_axioms)
  from routes_stranger [OF this assms(1, 3-7), of unmatched] obtain r0 where
    r0: "routes dp unmatched rq (gw_app g) = (r0, gw_app g)" and "shows_nothing r0" by blast
  then show ?thesis using eventflow_pure [OF r0 assms(8)]
    by (auto simp: shows_nothing_def handle_unhandled_exception_def json_response_def too_many_def)
qed

lemma sample_token_owner:
  "require_api_key_id (token_settings sample_dependencies) (dp_jwt_decode sample_dependencies) (rq_cookies (delete_request (Some ''eight'')))
     (rq_bearer (delete_request (Some ''eight''))) = Inr 8"
  "require_api_key_id (token_settings sample_dependencies) (dp_jwt_decode sample_dependencies) (rq_cookies (delete_request (Some ''seven'')))
     (rq_bearer (delete_request (Some ''seven''))) = Inr 7"
proof -
  have "uuid_str i \<noteq> []" for i using uuid_parse_str [of i] by (auto simp: uuid_parse_def strip_chars_def)
  then show "require_api_key_id (token_settings sample_dependencies) (dp_jwt_decode sample_dependencies) (rq_cookies (delete_request (Some ''eight'')))
     (rq_bearer (delete_request (Some ''eight''))) = Inr 8"
    "require_api_key_id (token_settings sample_dependencies) (dp_jwt_decode sample_dependencies) (rq_cookies (delete_request (Some ''seven'')))
     (rq_bearer (delete_request (Some ''seven''))) = Inr 7"
    by (simp_all add: require_api_key_id_def require_api_key_def get_token_def or_else_def get_current_principal_from_token_def delete_request_def
        sample_dependencies_def sample_decoder_def dict_get_def uuid_parse_str resolve_api_key_id_def)
qed

theorem strangers_see_nothing_witness:
  "gw_app (snd (sample_run (delete_request (Some ''eight'')))) = gw_app sample_gateway \<and>
   shows_nothing (Inr (fst (sample_run (delete_request (Some ''eight'')))))"
proof -
  obtain r where r: "find_route (delete_request (Some ''eight'')) (app_routes sample_dependencies) = Some (r, [''ten''])"
    and "r \<in> set (executions_router sample_dependencies)" using sample_route by blast
  moreover have "\<not> owns 8 10 (durable (sv_world (gw_app sample_gateway)))" by (simp add: owns_iff sample_gateway_def)
  moreover have "dp_client sample_dependencies = get_execution_engine_client LOCAL
      (grpc_client (local_client sample_registry memory_publish pubsub_publish) Inr (\<lambda>d. d) (\<lambda>d. d))
      (local_client sample_registry memory_publish pubsub_publish)" by (simp add: sample_dependencies_def)
  moreover have "lax_uuid (dp_lax sample_dependencies) (JStr ([''ten''] ! 0)) = Some 10" by (simp add: sample_dependencies_def sample_lax_def)
  ultimately show ?thesis
    using strangers_see_nothing [OF _ _ sample_token_owner(1) _ _ _ _ prod.collapse [symmetric]] by blast
qed

text \<open>
  C34: every request keeps the invariant \<open>db_ok\<close> of the database, whatever it asks for, whoever sends it,
  whether it succeeds or raises, whichever transport is configured, and also when the middleware runs
  its handler a second time. The uuids drawn have to be new.
\<close>

theorem requests_keep_invariant:
  assumes "db_ok (durable (sv_world (gw_app g)))"
    and "dp_client dp = get_execution_engine_client mode (grpc_client (local_client registry publish ws_publish) to_struct struct_items to_dict)
      (local_client registry publish ws_publish)"
    and "fresh_world (sv_world (gw_app g))" and "fresh_world (sv_world (snd (routes dp unmatched rq (gw_app g))))"
  shows "db_ok (durable (sv_world (gw_app (snd (eventflow (\<lambda>inner. inner) redis_incr dp unmatched t rq g)))))"
proof -
  have "keeping_client (dp_client dp)"
    using assms(2) by (simp add: get_execution_engine_client_def remote_keeps.keeping_client_axioms local_keeps.keeping_client_axioms)
  from eventflow_keeps [OF this assms(1, 3, 4)] show ?thesis .
qed

text \<open>A request of the owner, which deletes the execution.\<close>

lemma sample_delete_route:
  "\<exists>w'. delete_execution_route (dp_client sample_dependencies) 10 7 (sample_world started_db 20) = (Inr (), w') \<and>
     workflow_versions (durable w') = [sample_version] \<and> executions (durable w') = [] \<and> node_executions (durable w') = [] \<and>
     ids w' = (\<lambda>k. word_of_nat k) \<and> ids_used w' = 20"
proof -
  obtain r s where r: "delete_unit 10 7 (sample_session started_db 20) = Inr (r, s)" and u: "used s = 20"
    by (simp add: delete_unit_def owned_def delete_rows_def modify_db_def Let_def sample_session_def)
  then have "delete_execution_route (dp_client sample_dependencies) 10 7 (sample_world started_db 20) = (Inr (), commit_session s (sample_world started_db 20))"
    by (simp add: delete_execution_route_def sample_dependencies_def get_execution_engine_client_def local_client_def delete_execution_def in_session_def)
  with u delete_unit_effect [OF r] show ?thesis by (simp add: commit_session_def sample_world_def)
qed

lemma sample_fresh_world:
  assumes "workflow_versions (durable w) = [sample_version]" and "executions (durable w) \<in> {[], executions started_db}"
    and "node_executions (durable w) \<in> {[], node_executions started_db}" and "ids w = (\<lambda>k. word_of_nat k)" and "ids_used w = 20"
  shows "fresh_world w"
  using assms by (auto simp: fresh_world_def fresh_ids_def open_session_def diamond_nodes upt_conv_Cons sample_version_def)

theorem requests_keep_invariant_witness: "db_ok (durable (sv_world (gw_app (snd (sample_run (delete_request (Some ''seven'')))))))"
proof (rule requests_keep_invariant)
  show "db_ok (durable (sv_world (gw_app sample_gateway)))"
    using sys_ok_reachable [OF started_reachable] by (simp add: sample_gateway_def sys_ok_def)
  show "dp_client sample_dependencies = get_execution_engine_client LOCAL
      (grpc_client (local_client sample_registry memory_publish pubsub_publish) Inr (\<lambda>d. d) (\<lambda>d. d))
      (local_client sample_registry memory_publish pubsub_publish)" by (simp add: sample_dependencies_def)
  show "fresh_world (sv_world (gw_app sample_gateway))"
    by (rule sample_fresh_world) (simp_all add: sample_gateway_def sample_world_def)
  let ?rq = "delete_request (Some ''seven'')"
  obtain w' where w': "delete_execution_route (dp_client sample_dependencies) 10 7 (sample_world started_db 20) = (Inr (), w')"
    and fresh: "fresh_world w'" using sample_delete_route sample_fresh_world by fastforce
  have "sv_world (snd (routes sample_dependencies (\<lambda>rq. Inr (json_response 404 JNull)) ?rq (gw_app sample_gateway))) = w'"
    using w' sample_token_owner(2) sample_route [of "Some ''seven''" sample_dependencies]
    by (simp add: routes_def run_handler_def given_def executions_router_def prefixed_def route_def path_uuid_def accepted_def writing_def answered_def
        sample_gateway_def sample_dependencies_def sample_lax_def split: prod.splits)
  then show "fresh_world (sv_world (snd (routes sample_dependencies (\<lambda>rq. Inr (json_response 404 JNull)) ?rq (gw_app sample_gateway))))"
    using fresh by simp
qed

section \<open>What is stored\<close>


definition sample_definition :: WorkflowDefinition where
  "sample_definition = \<lparr>d_name = ''w'', d_description = [],
     nodes = [\<lparr>n_id = ''a'', n_type = ''log'', n_name = [], n_config = [(''message'', JStr ''m''), (''k'', JInt 1)], n_retry_policy = None\<rparr>],
     edges = [], default_retry_policy = Some \<lparr>max_attempts = 2, initial_interval = 1, max_interval = 60, backoff_multiplier = 2\<rparr>\<rparr>"


text \<open>
  C24: which rows PostgreSQL accepts of a workflow that was created. The row of the workflow fits its
  columns exactly if the name has at most 255 characters and neither name nor description holds a NUL;
  the row of the version exactly if its dump can be stored as JSONB (its checksum always fits); the row
  of each node, when it is started, exactly if the node's id has at most 255 characters and no NUL (its
  type and its attempts always fit). None of the three conditions is checked by a schema.
\<close>

theorem created_rows_fit:
  assumes "create_workflow float_repr registry name description d owner s = Inr ((w, v), s')"
    and "valid_WorkflowDefinition d" and "registry_fits registry"
  shows "(row_fits workflows_table (workflow_row w) \<longleftrightarrow> varchar 255 name \<and> text_ok description) \<and>
    (row_fits workflow_versions_table (workflow_version_row v) \<longleftrightarrow> json_ok (definition_dump d)) \<and>
    (\<forall>node \<in> set (nodes d). row_fits node_executions_table (node_execution_row (new_node i x d node)) \<longleftrightarrow> varchar 255 (n_id node))"
proof -
  obtain r where r: "validate_workflow d registry = Inr r"
    using assms(1) by (auto simp: create_workflow_def rbind_eq_Inr)
  have "configs_ok d registry" using validate_workflow_needs [OF r] by simp
  moreover have "w = new_workflow (uuids s (used s)) owner name description (now s)"
    and "v = new_version float_repr (uuids s (Suc (used s))) (wf_id w) 1 d (now s)"
    using assms(1) by (auto elim!: create_workflow_Inr)
  ultimately show ?thesis using assms(2, 3)
    by (simp add: created_workflow_fits created_version_fits created_node_fits integer32_def)
qed

text \<open>The executors of the application have names that fit.\<close>

lemma default_registry_fits: "registry_fits (default_registry json_loads net httpx)"
  by (simp add: default_registry_def registry_fits_def register_def varchar_def text_ok_def)

theorem created_rows_fit_witness:
  "\<exists>w v s'. create_workflow sample_repr sample_registry (replicate 300 (CHR ''x'')) [] diamond 7 (sample_session keyed_db 1) = Inr ((w, v), s') \<and>
     \<not> row_fits workflows_table (workflow_row w) \<and>
     row_fits node_executions_table (node_execution_row (new_node 1 2 diamond (hd (nodes diamond))))"
proof -
  obtain w v s' where c: "create_workflow sample_repr sample_registry (replicate 300 (CHR ''x'')) [] diamond 7 (sample_session keyed_db 1) = Inr ((w, v), s')"
    by (simp add: create_workflow_def validate_diamond keyed_db_def sample_key_def new_uuid_def Let_def)
  have "valid_WorkflowDefinition diamond" by (simp add: diamond_def sample_node_def valid_WorkflowDefinition_def valid_Node_def)
  moreover have "registry_fits sample_registry" by (simp add: registry_fits_def sample_registry_def register_def notification_executor_def varchar_def text_ok_def)
  ultimately show ?thesis using created_rows_fit [OF c, of 1 2] c by (simp add: varchar_def text_ok_def diamond_nodes)
qed

end
