(* ===== verification/Seeding.thy ===== *)
theory Seeding
  imports Auth Executor_Runtime Workflow_Service
begin

section \<open>Scripts: a first key and the demo workflows\<close>

text \<open>
  \<open>scripts/create_api_key.py\<close> and \<open>scripts/seed_demo_workflows.py\<close>. The seeding commits after the key
  and after every workflow, so an exception keeps what was seeded before it.
\<close>

definition create_api_key_main :: "string \<Rightarrow> string \<Rightarrow> ('q, 'c) world \<Rightarrow> (APIKey \<times> string) result \<times> ('q, 'c) world" where
  "create_api_key_main random name = in_session (create_api_key random name)"

definition http_demo_node :: "string \<Rightarrow> string \<Rightarrow> Node" where
  "http_demo_node i url = \<lparr>n_id = i, n_type = ''http'', n_name = [],
     n_config = [(''url'', JStr url), (''method'', JStr ''GET'')], n_retry_policy = None\<rparr>"

definition linear_demo :: WorkflowDefinition where
  "linear_demo = \<lparr>d_name = ''Linear HTTP Demo'', d_description = ''A simple sequence of HTTP requests.'',
     nodes =
       [http_demo_node ''req1'' ''https://jsonplaceholder.typicode.com/todos/1'',
        http_demo_node ''req2'' ''https://jsonplaceholder.typicode.com/todos/2''],
     edges = [\<lparr>from_node = ''req1'', to_node = ''req2'', e_condition = None\<rparr>],
     default_retry_policy = None\<rparr>"

definition condition_demo :: WorkflowDefinition where
  "condition_demo = \<lparr>d_name = ''Condition Demo'', d_description = ''Branches based on the result of a condition.'',
     nodes =
       [\<lparr>n_id = ''cond1'', n_type = ''condition'', n_name = [],
         n_config =
           [(''expression'', JStr ''input.value > 10''), (''true_path'', JStr ''true_path''), (''false_path'', JStr ''false_path'')],
         n_retry_policy = None\<rparr>,
        http_demo_node ''true_path'' ''https://httpbin.org/get?result=true'',
        http_demo_node ''false_path'' ''https://httpbin.org/get?result=false''],
     edges =
       [\<lparr>from_node = ''cond1'', to_node = ''true_path'', e_condition = Some ''true''\<rparr>,
        \<lparr>from_node = ''cond1'', to_node = ''false_path'', e_condition = Some ''false''\<rparr>],
     default_retry_policy = None\<rparr>"

definition retry_demo :: WorkflowDefinition where
  "retry_demo = \<lparr>d_name = ''Retry & DLQ Demo'', d_description = ''This node intentionally fails and exhausts its retries.'',
     nodes =
       [(http_demo_node ''failing_node'' ''https://httpbin.org/status/500'')
          \<lparr>n_retry_policy := Some \<lparr>max_attempts = 3, initial_interval = 1, max_interval = 3600, backoff_multiplier = 2\<rparr>\<rparr>],
     edges = [], default_retry_policy = None\<rparr>"

definition delay_demo :: WorkflowDefinition where
  "delay_demo = \<lparr>d_name = ''Delay Demo'', d_description = ''Pauses execution before continuing.'',
     nodes =
       [\<lparr>n_id = ''delay1'', n_type = ''delay'', n_name = [], n_config = [(''duration_seconds'', JInt 10)], n_retry_policy = None\<rparr>,
        http_demo_node ''after_delay'' ''https://httpbin.org/get?delayed=true''],
     edges = [\<lparr>from_node = ''delay1'', to_node = ''after_delay'', e_condition = None\<rparr>],
     default_retry_policy = None\<rparr>"

definition DEMO_WORKFLOWS :: "WorkflowDefinition list" where
  "DEMO_WORKFLOWS = [linear_demo, condition_demo, retry_demo, delay_demo]"

fun seed_workflows ::
  "(rat \<Rightarrow> string) \<Rightarrow> ExecutorRegistry \<Rightarrow> uuid \<Rightarrow> WorkflowDefinition list \<Rightarrow> ('q, 'c) world \<Rightarrow> unit result \<times> ('q, 'c) world" where
  "seed_workflows float_repr registry owner [] w = (Inr (), w)"
| "seed_workflows float_repr registry owner (d # ds) w =
     (case in_session (create_workflow float_repr registry (d_name d) (d_description d) d owner) w of
        (Inl e, w1) \<Rightarrow> (Inl e, w1)
      | (Inr _, w1) \<Rightarrow> seed_workflows float_repr registry owner ds w1)"

definition seed_main ::
  "(rat \<Rightarrow> string) \<Rightarrow> ExecutorRegistry \<Rightarrow> string \<Rightarrow> ('q, 'c) world \<Rightarrow> string result \<times> ('q, 'c) world" where
  "seed_main float_repr registry random w =
     (case create_api_key_main random ''demo-workflows-owner'' w of
        (Inl e, w1) \<Rightarrow> (Inl e, w1)
      | (Inr (api_key, raw_key), w1) \<Rightarrow>
          (case seed_workflows float_repr registry (ak_id api_key) DEMO_WORKFLOWS w1 of
             (Inl e, w2) \<Rightarrow> (Inl e, w2)
           | (Inr _, w2) \<Rightarrow> (Inr raw_key, w2)))"

lemma demo_schemas: "list_all valid_WorkflowDefinition DEMO_WORKFLOWS"
  by code_simp

lemma demo_accepted:
  "list_all (\<lambda>d. case validate_workflow d (default_registry json_loads net httpx) of Inl e \<Rightarrow> False | Inr r \<Rightarrow> valid r) DEMO_WORKFLOWS"
  by code_simp

subsection \<open>What is seeded\<close>

text \<open>The rows a definition becomes: a workflow of the owner with the definition as its first version.\<close>

definition seeded :: "uuid \<Rightarrow> WorkflowDefinition \<Rightarrow> Workflow \<times> WorkflowVersion \<Rightarrow> bool" where
  "seeded owner d wv \<longleftrightarrow> wf_owner_api_key_id (fst wv) = owner \<and> wf_name (fst wv) = d_name d \<and>
     wf_description (fst wv) = Some (d_description d) \<and> wv_workflow_id (snd wv) = wf_id (fst wv) \<and>
     wv_version_number (snd wv) = 1 \<and> wv_definition (snd wv) = d"

lemma create_accepted:
  assumes "validate_workflow d reg = Inr r" and "valid r" and "owner \<in> ak_id ` set (api_keys (sdb s))"
  shows "\<exists>wv s'. create_workflow float_repr reg (d_name d) (d_description d) d owner s = Inr (wv, s') \<and> seeded owner d wv \<and>
    sdb s' = (sdb s)\<lparr>workflows := workflows (sdb s) @ [fst wv], workflow_versions := workflow_versions (sdb s) @ [snd wv]\<rparr>"
  using assms by (simp add: create_workflow_def new_uuid_def Let_def modify_db_def seeded_def new_workflow_def)

lemma seed_workflows_effect:
  assumes "list_all (\<lambda>d. case validate_workflow d reg of Inl e \<Rightarrow> False | Inr r \<Rightarrow> valid r) ds"
    and "owner \<in> ak_id ` set (api_keys (durable w))"
  shows "\<exists>wvs w'. seed_workflows float_repr reg owner ds w = (Inr (), w') \<and> list_all2 (seeded owner) ds wvs \<and>
    durable w' = (durable w)\<lparr>workflows := workflows (durable w) @ map fst wvs,
      workflow_versions := workflow_versions (durable w) @ map snd wvs\<rparr>"
  using assms
proof (induction ds arbitrary: w)
  case Nil
  then show ?case by (intro exI [of _ "[]"]) simp
next
  case (Cons d ds)
  from Cons.prems(1) obtain r where "validate_workflow d reg = Inr r" "valid r" by (auto split: sum.splits)
  from create_accepted [OF this, of owner "open_session w" float_repr] Cons.prems(2)
  obtain wv s where c: "create_workflow float_repr reg (d_name d) (d_description d) d owner (open_session w) = Inr (wv, s)" "seeded owner d wv"
    and s: "sdb s = (durable w)\<lparr>workflows := workflows (durable w) @ [fst wv], workflow_versions := workflow_versions (durable w) @ [snd wv]\<rparr>"
    by (auto simp: open_session_def)
  let ?w1 = "commit_session s w"
  have "owner \<in> ak_id ` set (api_keys (durable ?w1))" using Cons.prems(2) s by (simp add: commit_session_def)
  from Cons.IH [OF _ this] Cons.prems(1) obtain wvs w' where "seed_workflows float_repr reg owner ds ?w1 = (Inr (), w')"
    "list_all2 (seeded owner) ds wvs" "durable w' = (durable ?w1)\<lparr>workflows := workflows (durable ?w1) @ map fst wvs,
      workflow_versions := workflow_versions (durable ?w1) @ map snd wvs\<rparr>" by auto
  then show ?case using c s by (intro exI [of _ "wv # wvs"]) (simp add: in_session_def commit_session_def)
qed

lemma create_api_key_effect:
  assumes "hash_api_key (generate_api_key random) \<notin> ak_key_hash ` set (api_keys (sdb s))"
  shows "\<exists>k s'. create_api_key random name s = Inr ((k, generate_api_key random), s') \<and>
    sdb s' = (sdb s)\<lparr>api_keys := api_keys (sdb s) @ [k]\<rparr>"
  using assms by (simp add: create_api_key_def add_api_key_def new_uuid_def Let_def modify_db_def)

text \<open>
  With the executors of the application, seeding succeeds on every database that does not already
  know the new key: it prints a key that finds its owner, and adds exactly the demo workflows, each of
  that owner, with its definition as version 1. In particular every demo definition passes the
  validation of graphs and configurations.
\<close>

lemma seeding_succeeds:
  assumes "hash_api_key (generate_api_key random) \<notin> ak_key_hash ` set (api_keys (durable w))"
  shows "\<exists>raw w' owner wvs. seed_main float_repr (default_registry json_loads net httpx) random w = (Inr raw, w') \<and>
    get_by_raw_key raw (durable w') = Some owner \<and> list_all2 (seeded (ak_id owner)) DEMO_WORKFLOWS wvs \<and>
    workflows (durable w') = workflows (durable w) @ map fst wvs \<and>
    workflow_versions (durable w') = workflow_versions (durable w) @ map snd wvs"
proof -
  from create_api_key_effect [of random "open_session w" "''demo-workflows-owner''"] assms
  obtain k s where k: "create_api_key random ''demo-workflows-owner'' (open_session w) = Inr ((k, generate_api_key random), s)"
    and s: "sdb s = (durable w)\<lparr>api_keys := api_keys (durable w) @ [k]\<rparr>" by (auto simp: open_session_def)
  have "ak_id k \<in> ak_id ` set (api_keys (durable (commit_session s w)))" using s by (simp add: commit_session_def)
  from seed_workflows_effect [where float_repr = float_repr, OF demo_accepted [of json_loads net httpx] this] obtain wvs w' where
    w': "seed_workflows float_repr (default_registry json_loads net httpx) (ak_id k) DEMO_WORKFLOWS (commit_session s w) = (Inr (), w')"
    "list_all2 (seeded (ak_id k)) DEMO_WORKFLOWS wvs"
    "durable w' = (sdb s)\<lparr>workflows := workflows (sdb s) @ map fst wvs, workflow_versions := workflow_versions (sdb s) @ map snd wvs\<rparr>"
    by (auto simp: commit_session_def)
  have "get_by_raw_key (generate_api_key random) (durable w') = Some k"
    using create_then_lookup [OF k] by (simp add: w'(3) get_by_raw_key_def)
  with k s w' show ?thesis by (auto simp: seed_main_def create_api_key_main_def in_session_def)
qed

end
