(* ===== verification/Draining.thy ===== *)
theory Draining
  imports Publishing
begin

section \<open>The queue drains\<close>

text \<open>
  What the pieces add up to. \<open>work_left\<close> measures what the nodes of a database still have to do: every
  job that changes anything makes it smaller, retries included, so a worker that takes the messages of
  the queue one after the other, those it publishes itself included, comes to the end of the queue
  (\<open>drain\<close>). If its jobs return, nothing is QUEUED or RUNNING then and every execution has ended.
\<close>

subsection \<open>What is left to do\<close>

definition node_work :: "NodeExecution \<Rightarrow> nat" where
  "node_work n =
     (if ne_status n \<in> {PENDING, QUEUED} then 2 * nat (ne_max_attempts n - ne_attempt n) + 2
      else if ne_status n = RUNNING then 2 * nat (ne_max_attempts n - ne_attempt n) + 1
      else 0)"

definition work_left :: "database \<Rightarrow> nat" where
  "work_left db = sum_list (map node_work (node_executions db))"

lemma sum_list_decreases:
  fixes f :: "'a \<Rightarrow> nat"
  assumes "list_all2 R rs rs'" and "\<And>r r'. r \<in> set rs \<Longrightarrow> R r r' \<Longrightarrow> f r' \<le> f r"
  shows "sum_list (map f rs') \<le> sum_list (map f rs)"
    and "n \<in> set rs \<Longrightarrow> (\<And>r'. R n r' \<Longrightarrow> f r' < f n) \<Longrightarrow> sum_list (map f rs') < sum_list (map f rs)"
proof -
  have "sum_list (map f rs') \<le> sum_list (map f rs) \<and>
    (n \<in> set rs \<longrightarrow> (\<forall>r'. R n r' \<longrightarrow> f r' < f n) \<longrightarrow> sum_list (map f rs') < sum_list (map f rs))"
    using assms
  proof (induction rule: list_all2_induct)
    case (Cons r rs r' rs')
    have "f r' \<le> f r" using Cons.prems Cons.hyps(1) by simp
    moreover have "sum_list (map f rs') \<le> sum_list (map f rs) \<and>
      (n \<in> set rs \<longrightarrow> (\<forall>r'. R n r' \<longrightarrow> f r' < f n) \<longrightarrow> sum_list (map f rs') < sum_list (map f rs))"
      using Cons.IH Cons.prems by simp
    ultimately show ?case using Cons.hyps(1) by fastforce
  qed simp
  then show "sum_list (map f rs') \<le> sum_list (map f rs)"
    and "n \<in> set rs \<Longrightarrow> (\<And>r'. R n r' \<Longrightarrow> f r' < f n) \<Longrightarrow> sum_list (map f rs') < sum_list (map f rs)" by simp_all
qed

lemma work_left_modify:
  assumes ids: "distinct (map ne_id (node_executions db))" and n: "n \<in> set (node_executions db)"
    and rows: "node_executions db' = row_modify ne_id (ne_id n) f (node_executions db)" and less: "node_work (f n) < node_work n"
  shows "work_left db' < work_left db"
proof -
  have own: "r = n" if "r \<in> set (node_executions db)" "ne_id r = ne_id n" for r
    by (rule inj_onD [of ne_id "set (node_executions db)"]) (use ids n that in \<open>simp_all add: distinct_map\<close>)
  have "list_all2 (\<lambda>r r'. r' = (if ne_id r = ne_id n then f r else r)) (node_executions db) (node_executions db')"
    by (simp add: rows row_modify_def list_all2_map2 list_all2_refl)
  then show ?thesis unfolding work_left_def
  proof (rule sum_list_decreases(2) [OF _ _ n])
    show "node_work r' \<le> node_work r" if "r \<in> set (node_executions db)" "r' = (if ne_id r = ne_id n then f r else r)" for r r'
      using own [OF that(1)] that(2) less by (cases "ne_id r = ne_id n") auto
  qed (use less in simp)
qed

text \<open>A claim, a completed attempt and the publication after it.\<close>

lemma claim_work:
  assumes ok: "nodes_ok (sdb s)" and "claim_unit job s = Inr (Some node, s')"
  shows "work_left (sdb s') < work_left (sdb s)"
proof -
  from assms(2) obtain n :: NodeExecution where q: "ne_status n = QUEUED" and mv: "node_moved n (set_node_status RUNNING (now s)) (sdb s) (sdb s')"
    by (auto elim: claim_moved)
  show ?thesis
    by (rule work_left_modify [where n = n and f = "set_node_status RUNNING (now s)"]) (use ok mv q in \<open>simp_all add: nodes_ok_def node_moved_def node_work_def\<close>)
qed

text \<open>
  What a completed attempt does to the rows: its own row is SUCCEEDED, DEAD_LETTERED or QUEUED for the
  next attempt if there is one; of the others, some that were PENDING are QUEUED or SKIPPED.
\<close>

definition attempt_ended :: "NodeExecution \<Rightarrow> NodeExecution \<Rightarrow> bool" where
  "attempt_ended r r' \<longleftrightarrow> ne_max_attempts r' = ne_max_attempts r \<and>
     (ne_status r' \<in> {SUCCEEDED, DEAD_LETTERED} \<or>
      ne_status r' = QUEUED \<and> ne_attempt r < ne_max_attempts r \<and> ne_attempt r' = ne_attempt r + 1)"

definition completed_row :: "uuid \<Rightarrow> uuid \<Rightarrow> time \<Rightarrow> NodeExecution \<Rightarrow> NodeExecution \<Rightarrow> bool" where
  "completed_row x i t r r' \<longleftrightarrow> ne_id r' = ne_id r \<and> (if ne_id r = i then attempt_ended r r' else advance x t r r')"

lemma completed_row_modify:
  assumes "nodes_ok db" and "n \<in> set (node_executions db)" and "attempt_ended n (f n)" and "ne_id (f n) = ne_id n"
  shows "list_all2 (completed_row x (ne_id n) t) (node_executions db) (row_modify ne_id (ne_id n) f (node_executions db))"
proof -
  have inj: "inj_on ne_id (set (node_executions db))" using assms(1) by (simp add: nodes_ok_def distinct_map)
  have "completed_row x (ne_id n) t r (if ne_id r = ne_id n then f r else r)" if r: "r \<in> set (node_executions db)" for r
    using assms(2-4) inj_onD [OF inj _ r assms(2)] by (auto simp: completed_row_def advance_def)
  then show ?thesis by (simp add: row_modify_def list_all2_map2 list_all2_same)
qed

lemma complete_rows:
  assumes j: "job_ok jc n s" and c: "complete_unit jc (ne_id n) res s = Inr (Some ns, s')"
  shows "list_all2 (completed_row (ex_id (jc_execution jc)) (ne_id n) (now s)) (node_executions (sdb s)) (node_executions (sdb s'))"
proof -
  have n: "n \<in> set (node_executions (sdb s))" and ok: "nodes_ok (sdb s)" using j by (auto simp: job_ok_def in_execution_rows)
  consider (success) "r_success res" | (retry) "\<not> r_success res" "ne_attempt n < ne_max_attempts n"
    | (dead) "\<not> r_success res" "\<not> ne_attempt n < ne_max_attempts n" by blast
  then show ?thesis
  proof cases
    case success
    then obtain skip_ids where sk: "child_ids (jc_definition jc) (ne_node_id n) = [] \<or> condition_skip_ids (jc_node_def jc) res = Inr skip_ids"
      using complete_bad_branch [OF j success] c by (cases "condition_skip_ids (jc_node_def jc) res") auto
    have "list_all2 (success_row (ex_id (jc_execution jc)) (ne_id n) (r_output res) (now s)) (node_executions (sdb s)) (node_executions (sdb s'))"
      using complete_success [OF j success sk refl refl] c by auto
    then show ?thesis
      by (rule list_all2_mono) (auto simp: success_row_def completed_row_def attempt_ended_def advance_def end_attempt_def split: if_splits)
  next
    case retry
    have "node_executions (sdb s') = row_modify ne_id (ne_id n) (retry_row (r_error res) (now s)) (node_executions (sdb s))"
      using complete_retry [OF j retry] c by auto
    then show ?thesis using completed_row_modify [OF ok n] retry by (simp add: attempt_ended_def)
  next
    case dead
    have "node_executions (sdb s') = row_modify ne_id (ne_id n) (dead_row (r_error res) (now s)) (node_executions (sdb s))"
      using complete_dead [OF j dead refl] c by auto
    then show ?thesis using completed_row_modify [OF ok n] by (simp add: attempt_ended_def)
  qed
qed

lemma complete_work:
  assumes j: "job_ok jc n s" and c: "complete_unit jc (ne_id n) res s = Inr (Some ns, s')"
  shows "work_left (sdb s') < work_left (sdb s)"
  unfolding work_left_def
proof (rule sum_list_decreases(2) [OF complete_rows [OF j c]])
  let ?R = "completed_row (ex_id (jc_execution jc)) (ne_id n) (now s)"
  show n: "n \<in> set (node_executions (sdb s))" using j by (simp add: job_ok_def in_execution_rows)
  have run: "ne_status n = RUNNING" and inj: "inj_on ne_id (set (node_executions (sdb s)))"
    using j by (simp_all add: job_ok_def nodes_ok_def distinct_map)
  show less: "node_work r' < node_work n" if "?R n r'" for r'
    using that run by (auto simp: completed_row_def attempt_ended_def node_work_def)
  show "node_work r' \<le> node_work r" if r: "r \<in> set (node_executions (sdb s))" "?R r r'" for r r'
  proof (cases "ne_id r = ne_id n")
    case True
    then have "r = n" using inj r(1) n by (simp add: inj_on_def)
    then show ?thesis using less r(2) by (simp add: less_imp_le)
  next
    case False
    then show ?thesis using r(2) by (auto simp: completed_row_def advance_def node_work_def)
  qed
qed

lemma publish_phase_work:
  "publish_phase publish ws_publish x v ns s w = (r, w') \<Longrightarrow> work_left (durable w') = work_left (durable w)"
  unfolding work_left_def by (rule arg_cong [of _ _ sum_list], rule unsent_rows [OF publish_phase_rows]) (simp_all add: node_work_def)

lemma process_job_work:
  assumes ok: "db_ok (durable w)" and "process_job registry publish ws_publish fs w = (r, w')"
  shows "w' = w \<or> work_left (durable w') < work_left (durable w)"
  using assms(2)
proof (cases rule: process_job_cases)
  case (claimed job node s s2)
  then show ?thesis using claim_work [OF _ claimed(1)] ok by (simp add: db_ok_def tables_ok_def)
next
  case (completed job node s jc s2 ns s3 w2)
  have "work_left (sdb s) < work_left (durable w)" using claim_work [OF _ completed(1)] ok by (simp add: db_ok_def tables_ok_def)
  moreover have "work_left (sdb s3) < work_left (sdb s)"
    using complete_work [OF claimed_job_ok [OF ok completed(1-3)] completed(4)] completed(3) by simp
  ultimately show ?thesis using publish_phase_work [OF completed(7)] completed(5) by simp
qed simp

subsection \<open>Any number of workers\<close>

text \<open>
  The same measure bounds what workers do side by side: a run of their transactions, in any
  interleaving, from which the API and the recovery keep away. \<open>worker_run\<close> counts the transactions that
  change the status or the attempt of a node.
\<close>

inductive worker_step :: "ExecutorRegistry \<Rightarrow> sys \<Rightarrow> sys \<Rightarrow> bool" for registry :: ExecutorRegistry where
  claim: "claim_unit job s = Inr (r, s') \<Longrightarrow> worker_step registry (sdb s, A) (sdb s', A)"
| load: "load_context registry node s = Inr jc \<Longrightarrow>
     worker_step registry (sdb s, A) (sdb s, insert \<lparr>a_node = ne_id node, a_context = jc\<rparr> A)"
| complete: "a \<in> A \<Longrightarrow> pinned s = [jc_execution (a_context a)] \<Longrightarrow>
     complete_unit (a_context a) (a_node a) res s = Inr (r, s') \<Longrightarrow> worker_step registry (sdb s, A) (sdb s', A - {a})"
| lost: "worker_step registry (db, A) (db, A - {a})"
| stored: "worker_step registry (sdb s, A) (sdb (store_message_id i m s), A)"

abbreviation progress :: "database \<Rightarrow> (uuid \<times> NodeExecutionStatus \<times> int) list" where
  "progress db \<equiv> map (\<lambda>n. (ne_id n, ne_status n, ne_attempt n)) (node_executions db)"

inductive worker_run :: "ExecutorRegistry \<Rightarrow> nat \<Rightarrow> sys \<Rightarrow> sys \<Rightarrow> bool" for registry :: ExecutorRegistry where
  none: "worker_run registry 0 st st"
| quiet: "worker_run registry k st st1 \<Longrightarrow> worker_step registry st1 st2 \<Longrightarrow> progress (fst st1) = progress (fst st2) \<Longrightarrow>
     worker_run registry k st st2"
| busy: "worker_run registry k st st1 \<Longrightarrow> worker_step registry st1 st2 \<Longrightarrow> progress (fst st1) \<noteq> progress (fst st2) \<Longrightarrow>
     worker_run registry (Suc k) st st2"

lemma worker_step_sys_step: "worker_step registry st st' \<Longrightarrow> sys_step float_repr registry st st'"
  by (induction rule: worker_step.induct) (auto intro: sys_step.intros)

lemma worker_step_work:
  assumes "worker_step registry st st'" and "sys_ok st"
  shows "progress (fst st') = progress (fst st) \<and> work_left (fst st') = work_left (fst st) \<or> work_left (fst st') < work_left (fst st)"
  using assms
proof (cases rule: worker_step.cases)
  case (claim job s r s' A)
  show ?thesis
  proof (cases r)
    case None
    then have "sdb s' = sdb s" using claim(3) by (auto simp: claim_unit_def rbind_eq_Inr split: option.splits if_splits)
    then show ?thesis using claim by simp
  next
    case (Some node)
    then show ?thesis using claim_work [OF _ claim(3) [unfolded Some]] claim assms(2) by (simp add: sys_ok_def db_ok_def tables_ok_def)
  qed
next
  case (complete a A s res r s')
  have ok: "db_ok (sdb s)" "act_ok (sdb s) a" using assms(2) complete by (auto simp: sys_ok_def)
  from complete(5) show ?thesis
  proof (cases rule: complete_unit_Inr_cases)
    case 1
    then show ?thesis using complete by simp
  next
    case (2 n)
    have j: "job_ok (a_context a) n s" by (rule act_job_ok [OF ok complete(4) 2(1,3)])
    obtain ns where "r = Some ns" using complete(5) unfolding 2(2) [symmetric] complete_unit_running [OF j refl] by (auto simp: rbind_eq_Inr)
    then show ?thesis using complete_work [OF j, of res ns s'] complete 2(2) by simp
  qed
next
  case (stored s A i m)
  have "progress (sdb (store_message_id i m s)) = progress (sdb s)"
    by (rule unsent_rows [OF store_message_rows]) simp
  moreover have "map node_work (node_executions (sdb (store_message_id i m s))) = map node_work (node_executions (sdb s))"
    by (rule unsent_rows [OF store_message_rows]) (simp add: node_work_def)
  ultimately show ?thesis using stored by (simp add: work_left_def)
qed simp_all

lemma worker_run_work:
  assumes "worker_run registry k st st'" and "sys_ok st"
  shows "sys_ok st' \<and> k + work_left (fst st') \<le> work_left (fst st)"
  using assms
proof (induction rule: worker_run.induct)
  case (quiet k st st1 st2)
  then show ?case using worker_step_work [OF quiet(2)] sys_ok_step [OF worker_step_sys_step [OF quiet(2)]] by fastforce
next
  case (busy k st st1 st2)
  then show ?case using worker_step_work [OF busy(2)] sys_ok_step [OF worker_step_sys_step [OF busy(2)]] by fastforce
qed simp

lemma work_left_bound:
  assumes "db_ok db"
  shows "work_left db \<le> (\<Sum>n \<leftarrow> node_executions db. 2 * nat (ne_max_attempts n) + 2)"
  unfolding work_left_def
proof (rule sum_list_mono)
  fix n assume "n \<in> set (node_executions db)"
  then have "0 \<le> ne_attempt n" using assms by (force simp: db_ok_def rows_ok_def row_ok_def split: if_splits)
  then show "node_work n \<le> 2 * nat (ne_max_attempts n) + 2" by (auto simp: node_work_def)
qed

subsection \<open>A job that returns leaves nothing running\<close>

lemma process_job_running:
  assumes ok: "db_ok (durable w)" and "process_job registry publish ws_publish fs w = (Inr u, w')"
    and none: "RUNNING \<notin> ne_status ` set (node_executions (durable w))"
  shows "RUNNING \<notin> ne_status ` set (node_executions (durable w'))"
  using assms(2)
proof (cases rule: process_job_cases)
  case (claimed job node s s2)
  then have False using claim_completes [OF ok] by fastforce
  then show ?thesis ..
next
  case (completed job node s jc s2 ns s3 w2)
  from completed(1) obtain n :: NodeExecution where node: "node = set_node_status RUNNING (now (open_session w)) n"
    and mv: "node_moved n (set_node_status RUNNING (now (open_session w))) (durable w) (sdb s)" by (auto elim: claim_moved)
  have one: "ne_id r = ne_id node" if "r \<in> set (node_executions (sdb s))" "ne_status r = RUNNING" for r
  proof -
    obtain q where q: "q \<in> set (node_executions (durable w))" and "r = (if ne_id q = ne_id n then set_node_status RUNNING (now (open_session w)) q else q)"
      using mv \<open>r \<in> _\<close> by (auto simp: node_moved_def in_set_row_modify)
    moreover have "ne_status q \<noteq> RUNNING" using none q by force
    ultimately show ?thesis using that(2) by (auto simp: node split: if_splits)
  qed
  have rows: "list_all2 (completed_row (ex_id (jc_execution jc)) (ne_id node) (now s2)) (node_executions (sdb s)) (node_executions (sdb s3))"
    using complete_rows [OF claimed_job_ok [OF ok completed(1-3)] completed(4)] completed(3) by simp
  have "ne_status r' \<noteq> RUNNING" if "r' \<in> set (node_executions (sdb s3))" for r'
  proof -
    obtain r where "r \<in> set (node_executions (sdb s))" "completed_row (ex_id (jc_execution jc)) (ne_id node) (now s2) r r'"
      using list_all2_in2 [OF rows \<open>r' \<in> _\<close>] by blast
    then show ?thesis using one by (auto simp: completed_row_def attempt_ended_def advance_def split: if_splits)
  qed
  moreover have "map ne_status (node_executions (durable w')) = map ne_status (node_executions (sdb s3))"
    by (rule unsent_rows [OF publish_phase_rows [OF completed(7), unfolded completed(5)]]) simp
  then have "ne_status ` set (node_executions (durable w')) = ne_status ` set (node_executions (sdb s3))" by (metis set_map)
  ultimately show ?thesis by (metis imageE)
qed (use none in simp)

subsection \<open>The end of the queue\<close>

text \<open>
  \<open>drain k w\<close>: a worker that has processed the first \<open>k\<close> messages takes the next one, and so on, until
  there is none; the results of the jobs, in order, and the world at the end. \<open>covered k w\<close>: every QUEUED
  node has a message among those still to come, and no node is RUNNING.
\<close>

partial_function (option) drain ::
  "ExecutorRegistry \<Rightarrow> (Job \<Rightarrow> 'q \<Rightarrow> string option result \<times> 'q) \<Rightarrow> (string \<Rightarrow> Envelope \<Rightarrow> 'c \<Rightarrow> unit result \<times> 'c) \<Rightarrow>
   ('q \<Rightarrow> Job list) \<Rightarrow> nat \<Rightarrow> ('q, 'c) world \<Rightarrow> (unit result list \<times> ('q, 'c) world) option" where
  "drain registry publish ws_publish jobs k w =
     (if k < length (jobs (queue w)) then
        (let rw = process_job registry publish ws_publish (serialize_job_payload (jobs (queue w) ! k)) w in
         Option.bind (drain registry publish ws_publish jobs (Suc k) (snd rw)) (\<lambda>rest. Some (fst rw # fst rest, snd rest)))
      else Some ([], w))"

definition covered :: "('q \<Rightarrow> Job list) \<Rightarrow> nat \<Rightarrow> ('q, 'c) world \<Rightarrow> bool" where
  "covered jobs k w \<longleftrightarrow>
     (\<forall>n \<in> set (node_executions (durable w)). ne_status n \<noteq> RUNNING \<and>
        (ne_status n = QUEUED \<longrightarrow> (\<exists>j \<in> set (drop k (jobs (queue w))). j_node_execution_id j = ne_id n)))"

lemma node_job_id [simp]: "j_node_execution_id (node_job x v n) = ne_id n"
  by (simp add: node_job_def)

context queue_publisher
begin

lemma covered_step:
  assumes ok: "db_ok (durable w)" and c: "covered jobs k w" and k: "k < length (jobs (queue w))"
    and p: "process_job registry publish ws_publish (serialize_job_payload (jobs (queue w) ! k)) w = (Inr u, w')"
  shows "covered jobs (Suc k) w'"
proof -
  let ?job = "jobs (queue w) ! k"
  from process_job_publishes [OF ok p] obtain x v ns where j': "jobs (queue w') = jobs (queue w) @ map (node_job x v) ns"
    and q: "\<And>n'. n' \<in> set (node_executions (durable w')) \<Longrightarrow> ne_status n' = QUEUED \<Longrightarrow> ne_id n' \<in> ne_id ` set ns \<or>
       ne_id n' \<noteq> j_node_execution_id ?job \<and> (\<exists>n \<in> set (node_executions (durable w)). ne_id n = ne_id n' \<and> ne_status n = QUEUED)"
    by (auto simp: deserialize_serialize)
  have rest: "set (drop (Suc k) (jobs (queue w'))) = set (drop (Suc k) (jobs (queue w))) \<union> node_job x v ` set ns"
    using k by (simp add: j')
  have "RUNNING \<notin> ne_status ` set (node_executions (durable w'))"
    by (rule process_job_running [OF ok p]) (use c in \<open>auto simp: covered_def\<close>)
  moreover have "\<exists>j \<in> set (drop (Suc k) (jobs (queue w'))). j_node_execution_id j = ne_id n'"
    if n': "n' \<in> set (node_executions (durable w'))" "ne_status n' = QUEUED" for n'
    using q [OF n']
  proof
    assume "ne_id n' \<in> ne_id ` set ns"
    then obtain m where "m \<in> set ns" "ne_id m = ne_id n'" by force
    then show ?thesis unfolding rest by (intro bexI [of _ "node_job x v m"] UnI2 imageI) simp_all
  next
    assume "ne_id n' \<noteq> j_node_execution_id ?job \<and> (\<exists>n \<in> set (node_executions (durable w)). ne_id n = ne_id n' \<and> ne_status n = QUEUED)"
    then show ?thesis using c unfolding rest covered_def Cons_nth_drop_Suc [OF k, symmetric] by fastforce
  qed
  ultimately show ?thesis unfolding covered_def by (metis imageI)
qed

lemma drain_ends:
  "db_ok (durable w) \<Longrightarrow> \<exists>rs w'. drain registry publish ws_publish jobs k w = Some (rs, w') \<and> db_ok (durable w') \<and>
     length (jobs (queue w')) \<le> k + length rs \<and> (covered jobs k w \<and> (\<forall>r \<in> set rs. \<not> isl r) \<longrightarrow> covered jobs (k + length rs) w')"
proof (induction "(k, w)" arbitrary: k w rule: wf_induct_rule
    [OF wf_measures [of "[\<lambda>(k, w). work_left (durable w), \<lambda>(k, w). length (jobs (queue w)) - k]"]])
  case (1 k w)
  show ?case
  proof (cases "k < length (jobs (queue w))")
    case True
    obtain r w1 where p: "process_job registry publish ws_publish (serialize_job_payload (jobs (queue w) ! k)) w = (r, w1)"
      by (cases "process_job registry publish ws_publish (serialize_job_payload (jobs (queue w) ! k)) w")
    have ok: "db_ok (durable w1)" by (rule process_job_ok [OF "1.prems" p])
    have "w1 = w \<or> work_left (durable w1) < work_left (durable w)" by (rule process_job_work [OF "1.prems" p])
    then have "((Suc k, w1), (k, w)) \<in> measures [\<lambda>(k, w). work_left (durable w), \<lambda>(k, w). length (jobs (queue w)) - k]"
      using True by auto
    from "1.hyps" [OF this ok] obtain rs w' where d: "drain registry publish ws_publish jobs (Suc k) w1 = Some (rs, w')"
      and e: "db_ok (durable w')" "length (jobs (queue w')) \<le> Suc k + length rs"
      and c: "covered jobs (Suc k) w1 \<Longrightarrow> (\<forall>r \<in> set rs. \<not> isl r) \<Longrightarrow> covered jobs (Suc k + length rs) w'" by blast
    have "drain registry publish ws_publish jobs k w = Some (r # rs, w')"
      using True p d by (subst drain.simps) simp
    moreover have "covered jobs (k + length (r # rs)) w'" if cov: "covered jobs k w" and ret: "\<forall>r \<in> set (r # rs). \<not> isl r"
    proof -
      obtain u where u: "r = Inr u" using ret by (cases r) auto
      show ?thesis using c [OF covered_step [OF "1.prems" cov True p [unfolded u]]] ret by simp
    qed
    ultimately show ?thesis using e by auto
  next
    case False
    then show ?thesis using "1.prems" by (intro exI [of _ "[]"] exI [of _ w]) (subst drain.simps, simp)
  qed
qed

text \<open>A start that returns has published a message for each of the nodes it queued.\<close>

lemma start_covered:
  assumes ok: "db_ok (durable w)" and c: "covered jobs k w" and k: "k \<le> length (jobs (queue w))"
    and st: "start_execution registry publish ws_publish command owner w = (Inr d, w')"
    and fresh: "\<And>v. v \<in> set (workflow_versions (durable w)) \<Longrightarrow> wv_id v = cmd_workflow_version_id command \<Longrightarrow>
      fresh_ids (Suc (length (nodes (wv_definition v)))) (open_session w)"
  shows "covered jobs k w'"
proof -
  obtain e queued s u where su: "start_unit registry command owner (open_session w) = Inr ((e, queued), s)"
    and p: "publish_phase publish ws_publish (ex_id e) (ex_workflow_version_id e) queued s (commit_session s w) = (Inr u, w')"
    using st by (auto simp: start_execution_def split: sum.splits prod.splits)
  have jobs': "jobs (queue w') = jobs (queue w) @ map (node_job (ex_id e) (ex_workflow_version_id e)) queued"
    using publish_phase_jobs [OF p] by auto
  have "map unsent (node_executions (durable w')) = map unsent (node_executions (sdb s))" using publish_phase_rows [OF p] by simp
  then have rows: "map (\<lambda>n. (ne_id n, ne_status n)) (node_executions (durable w')) = map (\<lambda>n. (ne_id n, ne_status n)) (node_executions (sdb s))"
    by (rule unsent_rows [where f = "\<lambda>n. (ne_id n, ne_status n)"]) simp
  have "distinct (map ne_id (node_executions (sdb (open_session w))))" using ok by (simp add: db_ok_def tables_ok_def nodes_ok_def)
  then obtain v wf q e1 s1 where started: "started_as registry command owner (open_session w) v wf q e1 s1"
    by (rule start_unit_effect [OF su]) (use fresh in simp_all)
  obtain R where nodes: "node_executions (sdb s) = node_executions (durable w) @ map (start_row (root_nodes q) (now (open_session w))) R"
    and queued: "queued = map (set_node_status QUEUED (now (open_session w))) (filter (\<lambda>r. ne_node_id r \<in> set (root_nodes q)) R)"
    and R: "\<And>r. r \<in> set R \<Longrightarrow> ne_status r = PENDING"
  proof (rule that)
    show "\<And>r. r \<in> set (fresh_rows (ex_id e1) (wv_definition v) (open_session w)) \<Longrightarrow> ne_status r = PENDING" by (drule new_rows_fields(3)) simp
  qed (use started su in \<open>simp_all add: started_as_def\<close>)
  have "ne_status n \<noteq> RUNNING \<and> (ne_status n = QUEUED \<longrightarrow> (\<exists>j \<in> set (drop k (jobs (queue w'))). j_node_execution_id j = ne_id n))"
    if n: "n \<in> set (node_executions (durable w'))" for n
  proof -
    have "(ne_id n, ne_status n) \<in> set (map (\<lambda>n. (ne_id n, ne_status n)) (node_executions (sdb s)))" unfolding rows [symmetric] using n by force
    then obtain m where m: "m \<in> set (node_executions (sdb s))" "ne_id m = ne_id n" "ne_status m = ne_status n" by auto
    then consider "m \<in> set (node_executions (durable w))" | r where "r \<in> set R" "m = start_row (root_nodes q) (now (open_session w)) r"
      unfolding nodes by auto
    then show ?thesis
    proof cases
      case 1
      then have "ne_status m \<noteq> RUNNING" "ne_status m = QUEUED \<Longrightarrow> \<exists>j \<in> set (drop k (jobs (queue w))). j_node_execution_id j = ne_id m"
        using c by (auto simp: covered_def)
      then show ?thesis unfolding m(2,3) using k by (auto simp: jobs')
    next
      case 2
      then have "\<exists>j \<in> set (drop k (jobs (queue w'))). j_node_execution_id j = ne_id m" if "ne_status m = QUEUED"
        using that R k by (intro bexI [of _ "node_job (ex_id e) (ex_workflow_version_id e) m"])
          (auto simp: jobs' queued start_row_def split: if_splits)
      moreover have "ne_status m \<noteq> RUNNING" using 2 R by (auto simp: start_row_def)
      ultimately show ?thesis unfolding m(2,3) by blast
    qed
  qed
  then show ?thesis by (simp add: covered_def)
qed

end

text \<open>Nothing is left to come: every execution has ended.\<close>

lemma covered_end:
  assumes "db_ok (durable w)" and "covered jobs k w" and "length (jobs (queue w)) \<le> k"
  shows "n \<in> set (node_executions (durable w)) \<Longrightarrow> ne_status n \<notin> {QUEUED, RUNNING}"
    and "e \<in> set (executions (durable w)) \<Longrightarrow> execution_rows (ex_id e) (durable w) \<noteq> [] \<Longrightarrow> ex_status e \<noteq> X_RUNNING"
proof -
  show settled: "ne_status n \<notin> {QUEUED, RUNNING}" if "n \<in> set (node_executions (durable w))" for n
    using assms(2,3) that by (auto simp: covered_def)
  show "ex_status e \<noteq> X_RUNNING" if e: "e \<in> set (executions (durable w))" "execution_rows (ex_id e) (durable w) \<noteq> []"
    using running_progress [OF assms(1) e(1) _ e(2)] settled by (auto simp: in_execution_rows)
qed

end
