(* ===== verification/Spec2Isabelle.thy ===== *)
theory Spec2Isabelle
  imports Interface_Properties Seeding Draining
begin

text \<open>
  A verification development for the EventFlow backend (\<open>src/backend/app\<close>), a workflow orchestration
  service: clients create workflows (graphs of nodes) and start executions of them over HTTP; the
  engine writes executions and node executions into a database and publishes a job per runnable node
  on a Redis stream; workers take jobs, run the executor of the node, commit the result together with
  the nodes that became runnable, and publish those; a recovery loop takes over the jobs of workers
  that died; failures are retried and finally dead-lettered; every change is announced to web sockets.

  \<^bold>\<open>The parts and their theories.\<close>
  \<^item> \<open>Prelude\<close>: exceptions as values (\<open>exn\<close>, \<open>'a result = exn + 'a\<close>, \<open>rbind\<close>, \<open>rfold\<close>), a table as a
    list of rows (\<open>row_get\<close>, \<open>row_modify\<close>, \<open>scalar_one_or_none\<close>), paging and ordering of queries, the
    collections of lemmas the components share. \<open>Json\<close>, \<open>Json_Text\<close>, \<open>Py_Text\<close>, \<open>Sha256\<close>: the values of
    JSON with Python's equality and order, \<open>json.dumps\<close> with sorted keys, \<open>str\<close>/\<open>int\<close>/\<open>UUID\<close> as text
    and back, and SHA-256 on 32-bit words.
  \<^item> \<open>Schemas\<close> (\<open>schemas/workflow.py\<close>, \<open>services/retry_policy.py\<close>), \<open>Executors\<close> and \<open>Executor_Runtime\<close>
    (\<open>services/executor_registry.py\<close>), \<open>Dag_Validator\<close> (\<open>services/dag_validator.py\<close>: Kahn's algorithm).
  \<^item> \<open>Models\<close> (\<open>models/\<close>): the tables as records, their state \<open>database\<close>, the interface \<open>row_table\<close>.
    \<open>Job_Queue\<close> (\<open>queue/publisher.py\<close>) with the interface \<open>queue_publisher\<close>; \<open>Events\<close> and
    \<open>Notifications\<close> (\<open>websocket/\<close>, the listener of \<open>main.py\<close>); \<open>Session\<close> (\<open>db/session.py\<close>,
    \<open>observability/log_helpers.py\<close>): transactions, staged events, objects that outlive a commit.
  \<^item> \<open>State_Transition\<close> (\<open>services/state_transition.py\<close>), \<open>Execution_Engine\<close>
    (\<open>services/execution_engine.py\<close>), \<open>Worker_Runtime\<close> (\<open>worker/runtime.py\<close>: the claim, the context, the
    completion with its skip cascade), \<open>Worker_Loop\<close> (\<open>worker/recovery.py\<close> and the turn of the
    consumer), \<open>Worker_Lifecycle\<close> (\<open>worker/__main__.py\<close>, \<open>worker/background.py\<close>), \<open>Workers\<close>
    (\<open>services/worker_service.py\<close>, \<open>worker/heartbeat.py\<close>), \<open>Dlq\<close> (\<open>services/dlq_service.py\<close>).
  \<^item> \<open>Workflow_Service\<close> and \<open>Workflow_Api\<close> (\<open>services/workflow_service.py\<close>, \<open>api/workflows.py\<close>), \<open>Auth\<close>
    (\<open>services/api_key_service.py\<close>, \<open>core/security.py\<close>, \<open>api/auth.py\<close>), \<open>Rate_Limit\<close>
    (\<open>api/middleware/\<close>), \<open>Transport\<close> (\<open>transport/\<close>), \<open>Monitoring\<close> (\<open>services/execution_log_service.py\<close>,
    \<open>services/metrics_service.py\<close>), \<open>Api\<close> (\<open>api/executions.py\<close>, \<open>api/dlq.py\<close>, \<open>api/workers.py\<close>,
    \<open>api/metrics.py\<close>, \<open>api/health.py\<close>, \<open>api/websocket.py\<close> with the response models of \<open>schemas/\<close>).
  \<^item> \<open>Application\<close> (\<open>core/config.py\<close>, \<open>main.py\<close>): the settings and what they choose (publisher, CORS origins),
    the order of the middlewares, the life of a web socket, the start and the end of the lifespan with
    the gRPC server, the clients kept per process, the readiness checks. \<open>Request_Schemas\<close>
    (\<open>schemas/\<close>, the bodies of \<open>api/auth.py\<close>): reading the models from JSON, and the column that stores a
    definition. \<open>Routing\<close> (\<open>core/errors.py\<close>, \<open>main.py\<close>, the decorators and parameters of \<open>api/\<close>): the tables of
    routes, dependencies and error handlers, and \<open>eventflow\<close>, the application from a request to its
    response. \<open>Migrations\<close> (\<open>alembic/versions/\<close>, \<open>models/\<close>, \<open>db/base.py\<close>): schemas as data, the operations of
    a migration, the revisions, and the schema the models declare; \<open>Row_Types\<close> gives each mapped object its
    row and says when it fits its columns. \<open>Seeding\<close> (\<open>scripts/\<close>).

  \<^bold>\<open>How state and operations correspond.\<close> A method that works on a session is a function
  \<open>session \<Rightarrow> ('a \<times> session) result\<close>: an exception discards the session, which is the rollback. What
  outlives a session is a \<open>world\<close>: the durable database, the queue and the notification channel, with
  the clock and the stream of \<open>uuid4\<close>. A method with several commits is a function on worlds composed
  of such units in the order of the code, e.g. \<open>process_job\<close> is \<open>claim_unit\<close>, a commit,
  \<open>load_context\<close>, the executor, \<open>complete_unit\<close>, a commit and \<open>publish_phase\<close>. Rows are records with
  the columns of the models, statuses the enumerations, uuids 128-bit words, times microseconds.

  \<^bold>\<open>What is proved.\<close>
  \<^item> \<open>Run_Spec\<close> states one execution abstractly, as a map from node ids to statuses with the moves a run
    can make (an inductive relation) and the invariant \<open>graph_ok\<close>; \<open>Worker_Refinement\<close> and \<open>Completion\<close>
    show that the code's loops (the skip cascade, the queueing of children, retry and dead letter)
    implement those moves on the rows (C15 to C18).
  \<^item> \<open>System_Invariant\<close>, \<open>System\<close>, \<open>System_Start\<close>, \<open>System_Complete\<close> carry this to the whole database
    (\<open>db_ok\<close>); \<open>Reachability\<close> interleaves all committed transactions of API, workers and recovery in
    any order (\<open>sys_step\<close>, \<open>reachable\<close>) and derives the safety and progress of every reachable state
    (C4 to C8); \<open>World_Invariant\<close> and \<open>Worker_Lifecycle\<close> show that the composed operations, up to a
    whole worker under any schedule, preserve \<open>db_ok\<close> whatever queue, channel and executors do (C21).
  \<^item> \<open>Publishing\<close> proves once, in the interface \<open>queue_publisher\<close>, that what is queued is published
    (C14); \<open>Draining\<close> adds a measure that every effective transaction of a worker decreases
    (retries included), so that any number of workers come to rest (C13), and shows that a worker reaches the end of the queue, with every execution ended if its jobs return (C10).
    \<open>Job_Queue\<close> interprets the interface on the in-memory publisher and gives it for the Redis publisher
    (C25).
  \<^item> The interface \<open>isolating_client\<close> of \<open>Api\<close> says that callers see only what they own, the interface
    \<open>keeping_client\<close> of \<open>Api_Invariant\<close> that the operations of the engine keep \<open>db_ok\<close>; both are interpreted on
    the local and on the gRPC client. Through \<open>Routing\<close> they become statements about requests to the whole
    application, middleware included, in \<open>Interface_Properties\<close>: strangers see and change nothing (C26),
    every request keeps the invariant (C34), and nothing but five paths works without a token (C35).
    \<open>Routing\<close> also shows that no route shadows another.
  \<^item> \<open>Request_Schemas\<close> shows that a stored definition reads back with its checksum (C31), \<open>Row_Types\<close> which
    rows the columns accept (C24). \<open>Migrations\<close> runs the revisions on the empty schema: they give the schema
    of the models (C30), and the first one can be undone. \<open>Application\<close> shows which responses carry the
    security headers (C27), \<open>Seeding\<close> that the demo workflows pass the validator and are stored once.
  \<^item> \<open>Engine_Facts\<close>, \<open>Service_Properties\<close> and this theory state the other properties; C1 to C3 are
    in \<open>Dag_Validator\<close>. \<open>Samples\<close> and \<open>Samples_Done\<close> hold concrete histories on which the properties
    are applied.

  \<^bold>\<open>Parameters.\<close> Code outside the repository is a parameter: Redis (\<open>redis_api\<close>, \<open>consumer_api\<close>, the
  publisher and the channel), PyJWT, pydantic's conversions of scalars (\<open>lax\<close>), CORS and FastAPI's answer to
  an unknown path, \<open>httpx\<close> with name resolution and address classification, the
  protobuf \<open>Struct\<close>, \<open>json.loads\<close> and the text of a float. Where a property needs a law of one of them
  (\<open>redis_streams\<close>, \<open>lax_numbers\<close>, an \<open>XCLAIM\<close> that returns what it was asked for, a token that decodes to what was
  signed, a payload that survives \<open>Struct\<close>) it is a hypothesis of that property. Fresh uuids are
  hypotheses too (\<open>fresh_ids\<close>).
  SQL alone has a meaning of its own here, as part of the language the sources are written in: a query
  or an update works on the rows of a table, a \<open>CREATE\<close> or \<open>DROP\<close> on the schema, with the errors of keys that
  collide or references that do not resolve.

  \<^bold>\<open>Bounds and termination.\<close> There is no fuel: Kahn's algorithm and the skip cascade are total by a
  measure (unplaced nodes; PENDING rows and the queue). The endless loops of a worker are modelled by
  their turns, a worker's life by the finite schedule of turns up to its stop event; the sequential
  worker \<open>drain\<close> of \<open>Draining\<close> is a \<open>partial_function\<close>, and that it returns is what C10 proves.

  \<^bold>\<open>Not modelled.\<close> Of FastAPI and Starlette the CORS middleware itself (its place in the order of the
  middlewares is), redirects and the answers to unknown paths, the documentation pages, and how a response
  model is written as JSON; the pools behind the clients, the generated protobuf code, the console
  formatting of log records, \<open>alembic/env.py\<close>, the tests and the frontend: wiring of libraries without state
  of its own. The services of the model store every row; \<open>Row_Types\<close> says which of them PostgreSQL would
  refuse (a text that is too long, a NUL, a float that is not a number).
  Interleaving is at the granularity of transactions; the tasks that \<open>asyncio.gather\<close>
  starts for one batch run one after the other in \<open>process_batch\<close>, their interleavings are those of
  \<open>Reachability\<close>. Strings hold characters with code points below 256.
\<close>


section \<open>The system\<close>











section \<open>Starting an execution\<close>

text \<open>
  C9: a start that succeeds adds one execution, RUNNING, of the version asked for and of a workflow of
  the caller, with one node execution per node of the definition: the nodes without parents QUEUED in
  their first attempt, the others PENDING.
\<close>

theorem start_creates_run:
  assumes "start_unit registry command owner s = Inr ((e, queued), s')" and "db_ok (sdb s)" and "pinned s = []"
    and "\<And>v. v \<in> set (workflow_versions (sdb s)) \<Longrightarrow> wv_id v = cmd_workflow_version_id command \<Longrightarrow>
      fresh_ids (Suc (length (nodes (wv_definition v)))) s"
  shows "\<exists>v \<in> set (workflow_versions (sdb s)). \<exists>w \<in> set (workflows (sdb s)).
    wv_id v = cmd_workflow_version_id command \<and> wf_id w = wv_workflow_id v \<and> wf_owner_api_key_id w = owner \<and>
    executions (sdb s') = executions (sdb s) @ [e] \<and> ex_status e = X_RUNNING \<and> ex_workflow_version_id e = wv_id v \<and>
    map ne_node_id (execution_rows (ex_id e) (sdb s')) = node_ids (wv_definition v) \<and>
    (\<forall>n \<in> set (execution_rows (ex_id e) (sdb s')).
       if ne_node_id n \<in> set (roots (wv_definition v)) then ne_status n = QUEUED \<and> ne_attempt n = 1
       else ne_status n = PENDING \<and> ne_attempt n = 0)"
  by (rule start_unit_rows [OF assms])

theorem start_creates_run_witness:
  "\<exists>s e queued. start_unit sample_registry sample_command 7 (sample_session created_db 10) = Inr ((e, queued), s) \<and>
     executions (sdb s) = executions created_db @ [e] \<and> ex_status e = X_RUNNING"
proof -
  obtain s where s: "start_unit sample_registry sample_command 7 (sample_session created_db 10) =
      Inr ((sample_execution, [set_node_status QUEUED 1000 (sample_row 11 ''a'')]), s)"
    using started_eq by (auto simp: started_def)
  have ok: "db_ok (sdb (sample_session created_db 10))" using sys_ok_reachable [OF created_reachable] by (simp add: sys_ok_def)
  have "\<And>v. v \<in> set (workflow_versions (sdb (sample_session created_db 10))) \<Longrightarrow> fresh_ids (Suc (length (nodes (wv_definition v)))) (sample_session created_db 10)"
    using sample_fresh by simp
  from start_creates_run [OF s ok _ this] s show ?thesis by auto
qed

text \<open>
  A start that names no version, or a version of somebody else's workflow, is refused with 404 or
  403 and leaves the database, the queue and the channel as they were.
\<close>

lemma start_refused:
  assumes "\<And>v w. v \<in> set (workflow_versions (durable world)) \<Longrightarrow> wv_id v = cmd_workflow_version_id command \<Longrightarrow>
      w \<in> set (workflows (durable world)) \<Longrightarrow> wf_id w = wv_workflow_id v \<Longrightarrow> wf_owner_api_key_id w \<noteq> owner"
  shows "start_execution registry publish ws_publish command owner world \<in>
    {(Inl (AppError ''Workflow version not found'' ''not_found'' 404), world),
     (Inl (AppError ''Unauthorized access to workflow'' ''unauthorized'' 403), world)}"
proof -
  let ?rows = "concat (map (\<lambda>v. map (\<lambda>w. (v, w)) (filter (\<lambda>w. wf_id w = wv_workflow_id v) (workflows (durable world))))
    (filter (\<lambda>v. wv_id v = cmd_workflow_version_id command) (workflow_versions (durable world))))"
  show ?thesis
  proof (cases "first_row ?rows")
    case None
    then show ?thesis by (simp add: start_execution_def start_unit_def)
  next
    case (Some vw)
    obtain v w where vw: "vw = (v, w)" by (cases vw)
    have "(v, w) \<in> set ?rows" using Some vw by (cases ?rows) (simp_all add: first_row_def)
    then have "wf_owner_api_key_id w \<noteq> owner" using assms by auto
    then show ?thesis using Some vw by (simp add: start_execution_def start_unit_def)
  qed
qed

text \<open>
  C11: when the queue refuses the message of the first root, \<open>start_execution\<close> raises, but the
  transaction is already committed: the execution stays RUNNING with QUEUED roots for which there is
  no job.
\<close>

theorem start_commits_before_publish:
  assumes "start_unit registry command owner (open_session w) = Inr ((e, n # queued), s)"
    and "publish (node_job (ex_id e) (ex_workflow_version_id e) n) (queue w) = (Inl err, queue w)"
  shows "start_execution registry publish ws_publish command owner w = (Inl err, commit_session s w)"
  using assms by (rule start_publish_failure)

theorem start_commits_before_publish_witness:
  "\<exists>s. start_execution sample_registry (\<lambda>j q. (Inl (OtherError ''down''), q)) pubsub_publish sample_command 7 (sample_world created_db 10) =
     (Inl (OtherError ''down''), commit_session s (sample_world created_db 10)) \<and> executions (sdb s) = [sample_execution] \<and>
     ex_status sample_execution = X_RUNNING"
proof -
  obtain s where s: "start_unit sample_registry sample_command 7 (open_session (sample_world created_db 10)) =
      Inr ((sample_execution, set_node_status QUEUED 1000 (sample_row 11 ''a'') # []), s)" "sdb s = started_db"
    using started_eq by (auto simp: started_def)
  from start_commits_before_publish [OF s(1), of "\<lambda>j q. (Inl (OtherError ''down''), q)"] s(2) show ?thesis by auto
qed

section \<open>Running a job\<close>

text \<open>
  C12: a job whose node is not QUEUED does nothing: if the node is terminal the job returns and its
  message can be acknowledged, otherwise it raises; either way no table, no queue and no channel
  changes, so a message delivered twice runs its node once.
\<close>

theorem redelivery_is_harmless:
  assumes "deserialize_job_payload fs = Inr job" and "nodes_ok (durable w)"
    and "row_get ne_id (j_node_execution_id job) (node_executions (durable w)) = Some n" and "ne_status n \<noteq> QUEUED"
  shows "snd (process_job registry publish ws_publish fs w) = w \<and>
    (isl (fst (process_job registry publish ws_publish fs w)) \<longleftrightarrow> \<not> is_terminal n)"
  by (rule process_job_not_queued [OF assms])

theorem redelivery_is_harmless_witness:
  "process_job sample_registry memory_publish pubsub_publish (serialize_job_payload sample_job) (sample_world completed_db 40) =
     (Inr (), sample_world completed_db 40)"
proof -
  have ok: "nodes_ok completed_db" using sys_ok_reachable [OF completed_reachable] by (simp add: sys_ok_def db_ok_def tables_ok_def)
  let ?p = "process_job sample_registry memory_publish pubsub_publish (serialize_job_payload sample_job) (sample_world completed_db 40)"
  have "snd ?p = sample_world completed_db 40 \<and> (isl (fst ?p) \<longleftrightarrow> \<not> is_terminal succeeded_row)"
    by (rule redelivery_is_harmless [OF deserialize_serialize]) (use ok in \<open>simp_all add: sample_job_def\<close>)
  moreover have "is_terminal succeeded_row" by (simp add: is_terminal_def TERMINAL_NODE_STATUSES_def)
  ultimately have "snd ?p = sample_world completed_db 40" "\<not> isl (fst ?p)" by simp_all
  then show ?thesis by (cases ?p; cases "fst ?p") auto
qed



text \<open>
  C14: with any publisher that appends what it accepts, a job that returns has published one message
  for every node it made QUEUED, after those already in the queue: every node that is QUEUED
  afterwards has a new message, or was QUEUED before and is not the node of this job, whose message is
  used up.
\<close>

theorem queued_nodes_are_published:
  assumes "queue_publisher publish jobs" and "db_ok (durable w)" and "process_job registry publish ws_publish fs w = (Inr u, w')"
  shows "\<exists>job x v ns. deserialize_job_payload fs = Inr job \<and> jobs (queue w') = jobs (queue w) @ map (node_job x v) ns \<and>
    (\<forall>n' \<in> set (node_executions (durable w')). ne_status n' = QUEUED \<longrightarrow> ne_id n' \<in> ne_id ` set ns \<or>
       ne_id n' \<noteq> j_node_execution_id job \<and> (\<exists>n \<in> set (node_executions (durable w)). ne_id n = ne_id n' \<and> ne_status n = QUEUED))"
  by (rule queue_publisher.process_job_publishes [OF assms])

theorem queued_nodes_are_published_witness:
  "\<exists>w' x v ns. process_job sample_registry memory_publish pubsub_publish (serialize_job_payload sample_job) (sample_world started_db 20) = (Inr (), w') \<and>
     map memory_job (queue w') = map (node_job x v) ns"
proof -
  obtain w' where w': "process_job sample_registry memory_publish pubsub_publish (serialize_job_payload sample_job) (sample_world started_db 20) = (Inr (), w')"
    using sample_job_run by blast
  have "db_ok (durable (sample_world started_db 20))" using sys_ok_reachable [OF started_reachable] by (simp add: sys_ok_def)
  from queued_nodes_are_published [OF memory.queue_publisher_axioms this w'] w' show ?thesis by auto
qed

text \<open>
  C10: a started execution comes to its end. Take any publisher that appends what it accepts, and a
  world where every QUEUED node has a message after position \<open>k\<close> of the queue and no node is RUNNING. An
  execution that is started there, and a worker that then takes the messages from position \<open>k\<close> on one
  after the other, the ones it publishes itself included: the worker reaches the end of the queue
  whatever the executors return, and if none of its jobs raised, no node is QUEUED or RUNNING and no
  execution with a node is RUNNING any more.
\<close>

theorem started_execution_ends:
  assumes "queue_publisher publish jobs" and "db_ok (durable w)" and "covered jobs k w" and "k \<le> length (jobs (queue w))"
    and "start_execution registry publish ws_publish command owner w = (Inr d, w1)"
    and "\<And>v. v \<in> set (workflow_versions (durable w)) \<Longrightarrow> wv_id v = cmd_workflow_version_id command \<Longrightarrow>
      fresh_ids (Suc (length (nodes (wv_definition v)))) (open_session w)"
  shows "\<exists>rs w2. drain registry publish ws_publish jobs k w1 = Some (rs, w2) \<and> length (jobs (queue w2)) \<le> k + length rs \<and>
    db_ok (durable w2) \<and>
    ((\<exists>r \<in> set rs. isl r) \<or>
     (\<forall>n \<in> set (node_executions (durable w2)). ne_status n \<notin> {QUEUED, RUNNING}) \<and>
     (\<forall>e \<in> set (executions (durable w2)). execution_rows (ex_id e) (durable w2) = [] \<or> ex_status e \<noteq> X_RUNNING))"
proof -
  have ok: "db_ok (durable w1)" by (rule start_execution_ok [OF assms(2,5,6)])
  have c: "covered jobs k w1" by (rule queue_publisher.start_covered [OF assms(1-5)]) (rule assms(6))
  from queue_publisher.drain_ends [OF assms(1) ok] c obtain rs w2 where
    d: "drain registry publish ws_publish jobs k w1 = Some (rs, w2)" "db_ok (durable w2)" "length (jobs (queue w2)) \<le> k + length rs"
    and c2: "(\<forall>r \<in> set rs. \<not> isl r) \<Longrightarrow> covered jobs (k + length rs) w2" by blast
  show ?thesis using d c2 covered_end [of w2 jobs "k + length rs"] by blast
qed

theorem started_execution_ends_witness:
  "\<exists>d w1 w2. start_execution sample_registry memory_publish pubsub_publish sample_command 7 (sample_world solo_db 10) = (Inr d, w1) \<and>
     drain sample_registry memory_publish pubsub_publish (map memory_job) 0 w1 = Some ([Inr ()], w2) \<and>
     {QUEUED, RUNNING} \<inter> ne_status ` set (node_executions (durable w2)) = {}"
proof -
  obtain d w1 where st: "start_execution sample_registry memory_publish pubsub_publish sample_command 7 (sample_world solo_db 10) = (Inr d, w1)"
    and w1: "durable w1 = solo_started" "map memory_job (queue w1) = [node_job 10 2 (set_node_status QUEUED 1000 solo_row)]"
    using solo_start by (elim exE conjE) (rule that)
  obtain w2 where p: "process_job sample_registry memory_publish pubsub_publish
      (serialize_job_payload (node_job 10 2 (set_node_status QUEUED 1000 solo_row))) w1 = (Inr (), w2)"
    and w2: "map memory_job (queue w2) = map memory_job (queue w1)"
    using solo_job_run [OF w1(1), of "node_job 10 2 (set_node_status QUEUED 1000 solo_row)"] by auto
  have len: "length (queue w1) = Suc 0" "length (queue w2) = Suc 0" using w1(2) w2 by (auto dest: arg_cong [of _ _ length])
  have d: "drain sample_registry memory_publish pubsub_publish (map memory_job) 0 w1 = Some ([Inr ()], w2)"
    by (subst drain.simps, subst drain.simps) (use w1(2) p len in simp)
  have "db_ok (durable (sample_world solo_db 10))" using sys_ok_reachable [OF solo_reachable] by (simp add: sys_ok_def)
  from started_execution_ends [OF memory.queue_publisher_axioms this _ _ st, of 0] d st show ?thesis
    by (auto simp: covered_def fresh_ids_def solo_nodes upt_conv_Cons)
qed

section \<open>Completing a node\<close>

text \<open>
  C15: completing a node with success implements the abstract move \<open>succeed\<close> of \<open>Run_Spec\<close> on the
  statuses of its execution: the node becomes SUCCEEDED, the branches a condition did not take are
  SKIPPED with everything that hangs on them, and exactly the children whose parents have all
  SUCCEEDED are QUEUED and returned for publication; no other execution and no dead letter job changes.
\<close>

theorem success_refines_spec:
  assumes "job_ok jc n s" and "r_success res"
    and "child_ids (jc_definition jc) (ne_node_id n) = [] \<or> condition_skip_ids (jc_node_def jc) res = Inr skip_ids"
    and "x = ex_id (jc_execution jc)" and "S = branch_skips (jc_definition jc) (ne_node_id n) skip_ids"
  shows "\<exists>queued s'. complete_unit jc (ne_id n) res s = Inr (Some queued, s') \<and>
    run_view x (sdb s') = succeed (edge_rel (jc_definition jc)) (ne_node_id n) S (run_view x (sdb s)) \<and>
    list_all2 (success_row x (ne_id n) (r_output res) (now s)) (node_executions (sdb s)) (node_executions (sdb s')) \<and>
    ne_node_id ` set queued = queued_children (jc_definition jc) (ne_node_id n)
      (apply_skips (edge_rel (jc_definition jc)) S ((run_view x (sdb s))(ne_node_id n \<mapsto> SUCCEEDED))) \<and>
    set queued \<subseteq> set (execution_rows x (sdb s')) \<and> distinct (map ne_node_id queued) \<and>
    dead_letter_jobs (sdb s') = dead_letter_jobs (sdb s)"
  using complete_success [OF assms] by blast

theorem success_refines_spec_witness:
  "\<exists>queued s'. complete_unit sample_context 11 sample_result ((sample_session claimed_db 30)\<lparr>pinned := [sample_execution]\<rparr>) =
     Inr (Some queued, s') \<and> distinct (map ne_node_id queued)"
proof -
  have j: "job_ok sample_context claimed_row ((sample_session claimed_db 30)\<lparr>pinned := [sample_execution]\<rparr>)" by (rule sample_job_ok)
  have "condition_skip_ids (jc_node_def sample_context) sample_result = Inr []" by (simp add: condition_skip_ids_def)
  from success_refines_spec [OF j _ disjI2 [OF this] refl refl] show ?thesis by (auto simp: sample_result_def)
qed

text \<open>
  C16: a failed attempt that leaves attempts over puts the node back in the queue with the next attempt
  number and the error, returns it for publication, and touches no other row.
\<close>

theorem failure_requeues:
  assumes "job_ok jc n s" and "\<not> r_success res" and "ne_attempt n < ne_max_attempts n"
  shows "\<exists>n' s'. complete_unit jc (ne_id n) res s = Inr (Some [n'], s') \<and>
    ne_id n' = ne_id n \<and> ne_status n' = QUEUED \<and> ne_attempt n' = ne_attempt n + 1 \<and> ne_error_message n' = r_error res \<and>
    node_executions (sdb s') = row_modify ne_id (ne_id n) (\<lambda>_. n') (node_executions (sdb s)) \<and>
    executions (sdb s') = executions (sdb s) \<and> dead_letter_jobs (sdb s') = dead_letter_jobs (sdb s)"
  by (rule complete_requeues [OF assms])

theorem failure_requeues_witness:
  "\<exists>n' s'. complete_unit sample_context 11 (failed ''boom'') ((sample_session claimed_db 30)\<lparr>pinned := [sample_execution]\<rparr>) =
     Inr (Some [n'], s') \<and> ne_status n' = QUEUED \<and> ne_attempt n' = 2 \<and> ne_error_message n' = Some ''boom''"
  using failure_requeues [OF sample_job_ok, of "failed ''boom''"] by (auto simp: failed_def)

text \<open>
  C17: a failed attempt that was the last one dead-letters the node, writes one unresolved dead letter
  job with the error and the payload of the job, and fails the execution if it was RUNNING.
\<close>

theorem last_failure_dead_letters:
  assumes "job_ok jc n s" and "\<not> r_success res" and "\<not> ne_attempt n < ne_max_attempts n"
    and "e = held_execution (jc_execution jc) s"
  shows "\<exists>j s'. complete_unit jc (ne_id n) res s = Inr (Some [], s') \<and>
    node_executions (sdb s') = row_modify ne_id (ne_id n) (dead_row (r_error res) (now s)) (node_executions (sdb s)) \<and>
    dead_letter_jobs (sdb s') = dead_letter_jobs (sdb s) @ [j] \<and> dj_node_execution_id j = ne_id n \<and> dj_resolved_at j = None \<and>
    dj_attempts j = ne_attempt n \<and>
    dj_reason j = (case r_error res of None \<Rightarrow> ''max attempts exceeded'' | Some m \<Rightarrow> if m = [] then ''max attempts exceeded'' else m) \<and>
    dj_payload j = Some (job_payload_json (node_job (ex_id e) (ex_workflow_version_id e) n)) \<and>
    executions (sdb s') =
      (if ex_status e = X_RUNNING then row_modify ex_id (ex_id e) (set_execution_status X_FAILED (now s)) (executions (sdb s))
       else executions (sdb s))"
  by (rule complete_dead_letters [OF assms])

theorem last_failure_dead_letters_witness:
  "\<exists>j s'. complete_unit sample_context 11 (failed ''boom'') last_attempt_session = Inr (Some [], s') \<and>
     dead_letter_jobs (sdb s') = [j] \<and> dj_resolved_at j = None"
  using last_failure_dead_letters [OF last_attempt_job_ok, of "failed ''boom''"] by (auto simp: failed_def)

text \<open>
  C18: skipping terminates on every queue of node ids, cyclic graphs included, raises nothing, and
  skips exactly the PENDING nodes reachable from the queue through PENDING nodes, as the abstract
  \<open>apply_skips\<close> says.
\<close>

theorem skipping_terminates:
  assumes "nodes_ok (sdb s)" and "idx = node_exec_by_node_id (execution_rows x (sdb s))"
  shows "\<exists>s'. skip_cascade d idx q s = Inr s' \<and> advances x s s' \<and>
    run_view x (sdb s') = apply_skips (edge_rel d) (set q) (run_view x (sdb s))"
  using assms by (rule skip_cascade_refines)

theorem skipping_terminates_witness:
  "\<exists>s'. skip_cascade looping (node_exec_by_node_id (execution_rows 10 started_db)) [''b''] (sample_session started_db 20) = Inr s' \<and>
     run_view 10 (sdb s') = apply_skips (edge_rel looping) {''b''} (run_view 10 started_db)"
proof -
  have "nodes_ok (sdb (sample_session started_db 20))"
    using sys_ok_reachable [OF started_reachable] by (simp add: sys_ok_def db_ok_def tables_ok_def)
  from skipping_terminates [OF this refl, of looping 10 "[''b'']"] show ?thesis by auto
qed

section \<open>Recovery and the life of a worker\<close>

text \<open>
  C19: recovery takes over only stale messages. With an \<open>XCLAIM\<close> that returns only messages it was
  asked for, every message claimed was listed as pending with at least the idle timeout since its
  delivery, and is reported with the consumer it was taken from.
\<close>

theorem only_stale_claimed:
  assumes "\<And>t ms q r q'. xclaim api t ms q = (Inr r, q') \<Longrightarrow> fst ` set r \<subseteq> set ms"
    and "claim_stale_pending api idle_timeout_ms batch_size q = (Inr claimed, q')" and "(message_id, fs, previous) \<in> set claimed"
  shows "\<exists>pending q1. xpending_range api batch_size q = (Inr pending, q1) \<and>
    (\<exists>p \<in> set pending. pe_message_id p = message_id \<and> pe_time_since_delivered p \<ge> idle_timeout_ms \<and> pe_consumer p = previous)"
  by (rule claim_stale_pending_stale [OF assms])

theorem only_stale_claimed_witness:
  "\<exists>p \<in> set sample_pending. pe_message_id p = ''1-0'' \<and> pe_time_since_delivered p \<ge> 600000 \<and> pe_consumer p = Some ''w1''"
proof -
  have c: "claim_stale_pending sample_consumer_api 600000 10 () = (Inr [(''1-0'', [], Some ''w1'')], ())"
    by (simp add: claim_stale_pending_def sample_consumer_api_def sample_pending_def)
  have "\<exists>pending q1. xpending_range sample_consumer_api 10 () = (Inr pending, q1) \<and>
    (\<exists>p \<in> set pending. pe_message_id p = ''1-0'' \<and> pe_time_since_delivered p \<ge> 600000 \<and> pe_consumer p = Some ''w1'')"
    by (rule only_stale_claimed [OF _ c]) (auto simp: sample_consumer_api_def)
  then show ?thesis by (auto simp: sample_consumer_api_def)
qed

text \<open>
  C20: recovering a job whose node is RUNNING (its worker is gone) makes the node QUEUED in the same
  attempt, so that the claim that follows succeeds; a terminal node is left alone and only acknowledged.
\<close>

theorem recovered_job_can_run:
  assumes "nodes_ok (sdb s)" and "row_get ne_id (j_node_execution_id job) (node_executions (sdb s)) = Some n"
    and "ne_status n = RUNNING" and "recover_unit job m p c s = (r, s')"
  shows "r = Some True \<and> row_get ne_id (ne_id n) (node_executions (sdb s')) = Some (n\<lparr>ne_status := QUEUED\<rparr>) \<and>
    (\<exists>n' s2. claim_unit job s' = Inr (Some n', s2) \<and> ne_id n' = ne_id n \<and> ne_status n' = RUNNING \<and> ne_attempt n' = ne_attempt n)"
  by (rule recover_unit_requeues [OF assms])

theorem recovered_job_can_run_witness:
  "\<exists>s' n' s2. recover_unit sample_job ''1-0'' (Some ''w1'') ''w2'' (sample_session claimed_db 40) = (Some True, s') \<and>
     claim_unit sample_job s' = Inr (Some n', s2) \<and> ne_status n' = RUNNING \<and> ne_attempt n' = 1"
proof -
  obtain r s' where r: "recover_unit sample_job ''1-0'' (Some ''w1'') ''w2'' (sample_session claimed_db 40) = (r, s')"
    by (cases "recover_unit sample_job ''1-0'' (Some ''w1'') ''w2'' (sample_session claimed_db 40)")
  have "nodes_ok (sdb (sample_session claimed_db 40))"
    using sys_ok_reachable [OF claimed_reachable] by (simp add: sys_ok_def db_ok_def tables_ok_def)
  from recovered_job_can_run [OF this _ _ r, of claimed_row] r show ?thesis by (auto simp: sample_job_def)
qed



section \<open>Operations of the engine\<close>

text \<open>
  C22: a retry through the API succeeds only for a DEAD_LETTERED node of an execution of the caller. It
  makes that node QUEUED with one more attempt, changes no other node and no execution, and leaves no
  unresolved dead letter job for the node.
\<close>

theorem retry_revives_node:
  assumes "db_ok (sdb s)" and "retry_unit x nid owner s = Inr ((e, n'), s')"
  shows "\<exists>n \<in> set (node_executions (sdb s)). ne_execution_id n = x \<and> ne_node_id n = nid \<and> ne_status n = DEAD_LETTERED \<and>
    owns owner x (sdb s) \<and> n' = set_node_status QUEUED (now s) n \<and>
    node_executions (sdb s') = row_modify ne_id (ne_id n) (set_node_status QUEUED (now s)) (node_executions (sdb s)) \<and>
    executions (sdb s') = executions (sdb s) \<and> unresolved (dead_letters (ne_id n) (sdb s')) = 0"
  using assms by (rule retry_unit_revives)

theorem retry_revives_node_witness:
  "\<exists>e n' s'. retry_unit 10 ''a'' 7 (sample_session solo_dead 50) = Inr ((e, n'), s') \<and> ne_status n' = QUEUED \<and>
     executions (sdb s') = executions solo_dead \<and> ex_status e = X_FAILED"
proof -
  have ok: "db_ok (sdb (sample_session solo_dead 50))" using sys_ok_reachable [OF solo_dead_reachable] by (simp add: sys_ok_def)
  obtain e n' s' where r: "retry_unit 10 ''a'' 7 (sample_session solo_dead 50) = Inr ((e, n'), s')" and e: "ex_status e = X_FAILED"
    using solo_retry by blast
  from retry_revives_node [OF ok r] obtain n :: NodeExecution where "n' = set_node_status QUEUED (now (sample_session solo_dead 50)) n"
    and "executions (sdb s') = executions (sdb (sample_session solo_dead 50))" by blast
  then show ?thesis using r e by auto
qed



end
